theory Spec2Isabelle
  imports Main "HOL-Library.Sublist"
begin

section \<open>Enumerations of the import library\<close>

text \<open>
  The Prisma enums \<open>SplitMode\<close> and \<open>RecurrenceRule\<close>, the comparison result of
  \<open>json-import.ts\<close> and \<open>backup.ts\<close>, and the restore mode
  \<open>'create' | 'update' | 'rollback'\<close>.
\<close>

datatype SplitMode = EVENLY | BY_SHARES | BY_PERCENTAGE | BY_AMOUNT

datatype RecurrenceRule = NONE | DAILY | WEEKLY | MONTHLY

datatype VersionComparisonResult = NEWER | OLDER | SAME | NOT_FOUND

datatype mode = Create | Update | Rollback

subsection \<open>mapSplitMode, mapRecurrenceRule\<close>

text \<open>
  The two \<open>switch\<close> statements of \<open>json-import.ts\<close>, in the order of their cases; the
  last case and \<open>default\<close> share one branch. A \<open>null\<close> recurrence rule is \<open>None\<close>.
\<close>

definition mapSplitMode :: "string \<Rightarrow> SplitMode" where
  "mapSplitMode v =
     (if v = ''BY_SHARES'' then BY_SHARES
      else if v = ''BY_PERCENTAGE'' then BY_PERCENTAGE
      else if v = ''BY_AMOUNT'' then BY_AMOUNT
      else if v = ''EVENLY'' then EVENLY
      else EVENLY)"

definition mapRecurrenceRule :: "string option \<Rightarrow> RecurrenceRule" where
  "mapRecurrenceRule v =
     (if v = Some ''DAILY'' then DAILY
      else if v = Some ''WEEKLY'' then WEEKLY
      else if v = Some ''MONTHLY'' then MONTHLY
      else if v = Some ''NONE'' then NONE
      else NONE)"


section \<open>JavaScript values the code computes with\<close>

text \<open>
  A \<open>Date\<close> read from the store is a valid date: its time value (milliseconds since the
  epoch) is an \<open>int\<close>. A date of a snapshot is a string of the uploaded file, which the code
  turns into a \<open>Date\<close> with \<open>new Date(s)\<close>; the time value of that date is a \<open>jsdate\<close>,
  \<open>None\<close> when the string does not parse (the time value is then \<open>NaN\<close>, the date an
  Invalid Date).
\<close>

type_synonym jsdate = "int option"

text \<open>
  What the code can raise: the two validation errors of \<open>restoreGroupFromJSON\<close> with the
  missing identifier and the expense title they name, its \<open>Group not found\<close>, the
  \<open>RangeError\<close> of \<open>toISOString\<close> on an Invalid Date, the \<open>RangeError\<close> of a call that
  spreads more arguments than the engine has stack for (\<open>Maximum call stack size exceeded\<close>),
  the error of \<open>new Prisma.Decimal\<close>, and the errors of the Prisma client, each with the
  model it is about.
\<close>

datatype prisma_error =
    UniqueConstraint string
  | ForeignKeyConstraint string
  | RecordNotFound string
  | ValidationError string

datatype error =
    InvalidPaidById string string
  | InvalidParticipantId string string
  | GroupNotFound
  | RangeError
  | MaximumCallStackSize
  | DecimalError
  | PrismaError prisma_error

definition bindE :: "error + 'a \<Rightarrow> ('a \<Rightarrow> error + 'b) \<Rightarrow> error + 'b" where
  "bindE m f = (case m of Inl e \<Rightarrow> Inl e | Inr x \<Rightarrow> f x)"

fun mapE :: "('a \<Rightarrow> error + 'b) \<Rightarrow> 'a list \<Rightarrow> error + 'b list" where
  "mapE f [] = Inr []"
| "mapE f (x # xs) = bindE (f x) (\<lambda>y. bindE (mapE f xs) (\<lambda>ys. Inr (y # ys)))"

text \<open>\<open>Math.max(x, ...xs)\<close> on numbers, and on numbers of which some may be \<open>NaN\<close>.\<close>

fun math_max :: "int \<Rightarrow> int list \<Rightarrow> int" where
  "math_max x [] = x"
| "math_max x (y # ys) = math_max (max x y) ys"

definition nan_max :: "jsdate \<Rightarrow> jsdate \<Rightarrow> jsdate" where
  "nan_max a b = (case a of None \<Rightarrow> None | Some x \<Rightarrow> (case b of None \<Rightarrow> None | Some y \<Rightarrow> Some (max x y)))"

fun js_math_max :: "jsdate \<Rightarrow> jsdate list \<Rightarrow> jsdate" where
  "js_math_max x [] = x"
| "js_math_max x (y # ys) = js_math_max (nan_max x y) ys"

text \<open>\<open>a > b\<close> and \<open>a < b\<close> where \<open>a\<close> may be \<open>NaN\<close>: both are false then.\<close>

definition js_gt :: "jsdate \<Rightarrow> int \<Rightarrow> bool" where
  "js_gt a b = (case a of None \<Rightarrow> False | Some x \<Rightarrow> x > b)"

definition js_lt :: "jsdate \<Rightarrow> int \<Rightarrow> bool" where
  "js_lt a b = (case a of None \<Rightarrow> False | Some x \<Rightarrow> x < b)"

text \<open>
  \<open>d.toISOString().split('T')[0]\<close>: the calendar day of \<open>d\<close> in UTC. Two dates have the same
  day string exactly when their time values have the same quotient by the milliseconds of a
  day, so the day is kept as that quotient. On an Invalid Date \<open>toISOString\<close> raises.
\<close>

definition isoDay :: "int \<Rightarrow> int" where
  "isoDay t = t div 86400000"

definition toISODay :: "jsdate \<Rightarrow> error + int" where
  "toISODay d = (case d of None \<Rightarrow> Inl RangeError | Some t \<Rightarrow> Inr (isoDay t))"

section \<open>The environment\<close>

type_synonym decimal = string

text \<open>
  What the code takes from outside itself: \<open>new Date(s)\<close> on a string of a snapshot, as the
  time value of the date it gives; the values \<open>randomUUID()\<close> returns, by the number of the
  call; \<open>new Date()\<close> at the start of \<open>restoreGroupFromJSON\<close>; the store's \<open>now()\<close>, the
  default of a \<open>createdAt\<close> the code does not give; the answer of the \<open>HEAD\<close> request of
  \<open>checkUrlExists\<close>; \<open>toISOString\<close> on a valid date and \<open>JSON.stringify\<close> on a string;
  \<open>parseFloat\<close>, and \<open>new Prisma.Decimal\<close>, which raises on a string that is no decimal;
  and \<open>maxArguments\<close>, the largest number of arguments the engine passes in one call: a call
  \<open>f(...xs)\<close> puts every element of \<open>xs\<close> on the stack and raises when they are more.

  The Prisma schema is not among the sources, so whether the store enforces references is a
  parameter too: with \<open>enforceFK\<close> a row that names a missing row is refused and a deletion
  takes the rows that name the deleted row with it; without it neither happens.
\<close>

record env =
  newDate :: "string \<Rightarrow> jsdate"
  randomUUID :: "nat \<Rightarrow> string"
  importTime :: int
  dbNow :: int
  checkUrlExists :: "string \<Rightarrow> bool"
  toISOString :: "int \<Rightarrow> string"
  jsonStringify :: "string \<Rightarrow> string"
  parseFloat :: "string \<Rightarrow> decimal"
  prismaDecimal :: "string \<Rightarrow> decimal option"
  maxArguments :: nat
  enforceFK :: bool

text \<open>The arguments of a call \<open>f(...xs)\<close>.\<close>

definition spread :: "env \<Rightarrow> 'a list \<Rightarrow> error + 'a list" where
  "spread env xs = (if maxArguments env < length xs then Inl MaximumCallStackSize else Inr xs)"

section \<open>The two snapshot formats\<close>

text \<open>
  \<open>JSONImportData\<close> of \<open>json-import.ts\<close> and \<open>BackupData\<close> of \<open>backup.ts\<close>, field by field.
  A string stays a string, the dates among them too; \<open>string | null\<close> is an option. The
  numbers (amounts in minor units, shares, sizes, category identifiers) are integers.
\<close>

record paid_for =
  pf_participantId :: string
  pf_shares :: int

record participant_ref =
  pr_id :: string
  pr_name :: string

record json_category =
  jc_grouping :: string
  jc_name :: string

record json_expense =
  je_createdAt :: string
  je_expenseDate :: string
  je_title :: string
  je_category :: "json_category option"
  je_amount :: int
  je_originalAmount :: "int option"
  je_originalCurrency :: "string option"
  je_conversionRate :: "string option"
  je_paidById :: string
  je_paidFor :: "paid_for list"
  je_isReimbursement :: bool
  je_splitMode :: string
  je_recurrenceRule :: "string option"

record JSONImportData =
  j_id :: string
  j_name :: string
  j_currency :: string
  j_currencyCode :: "string option"
  j_expenses :: "json_expense list"
  j_participants :: "participant_ref list"

record backup_group =
  bg_id :: string
  bg_name :: string
  bg_information :: "string option"
  bg_currency :: string
  bg_currencyCode :: "string option"
  bg_createdAt :: string

record backup_category =
  bc_id :: int
  bc_name :: string
  bc_grouping :: string

record backup_document =
  bd_id :: string
  bd_url :: string
  bd_width :: int
  bd_height :: int

record backup_link =
  bl_id :: string
  bl_nextExpenseCreatedAt :: "string option"
  bl_nextExpenseDate :: string

record backup_expense =
  be_id :: string
  be_expenseDate :: string
  be_createdAt :: string
  be_title :: string
  be_category :: "backup_category option"
  be_amount :: int
  be_originalAmount :: "int option"
  be_originalCurrency :: "string option"
  be_conversionRate :: "string option"
  be_paidById :: string
  be_paidFor :: "paid_for list"
  be_isReimbursement :: bool
  be_splitMode :: string
  be_notes :: "string option"
  be_documents :: "backup_document list"
  be_recurrenceRule :: "string option"
  be_recurringExpenseLink :: "backup_link option"

record backup_activity =
  ba_id :: string
  ba_time :: string
  ba_activityType :: string
  ba_participantId :: "string option"
  ba_expenseId :: "string option"
  ba_data :: "string option"

record BackupData =
  b_version :: string
  b_exportedAt :: string
  b_group :: backup_group
  b_participants :: "participant_ref list"
  b_expenses :: "backup_expense list"
  b_activities :: "backup_activity list"

section \<open>Version Comparator\<close>

text \<open>
  The live group as each function's parameter type declares it. An object with the single
  field \<open>id\<close> or \<open>time\<close> is that field's value. \<open>existingGroupUpdatedAt\<close> is optional in
  the result: \<open>None\<close> when the field is not set.
\<close>

record existing_expense =
  ee_id :: string
  ee_createdAt :: int
  ee_expenseDate :: int

record ExistingGroup =
  eg_participants :: "string list"
  eg_expenses :: "existing_expense list"
  eg_activities :: "int list"

record VersionComparison =
  vc_result :: VersionComparisonResult
  vc_existingGroupUpdatedAt :: "int option"
  vc_jsonExportedAt :: jsdate

text \<open>
  \<open>xs.length > 0 ? new Date(Math.max(...xs.map(f))) : fallback\<close>, the form of every latest
  timestamp of the two comparators: the list is spread into the arguments of \<open>Math.max\<close>,
  which raises on a list longer than the engine passes. \<open>latestExpenseDate\<close> is computed
  first, before the live group is looked at.
\<close>

definition latestExpenseDate :: "env \<Rightarrow> JSONImportData \<Rightarrow> error + jsdate" where
  "latestExpenseDate env jsonData =
     (if length (j_expenses jsonData) > 0 then
        bindE (spread env (map (\<lambda>e. newDate env (je_expenseDate e)) (j_expenses jsonData)))
          (\<lambda>args. Inr (js_math_max (hd args) (tl args)))
      else Inr (Some 0))"

definition latestOf :: "env \<Rightarrow> int list \<Rightarrow> error + int option" where
  "latestOf env ts =
     (if length ts > 0 then
        bindE (spread env ts) (\<lambda>args. Inr (Some (math_max (hd args) (tl args))))
      else Inr None)"

definition jsonExistingGroupUpdatedAt :: "env \<Rightarrow> ExistingGroup \<Rightarrow> error + int" where
  "jsonExistingGroupUpdatedAt env existingGroup =
     bindE (latestOf env (map ee_expenseDate (eg_expenses existingGroup))) (\<lambda>latestExpense.
     bindE (latestOf env (eg_activities existingGroup)) (\<lambda>latestActivity.
     Inr (case latestExpense of
            Some le \<Rightarrow> (case latestActivity of Some la \<Rightarrow> max le la | None \<Rightarrow> le)
          | None \<Rightarrow> (case latestActivity of Some la \<Rightarrow> la | None \<Rightarrow> 0))))"

definition compareJSONVersions ::
  "env \<Rightarrow> JSONImportData \<Rightarrow> ExistingGroup option \<Rightarrow> error + VersionComparison" where
  "compareJSONVersions env jsonData existingGroup =
     bindE (latestExpenseDate env jsonData) (\<lambda>latest.
       case existingGroup of
         None \<Rightarrow>
           Inr \<lparr>vc_result = NOT_FOUND, vc_existingGroupUpdatedAt = None, vc_jsonExportedAt = latest\<rparr>
       | Some g \<Rightarrow>
           bindE (jsonExistingGroupUpdatedAt env g) (\<lambda>existingGroupUpdatedAt.
             Inr (if js_gt latest existingGroupUpdatedAt then
                    \<lparr>vc_result = NEWER, vc_existingGroupUpdatedAt = Some existingGroupUpdatedAt,
                     vc_jsonExportedAt = latest\<rparr>
                  else if js_lt latest existingGroupUpdatedAt then
                    \<lparr>vc_result = OLDER, vc_existingGroupUpdatedAt = Some existingGroupUpdatedAt,
                     vc_jsonExportedAt = latest\<rparr>
                  else
                    \<lparr>vc_result = SAME, vc_existingGroupUpdatedAt = Some existingGroupUpdatedAt,
                     vc_jsonExportedAt = latest\<rparr>)))"

record compare_group =
  cg_createdAt :: int
  cg_expenses :: "int list"
  cg_activities :: "int list"

record GroupComparison =
  gc_result :: VersionComparisonResult
  gc_existingGroupUpdatedAt :: "int option"
  gc_backupExportedAt :: jsdate

definition backupExistingGroupUpdatedAt :: "env \<Rightarrow> compare_group \<Rightarrow> error + int" where
  "backupExistingGroupUpdatedAt env existingGroup =
     bindE (latestOf env (cg_expenses existingGroup)) (\<lambda>latestExpense.
     bindE (latestOf env (cg_activities existingGroup)) (\<lambda>latestActivity.
     (let latestExpenseTime =
            (case latestExpense of Some t \<Rightarrow> t | None \<Rightarrow> cg_createdAt existingGroup);
          latestActivityTime =
            (case latestActivity of Some t \<Rightarrow> t | None \<Rightarrow> cg_createdAt existingGroup)
      in Inr (max latestExpenseTime latestActivityTime))))"

definition compareVersions ::
  "env \<Rightarrow> BackupData \<Rightarrow> compare_group option \<Rightarrow> error + GroupComparison" where
  "compareVersions env backupData existingGroup =
     (let backupExportedAt = newDate env (b_exportedAt backupData)
      in case existingGroup of
           None \<Rightarrow> Inr \<lparr>gc_result = NOT_FOUND, gc_existingGroupUpdatedAt = None,
                        gc_backupExportedAt = backupExportedAt\<rparr>
         | Some g \<Rightarrow>
             bindE (backupExistingGroupUpdatedAt env g) (\<lambda>existingGroupUpdatedAt.
               Inr (if js_gt backupExportedAt existingGroupUpdatedAt then
                      \<lparr>gc_result = NEWER, gc_existingGroupUpdatedAt = Some existingGroupUpdatedAt,
                       gc_backupExportedAt = backupExportedAt\<rparr>
                    else if js_lt backupExportedAt existingGroupUpdatedAt then
                      \<lparr>gc_result = OLDER, gc_existingGroupUpdatedAt = Some existingGroupUpdatedAt,
                       gc_backupExportedAt = backupExportedAt\<rparr>
                    else
                      \<lparr>gc_result = SAME, gc_existingGroupUpdatedAt = Some existingGroupUpdatedAt,
                       gc_backupExportedAt = backupExportedAt\<rparr>)))"

section \<open>Difference Calculator\<close>

record JSONGroupComparison =
  addedExpenses :: nat
  removedExpenses :: nat
  modifiedExpenses :: nat
  addedParticipants :: nat
  removedParticipants :: nat

text \<open>
  \<open>calculateJSONDifferences\<close>. The sets \<open>existingExpenseIds\<close> and \<open>existingParticipantIds\<close> are
  built first; the first is never read. \<open>jsonExpenseDates\<close> maps \<open>toISOString\<close> over every
  expense of the snapshot, so one Invalid Date raises before anything is counted; the filter
  for \<open>addedExpenses\<close> computes the same day strings again, in the same order.
\<close>

definition calculateJSONDifferences ::
  "env \<Rightarrow> JSONImportData \<Rightarrow> ExistingGroup \<Rightarrow> error + JSONGroupComparison" where
  "calculateJSONDifferences env jsonData existingGroup =
     (let existingParticipantIds = set (eg_participants existingGroup);
          existingExpenseDates = set (map (\<lambda>e. isoDay (ee_expenseDate e)) (eg_expenses existingGroup))
      in bindE (mapE (\<lambda>e. toISODay (newDate env (je_expenseDate e))) (j_expenses jsonData)) (\<lambda>jsonDays.
           let jsonExpenseDates = set jsonDays
           in Inr \<lparr>addedExpenses = length (filter (\<lambda>d. d \<notin> existingExpenseDates) jsonDays),
                   removedExpenses =
                     length (filter (\<lambda>e. isoDay (ee_expenseDate e) \<notin> jsonExpenseDates)
                       (eg_expenses existingGroup)),
                   modifiedExpenses = 0,
                   addedParticipants =
                     length (filter (\<lambda>p. pr_id p \<notin> existingParticipantIds) (j_participants jsonData)),
                   removedParticipants =
                     length (filter (\<lambda>p. \<not> list_ex (\<lambda>jp. pr_id jp = p) (j_participants jsonData))
                       (eg_participants existingGroup))\<rparr>))"

record diff_group =
  dg_participants :: "string list"
  dg_expenses :: "string list"

definition calculateDifferences :: "BackupData \<Rightarrow> diff_group \<Rightarrow> JSONGroupComparison" where
  "calculateDifferences backupData existingGroup =
     (let backupExpenseIds = set (map be_id (b_expenses backupData));
          existingExpenseIds = set (dg_expenses existingGroup);
          backupParticipantIds = set (map pr_id (b_participants backupData));
          existingParticipantIds = set (dg_participants existingGroup)
      in \<lparr>addedExpenses = length (filter (\<lambda>e. be_id e \<notin> existingExpenseIds) (b_expenses backupData)),
          removedExpenses = length (filter (\<lambda>e. e \<notin> backupExpenseIds) (dg_expenses existingGroup)),
          modifiedExpenses = 0,
          addedParticipants =
            length (filter (\<lambda>p. pr_id p \<notin> existingParticipantIds) (b_participants backupData)),
          removedParticipants =
            length (filter (\<lambda>p. p \<notin> backupParticipantIds) (dg_participants existingGroup))\<rparr>)"

text \<open>
  The live view of a dataset held as a backup: its participant and expense identifiers, in
  order. It lets a dataset stand on the live side of \<open>calculateDifferences\<close>.
\<close>

definition asLiveGroup :: "BackupData \<Rightarrow> diff_group" where
  "asLiveGroup d = \<lparr>dg_participants = map pr_id (b_participants d), dg_expenses = map be_id (b_expenses d)\<rparr>"


section \<open>The store\<close>

text \<open>
  The tables the code reads and writes through the Prisma client, a row as a record, a
  table as the list of its rows in insertion order. Enum columns hold the enum; the activity
  type is kept as the string the code passes.
\<close>

record group_row =
  g_id :: string
  g_name :: string
  g_information :: "string option"
  g_currency :: string
  g_currencyCode :: "string option"
  g_createdAt :: int

record participant_row =
  p_id :: string
  p_groupId :: string
  p_name :: string

record expense_row =
  e_id :: string
  e_groupId :: string
  e_expenseDate :: int
  e_createdAt :: int
  e_title :: string
  e_categoryId :: int
  e_amount :: int
  e_originalAmount :: "int option"
  e_originalCurrency :: "string option"
  e_conversionRate :: "decimal option"
  e_paidById :: string
  e_isReimbursement :: bool
  e_splitMode :: SplitMode
  e_notes :: "string option"
  e_recurrenceRule :: "RecurrenceRule option"

record paidfor_row =
  x_expenseId :: string
  x_participantId :: string
  x_shares :: int

record category_row =
  c_id :: int
  c_grouping :: string
  c_name :: string

record activity_row =
  a_id :: string
  a_groupId :: string
  a_time :: int
  a_activityType :: string
  a_participantId :: "string option"
  a_expenseId :: "string option"
  a_data :: "string option"

record document_row =
  d_id :: string
  d_url :: string
  d_width :: int
  d_height :: int
  d_expenseId :: string

record link_row =
  l_id :: string
  l_groupId :: string
  l_currentFrameExpenseId :: string
  l_nextExpenseCreatedAt :: "int option"
  l_nextExpenseDate :: int

record store =
  groups :: "group_row list"
  participants :: "participant_row list"
  expenses :: "expense_row list"
  paidFors :: "paidfor_row list"
  categories :: "category_row list"
  activities :: "activity_row list"
  documents :: "document_row list"
  links :: "link_row list"

subsection \<open>Prisma operations\<close>

text \<open>
  Modelled from the spec: the Prisma client and its schema, which are not in the sources.
  An entity has an identity, so \<open>create\<close> refuses an identifier its table already holds (the
  code's own \<open>upsert\<close> for documents is there for that); an \<open>ExpensePaidFor\<close> row is identified
  by its expense and participant; a category identifier is generated; \<open>update\<close> of a row that
  is not there fails; an argument that is an Invalid Date or no member of its enum is refused
  before anything is written.
\<close>

definition hasGroup :: "store \<Rightarrow> string \<Rightarrow> bool" where
  "hasGroup s gid = (gid \<in> set (map g_id (groups s)))"

definition hasParticipant :: "store \<Rightarrow> string \<Rightarrow> bool" where
  "hasParticipant s pid = (pid \<in> set (map p_id (participants s)))"

definition hasExpense :: "store \<Rightarrow> string \<Rightarrow> bool" where
  "hasExpense s eid = (eid \<in> set (map e_id (expenses s)))"

definition hasCategory :: "store \<Rightarrow> int \<Rightarrow> bool" where
  "hasCategory s cid = (cid \<in> set (map c_id (categories s)))"

definition refused :: "env \<Rightarrow> bool \<Rightarrow> bool" where
  "refused env present = (enforceFK env \<and> \<not> present)"

definition dateArg :: "string \<Rightarrow> jsdate \<Rightarrow> error + int" where
  "dateArg model d =
     (case d of None \<Rightarrow> Inl (PrismaError (ValidationError model)) | Some t \<Rightarrow> Inr t)"

definition splitModeArg :: "string \<Rightarrow> error + SplitMode" where
  "splitModeArg v =
     (if v = ''EVENLY'' then Inr EVENLY
      else if v = ''BY_SHARES'' then Inr BY_SHARES
      else if v = ''BY_PERCENTAGE'' then Inr BY_PERCENTAGE
      else if v = ''BY_AMOUNT'' then Inr BY_AMOUNT
      else Inl (PrismaError (ValidationError ''Expense'')))"

definition recurrenceRuleArg :: "string option \<Rightarrow> error + RecurrenceRule option" where
  "recurrenceRuleArg v =
     (case v of
        None \<Rightarrow> Inr None
      | Some r \<Rightarrow>
          (if r = ''NONE'' then Inr (Some NONE)
           else if r = ''DAILY'' then Inr (Some DAILY)
           else if r = ''WEEKLY'' then Inr (Some WEEKLY)
           else if r = ''MONTHLY'' then Inr (Some MONTHLY)
           else Inl (PrismaError (ValidationError ''Expense''))))"

definition participant_create :: "env \<Rightarrow> participant_row \<Rightarrow> store \<Rightarrow> error + store" where
  "participant_create env row s =
     (if hasParticipant s (p_id row) then Inl (PrismaError (UniqueConstraint ''Participant''))
      else if refused env (hasGroup s (p_groupId row)) then
        Inl (PrismaError (ForeignKeyConstraint ''Participant.groupId''))
      else Inr (s\<lparr>participants := participants s @ [row]\<rparr>))"

text \<open>A \<open>for\<close> loop over a list whose body may raise: the first error ends it.\<close>

fun forE :: "('a \<Rightarrow> 's \<Rightarrow> error + 's) \<Rightarrow> 'a list \<Rightarrow> 's \<Rightarrow> error + 's" where
  "forE body [] s = Inr s"
| "forE body (x # xs) s = bindE (body x s) (forE body xs)"

definition group_create :: "env \<Rightarrow> group_row \<Rightarrow> participant_ref list \<Rightarrow> store \<Rightarrow> error + store" where
  "group_create env row nested s =
     (if hasGroup s (g_id row) then Inl (PrismaError (UniqueConstraint ''Group''))
      else forE (\<lambda>p. participant_create env
                   \<lparr>p_id = pr_id p, p_groupId = g_id row, p_name = pr_name p\<rparr>)
             nested (s\<lparr>groups := groups s @ [row]\<rparr>))"

definition group_update ::
  "string \<Rightarrow> (group_row \<Rightarrow> group_row) \<Rightarrow> store \<Rightarrow> error + store" where
  "group_update gid change s =
     (if hasGroup s gid then
        Inr (s\<lparr>groups := map (\<lambda>g. if g_id g = gid then change g else g) (groups s)\<rparr>)
      else Inl (PrismaError (RecordNotFound ''Group'')))"

definition paidFor_create :: "env \<Rightarrow> paidfor_row \<Rightarrow> store \<Rightarrow> error + store" where
  "paidFor_create env row s =
     (if (x_expenseId row, x_participantId row)
           \<in> set (map (\<lambda>r. (x_expenseId r, x_participantId r)) (paidFors s)) then
        Inl (PrismaError (UniqueConstraint ''ExpensePaidFor''))
      else if refused env (hasExpense s (x_expenseId row)) then
        Inl (PrismaError (ForeignKeyConstraint ''ExpensePaidFor.expenseId''))
      else if refused env (hasParticipant s (x_participantId row)) then
        Inl (PrismaError (ForeignKeyConstraint ''ExpensePaidFor.participantId''))
      else Inr (s\<lparr>paidFors := paidFors s @ [row]\<rparr>))"

definition expense_create :: "env \<Rightarrow> expense_row \<Rightarrow> paid_for list \<Rightarrow> store \<Rightarrow> error + store" where
  "expense_create env row nested s =
     (if hasExpense s (e_id row) then Inl (PrismaError (UniqueConstraint ''Expense''))
      else if refused env (hasGroup s (e_groupId row)) then
        Inl (PrismaError (ForeignKeyConstraint ''Expense.groupId''))
      else if refused env (hasParticipant s (e_paidById row)) then
        Inl (PrismaError (ForeignKeyConstraint ''Expense.paidById''))
      else if refused env (hasCategory s (e_categoryId row)) then
        Inl (PrismaError (ForeignKeyConstraint ''Expense.categoryId''))
      else forE (\<lambda>pf. paidFor_create env
                   \<lparr>x_expenseId = e_id row, x_participantId = pf_participantId pf,
                    x_shares = pf_shares pf\<rparr>)
             nested (s\<lparr>expenses := expenses s @ [row]\<rparr>))"

definition activity_create :: "env \<Rightarrow> activity_row \<Rightarrow> store \<Rightarrow> error + store" where
  "activity_create env row s =
     (if a_id row \<in> set (map a_id (activities s)) then
        Inl (PrismaError (UniqueConstraint ''Activity''))
      else if refused env (hasGroup s (a_groupId row)) then
        Inl (PrismaError (ForeignKeyConstraint ''Activity.groupId''))
      else Inr (s\<lparr>activities := activities s @ [row]\<rparr>))"

definition category_findFirst :: "string \<Rightarrow> string \<Rightarrow> store \<Rightarrow> category_row option" where
  "category_findFirst grouping name s =
     find (\<lambda>c. c_grouping c = grouping \<and> c_name c = name) (categories s)"

definition category_create :: "string \<Rightarrow> string \<Rightarrow> store \<Rightarrow> category_row \<times> store" where
  "category_create grouping name s =
     (let row = \<lparr>c_id = (case map c_id (categories s) of [] \<Rightarrow> 1 | i # is \<Rightarrow> math_max i is + 1),
                 c_grouping = grouping, c_name = name\<rparr>
      in (row, s\<lparr>categories := categories s @ [row]\<rparr>))"

definition document_upsert :: "env \<Rightarrow> document_row \<Rightarrow> store \<Rightarrow> error + store" where
  "document_upsert env row s =
     (if refused env (hasExpense s (d_expenseId row)) then
        Inl (PrismaError (ForeignKeyConstraint ''ExpenseDocument.expenseId''))
      else if d_id row \<in> set (map d_id (documents s)) then
        Inr (s\<lparr>documents := map (\<lambda>d. if d_id d = d_id row then row else d) (documents s)\<rparr>)
      else Inr (s\<lparr>documents := documents s @ [row]\<rparr>))"

definition link_create :: "env \<Rightarrow> link_row \<Rightarrow> store \<Rightarrow> error + store" where
  "link_create env row s =
     (if l_id row \<in> set (map l_id (links s)) then
        Inl (PrismaError (UniqueConstraint ''RecurringExpenseLink''))
      else if refused env (hasGroup s (l_groupId row)) then
        Inl (PrismaError (ForeignKeyConstraint ''RecurringExpenseLink.groupId''))
      else if refused env (hasExpense s (l_currentFrameExpenseId row)) then
        Inl (PrismaError (ForeignKeyConstraint ''RecurringExpenseLink.currentFrameExpenseId''))
      else Inr (s\<lparr>links := links s @ [row]\<rparr>))"

definition paidFor_deleteMany :: "(paidfor_row \<Rightarrow> bool) \<Rightarrow> store \<Rightarrow> store" where
  "paidFor_deleteMany which s = s\<lparr>paidFors := filter (\<lambda>r. \<not> which r) (paidFors s)\<rparr>"

definition activity_deleteMany :: "(activity_row \<Rightarrow> bool) \<Rightarrow> store \<Rightarrow> store" where
  "activity_deleteMany which s = s\<lparr>activities := filter (\<lambda>r. \<not> which r) (activities s)\<rparr>"

definition expense_deleteMany :: "env \<Rightarrow> (expense_row \<Rightarrow> bool) \<Rightarrow> store \<Rightarrow> store" where
  "expense_deleteMany env which s =
     (let gone = map e_id (filter which (expenses s));
          s1 = s\<lparr>expenses := filter (\<lambda>r. \<not> which r) (expenses s)\<rparr>
      in if enforceFK env then
           s1\<lparr>paidFors := filter (\<lambda>r. x_expenseId r \<notin> set gone) (paidFors s1),
              documents := filter (\<lambda>r. d_expenseId r \<notin> set gone) (documents s1),
              links := filter (\<lambda>r. l_currentFrameExpenseId r \<notin> set gone) (links s1)\<rparr>
         else s1)"

definition participant_deleteMany :: "env \<Rightarrow> (participant_row \<Rightarrow> bool) \<Rightarrow> store \<Rightarrow> store" where
  "participant_deleteMany env which s =
     (let gone = map p_id (filter which (participants s));
          s1 = s\<lparr>participants := filter (\<lambda>r. \<not> which r) (participants s)\<rparr>
      in if enforceFK env then
           (let s2 = expense_deleteMany env (\<lambda>e. e_paidById e \<in> set gone) s1
            in s2\<lparr>paidFors := filter (\<lambda>r. x_participantId r \<notin> set gone) (paidFors s2)\<rparr>)
         else s1)"

text \<open>
  \<open>prisma.$transaction\<close>: the callback's writes are kept when it returns and undone when it
  raises; the error reaches the caller.
\<close>

definition transaction ::
  "(store \<Rightarrow> error + 'r \<times> store) \<Rightarrow> store \<Rightarrow> (error + 'r) \<times> store" where
  "transaction callback s =
     (case callback s of Inl e \<Rightarrow> (Inl e, s) | Inr (r, s') \<Rightarrow> (Inr r, s'))"


section \<open>Restore Engine, lightweight format\<close>

text \<open>
  The transaction client a restore works on: the store, and the number of \<open>randomUUID()\<close>
  calls so far.
\<close>

record world =
  db :: store
  uuidCalls :: nat

text \<open>The decimal digits of a template literal's number, and the mode as the literal prints it.\<close>

fun show_nat :: "nat \<Rightarrow> string" where
  "show_nat n =
     (if n < 10 then [''0123456789'' ! n]
      else show_nat (n div 10) @ [''0123456789'' ! (n mod 10)])"

declare show_nat.simps [simp del]

definition modeString :: "mode \<Rightarrow> string" where
  "modeString m = (case m of Create \<Rightarrow> ''create'' | Update \<Rightarrow> ''update'' | Rollback \<Rightarrow> ''rollback'')"

definition importMarkerPrefix :: string where
  "importMarkerPrefix = ''JSON_IMPORT_START:''"

definition importMarker :: "env \<Rightarrow> JSONImportData \<Rightarrow> mode \<Rightarrow> nat \<Rightarrow> activity_row" where
  "importMarker env jsonData m k =
     \<lparr>a_id = randomUUID env k, a_groupId = j_id jsonData, a_time = importTime env,
      a_activityType = ''UPDATE_GROUP'', a_participantId = None, a_expenseId = None,
      a_data = Some (importMarkerPrefix @ modeString m @ '':''
                     @ show_nat (length (j_expenses jsonData)) @ '' expenses'')\<rparr>"

definition expenseActivityData :: "env \<Rightarrow> string \<Rightarrow> string" where
  \<open>expenseActivityData env title =
     ''{"title":'' @ jsonStringify env title @ '',"importDate":''
       @ jsonStringify env (toISOString env (importTime env)) @ ''}''\<close>

text \<open>
  The body of the three expense loops of \<open>restoreGroupFromJSON\<close>, which the source writes
  out once per mode: the check of the payer and of every \<open>paidFor\<close> participant against the
  known identifiers, the category looked up by grouping and name and created when missing,
  the expense under a fresh identifier, and its activity. The longer messages of the create
  mode name the same identifier and title as the others.
\<close>

definition validateExpense :: "string list \<Rightarrow> json_expense \<Rightarrow> error + unit" where
  "validateExpense participantIds expense =
     (if je_paidById expense \<notin> set participantIds then
        Inl (InvalidPaidById (je_paidById expense) (je_title expense))
      else case find (\<lambda>pf. pf_participantId pf \<notin> set participantIds) (je_paidFor expense) of
             Some pf \<Rightarrow> Inl (InvalidParticipantId (pf_participantId pf) (je_title expense))
           | None \<Rightarrow> Inr ())"

definition resolveCategory :: "json_category option \<Rightarrow> store \<Rightarrow> int option \<times> store" where
  "resolveCategory category s =
     (case category of
        None \<Rightarrow> (None, s)
      | Some c \<Rightarrow>
          (case category_findFirst (jc_grouping c) (jc_name c) s of
             Some row \<Rightarrow> (Some (c_id row), s)
           | None \<Rightarrow>
               (case category_create (jc_grouping c) (jc_name c) s of
                  (row, s') \<Rightarrow> (Some (c_id row), s'))))"

definition jsonExpenseRow ::
  "env \<Rightarrow> string \<Rightarrow> string \<Rightarrow> int option \<Rightarrow> int \<Rightarrow> json_expense \<Rightarrow> expense_row" where
  "jsonExpenseRow env groupId expenseId categoryId expenseDate expense =
     \<lparr>e_id = expenseId, e_groupId = groupId, e_expenseDate = expenseDate,
      e_createdAt = dbNow env, e_title = je_title expense,
      e_categoryId = (case categoryId of None \<Rightarrow> 0 | Some c \<Rightarrow> c),
      e_amount = je_amount expense,
      e_originalAmount = je_originalAmount expense,
      e_originalCurrency = je_originalCurrency expense,
      e_conversionRate =
        (case je_conversionRate expense of
           None \<Rightarrow> None
         | Some r \<Rightarrow> if r = [] then None else Some (parseFloat env r)),
      e_paidById = je_paidById expense,
      e_isReimbursement = je_isReimbursement expense,
      e_splitMode = mapSplitMode (je_splitMode expense),
      e_notes = None,
      e_recurrenceRule = Some (mapRecurrenceRule (je_recurrenceRule expense))\<rparr>"

definition jsonExpenseActivity ::
  "env \<Rightarrow> string \<Rightarrow> string \<Rightarrow> string \<Rightarrow> json_expense \<Rightarrow> activity_row" where
  "jsonExpenseActivity env groupId activityId expenseId expense =
     \<lparr>a_id = activityId, a_groupId = groupId, a_time = importTime env,
      a_activityType = ''CREATE_EXPENSE'', a_participantId = None,
      a_expenseId = Some expenseId,
      a_data = Some (expenseActivityData env (je_title expense))\<rparr>"

definition importExpense ::
  "env \<Rightarrow> string \<Rightarrow> string list \<Rightarrow> json_expense \<Rightarrow> world \<Rightarrow> error + world" where
  "importExpense env groupId participantIds expense w =
     bindE (validateExpense participantIds expense) (\<lambda>_.
       case resolveCategory (je_category expense) (db w) of
         (categoryId, s1) \<Rightarrow>
           (let expenseId = randomUUID env (uuidCalls w)
            in bindE (dateArg ''Expense'' (newDate env (je_expenseDate expense))) (\<lambda>expenseDate.
               bindE (expense_create env
                        (jsonExpenseRow env groupId expenseId categoryId expenseDate expense)
                        (je_paidFor expense) s1) (\<lambda>s2.
               bindE (activity_create env
                        (jsonExpenseActivity env groupId (randomUUID env (uuidCalls w + 1))
                           expenseId expense) s2) (\<lambda>s3.
               Inr \<lparr>db = s3, uuidCalls = uuidCalls w + 2\<rparr>)))))"

definition setGroupMetadata :: "JSONImportData \<Rightarrow> group_row \<Rightarrow> group_row" where
  "setGroupMetadata jsonData g =
     g\<lparr>g_name := j_name jsonData, g_currency := j_currency jsonData,
       g_currencyCode := j_currencyCode jsonData\<rparr>"

text \<open>
  The pseudo-identifier of the update mode is the string \<open>`${date.toISOString()}:${title}`\<close>.
  The ISO string of a date has a length its first character fixes, so two such strings are
  equal exactly when the time values and the titles are: the key is kept as that pair.
  The snapshot's side raises on an Invalid Date.
\<close>

definition expenseKey :: "env \<Rightarrow> json_expense \<Rightarrow> error + int \<times> string" where
  "expenseKey env expense =
     (case newDate env (je_expenseDate expense) of
        None \<Rightarrow> Inl RangeError
      | Some t \<Rightarrow> Inr (t, je_title expense))"

definition addNewParticipant ::
  "env \<Rightarrow> string \<Rightarrow> participant_ref \<Rightarrow> string list \<times> store \<Rightarrow> error + string list \<times> store" where
  "addNewParticipant env groupId participant st =
     (case st of
        (existingParticipantIds, s) \<Rightarrow>
          if pr_id participant \<notin> set existingParticipantIds then
            bindE (participant_create env
                     \<lparr>p_id = pr_id participant, p_groupId = groupId, p_name = pr_name participant\<rparr> s)
              (\<lambda>s'. Inr (existingParticipantIds @ [pr_id participant], s'))
          else Inr st)"

definition recreateParticipant ::
  "env \<Rightarrow> string \<Rightarrow> participant_ref \<Rightarrow> string list \<times> store \<Rightarrow> error + string list \<times> store" where
  "recreateParticipant env groupId participant st =
     (case st of
        (participantIds, s) \<Rightarrow>
          bindE (participant_create env
                   \<lparr>p_id = pr_id participant, p_groupId = groupId, p_name = pr_name participant\<rparr> s)
            (\<lambda>s'. Inr (participantIds @ [pr_id participant], s')))"

definition addNewExpense ::
  "env \<Rightarrow> string \<Rightarrow> string list \<Rightarrow> (int \<times> string) list \<Rightarrow> json_expense \<Rightarrow> world \<Rightarrow> error + world" where
  "addNewExpense env groupId existingParticipantIds existingExpenseKeys expense w =
     bindE (expenseKey env expense) (\<lambda>key.
       if key \<notin> set existingExpenseKeys then
         importExpense env groupId existingParticipantIds expense w
       else Inr w)"

definition restoreGroupFromJSON ::
  "env \<Rightarrow> JSONImportData \<Rightarrow> mode \<Rightarrow> world \<Rightarrow> error + world" where
  "restoreGroupFromJSON env jsonData m w =
     (case m of
        Create \<Rightarrow>
          bindE (group_create env
                   \<lparr>g_id = j_id jsonData, g_name = j_name jsonData, g_information = None,
                    g_currency = j_currency jsonData, g_currencyCode = j_currencyCode jsonData,
                    g_createdAt = dbNow env\<rparr>
                   (j_participants jsonData) (db w)) (\<lambda>s1.
          bindE (activity_create env (importMarker env jsonData m (uuidCalls w)) s1) (\<lambda>s2.
          let participantIds = map pr_id (j_participants jsonData)
          in forE (importExpense env (j_id jsonData) participantIds) (j_expenses jsonData)
               \<lparr>db = s2, uuidCalls = uuidCalls w + 1\<rparr>))
      | Update \<Rightarrow>
          if \<not> hasGroup (db w) (j_id jsonData) then Inl GroupNotFound
          else
            (let existingParticipants =
                   filter (\<lambda>p. p_groupId p = j_id jsonData) (participants (db w));
                 existingExpenses =
                   filter (\<lambda>e. e_groupId e = j_id jsonData) (expenses (db w))
             in bindE (activity_create env (importMarker env jsonData m (uuidCalls w)) (db w)) (\<lambda>s1.
                bindE (group_update (j_id jsonData) (setGroupMetadata jsonData) s1) (\<lambda>s2.
                bindE (forE (addNewParticipant env (j_id jsonData)) (j_participants jsonData)
                         (map p_id existingParticipants, s2)) (\<lambda>(existingParticipantIds, s3).
                let existingExpenseKeys = map (\<lambda>e. (e_expenseDate e, e_title e)) existingExpenses
                in forE (addNewExpense env (j_id jsonData) existingParticipantIds existingExpenseKeys)
                     (j_expenses jsonData) \<lparr>db = s3, uuidCalls = uuidCalls w + 1\<rparr>))))
      | Rollback \<Rightarrow>
          (let s1 = paidFor_deleteMany
                      (\<lambda>r. list_ex (\<lambda>e. e_id e = x_expenseId r \<and> e_groupId e = j_id jsonData)
                              (expenses (db w))) (db w);
               s2 = expense_deleteMany env (\<lambda>e. e_groupId e = j_id jsonData) s1;
               s3 = participant_deleteMany env (\<lambda>p. p_groupId p = j_id jsonData) s2;
               s4 = activity_deleteMany (\<lambda>a. a_groupId a = j_id jsonData) s3
           in bindE (group_update (j_id jsonData) (setGroupMetadata jsonData) s4) (\<lambda>s5.
              bindE (activity_create env (importMarker env jsonData m (uuidCalls w)) s5) (\<lambda>s6.
              bindE (forE (recreateParticipant env (j_id jsonData)) (j_participants jsonData)
                       ([], s6)) (\<lambda>(participantIds, s7).
              forE (importExpense env (j_id jsonData) participantIds) (j_expenses jsonData)
                \<lparr>db = s7, uuidCalls = uuidCalls w + 1\<rparr>)))))"


section \<open>Restore Engine, full-backup format\<close>

text \<open>
  \<open>restoreGroupFromBackup\<close> works on the store and collects its warnings. Its arguments
  are evaluated before the Prisma call: \<open>new Prisma.Decimal\<close> raises there, and Prisma then
  refuses an Invalid Date and a string that is no member of the enum.
\<close>

record backup_tx =
  bdb :: store
  warnings :: "string list"

definition decimalArg :: "env \<Rightarrow> string option \<Rightarrow> error + decimal option" where
  "decimalArg env v =
     (case v of
        None \<Rightarrow> Inr None
      | Some r \<Rightarrow>
          if r = [] then Inr None
          else (case prismaDecimal env r of None \<Rightarrow> Inl DecimalError | Some d \<Rightarrow> Inr (Some d)))"

definition onStore :: "(store \<Rightarrow> error + store) \<Rightarrow> backup_tx \<Rightarrow> error + backup_tx" where
  "onStore operation st = bindE (operation (bdb st)) (\<lambda>s. Inr (st\<lparr>bdb := s\<rparr>))"

definition backupExpenseRow ::
  "string \<Rightarrow> backup_expense \<Rightarrow> decimal option \<Rightarrow> int \<Rightarrow> int \<Rightarrow> SplitMode
   \<Rightarrow> RecurrenceRule option \<Rightarrow> expense_row" where
  "backupExpenseRow groupId expense conversionRate expenseDate createdAt splitMode recurrenceRule =
     \<lparr>e_id = be_id expense, e_groupId = groupId, e_expenseDate = expenseDate,
      e_createdAt = createdAt, e_title = be_title expense,
      e_categoryId = (case be_category expense of None \<Rightarrow> 0 | Some c \<Rightarrow> bc_id c),
      e_amount = be_amount expense, e_originalAmount = be_originalAmount expense,
      e_originalCurrency = be_originalCurrency expense, e_conversionRate = conversionRate,
      e_paidById = be_paidById expense, e_isReimbursement = be_isReimbursement expense,
      e_splitMode = splitMode, e_notes = be_notes expense,
      e_recurrenceRule = recurrenceRule\<rparr>"

definition backupExpenseCreate :: "env \<Rightarrow> string \<Rightarrow> backup_expense \<Rightarrow> store \<Rightarrow> error + store" where
  "backupExpenseCreate env groupId expense s =
     bindE (decimalArg env (be_conversionRate expense)) (\<lambda>conversionRate.
     bindE (dateArg ''Expense'' (newDate env (be_expenseDate expense))) (\<lambda>expenseDate.
     bindE (dateArg ''Expense'' (newDate env (be_createdAt expense))) (\<lambda>createdAt.
     bindE (splitModeArg (be_splitMode expense)) (\<lambda>splitMode.
     bindE (recurrenceRuleArg (be_recurrenceRule expense)) (\<lambda>recurrenceRule.
     expense_create env
       (backupExpenseRow groupId expense conversionRate expenseDate createdAt splitMode
          recurrenceRule) [] s)))))"

definition backupPaidFor :: "env \<Rightarrow> backup_expense \<Rightarrow> paid_for \<Rightarrow> store \<Rightarrow> error + store" where
  "backupPaidFor env expense paidFor s =
     paidFor_create env
       \<lparr>x_expenseId = be_id expense, x_participantId = pf_participantId paidFor,
        x_shares = pf_shares paidFor\<rparr> s"

definition backupDocument ::
  "env \<Rightarrow> backup_expense \<Rightarrow> backup_document \<Rightarrow> backup_tx \<Rightarrow> error + backup_tx" where
  \<open>backupDocument env expense doc st =
     (if checkUrlExists env (bd_url doc) then
        onStore (document_upsert env
                   \<lparr>d_id = bd_id doc, d_url = bd_url doc, d_width = bd_width doc,
                    d_height = bd_height doc, d_expenseId = be_id expense\<rparr>) st
      else Inr (st\<lparr>warnings := warnings st
                  @ [''Document not found for expense "'' @ be_title expense @ ''": '' @ bd_url doc]\<rparr>))\<close>

definition backupLink :: "env \<Rightarrow> string \<Rightarrow> backup_expense \<Rightarrow> store \<Rightarrow> error + store" where
  "backupLink env groupId expense s =
     (case be_recurringExpenseLink expense of
        None \<Rightarrow> Inr s
      | Some link \<Rightarrow>
          bindE (case bl_nextExpenseCreatedAt link of
                   None \<Rightarrow> Inr None
                 | Some c \<Rightarrow>
                     if c = [] then Inr None
                     else bindE (dateArg ''RecurringExpenseLink'' (newDate env c)) (\<lambda>t. Inr (Some t)))
            (\<lambda>nextExpenseCreatedAt.
          bindE (dateArg ''RecurringExpenseLink'' (newDate env (bl_nextExpenseDate link)))
            (\<lambda>nextExpenseDate.
          link_create env
            \<lparr>l_id = bl_id link, l_groupId = groupId, l_currentFrameExpenseId = be_id expense,
             l_nextExpenseCreatedAt = nextExpenseCreatedAt,
             l_nextExpenseDate = nextExpenseDate\<rparr> s)))"

definition restoreExpense :: "env \<Rightarrow> string \<Rightarrow> backup_expense \<Rightarrow> backup_tx \<Rightarrow> error + backup_tx" where
  "restoreExpense env groupId expense st =
     bindE (onStore (backupExpenseCreate env groupId expense) st) (\<lambda>st1.
     bindE (onStore (forE (backupPaidFor env expense) (be_paidFor expense)) st1) (\<lambda>st2.
     bindE (forE (backupDocument env expense) (be_documents expense) st2) (\<lambda>st3.
     onStore (backupLink env groupId expense) st3)))"

definition addMissingExpense ::
  "env \<Rightarrow> string \<Rightarrow> string list \<Rightarrow> backup_expense \<Rightarrow> backup_tx \<Rightarrow> error + backup_tx" where
  "addMissingExpense env groupId existingIds expense st =
     (if be_id expense \<notin> set existingIds then
        bindE (onStore (backupExpenseCreate env groupId expense) st) (\<lambda>st1.
        bindE (onStore (forE (backupPaidFor env expense) (be_paidFor expense)) st1) (\<lambda>st2.
        forE (backupDocument env expense) (be_documents expense) st2))
      else Inr st)"

definition backupParticipant :: "env \<Rightarrow> string \<Rightarrow> participant_ref \<Rightarrow> store \<Rightarrow> error + store" where
  "backupParticipant env groupId participant s =
     participant_create env
       \<lparr>p_id = pr_id participant, p_groupId = groupId, p_name = pr_name participant\<rparr> s"

definition addMissingParticipant ::
  "env \<Rightarrow> string \<Rightarrow> string list \<Rightarrow> participant_ref \<Rightarrow> store \<Rightarrow> error + store" where
  "addMissingParticipant env groupId existingIds participant s =
     (if pr_id participant \<notin> set existingIds then backupParticipant env groupId participant s
      else Inr s)"

definition backupActivity :: "env \<Rightarrow> string \<Rightarrow> backup_activity \<Rightarrow> store \<Rightarrow> error + store" where
  "backupActivity env groupId activity s =
     bindE (dateArg ''Activity'' (newDate env (ba_time activity))) (\<lambda>time.
     activity_create env
       \<lparr>a_id = ba_id activity, a_groupId = groupId, a_time = time,
        a_activityType = ba_activityType activity, a_participantId = ba_participantId activity,
        a_expenseId = ba_expenseId activity, a_data = ba_data activity\<rparr> s)"

definition setBackupMetadata :: "backup_group \<Rightarrow> group_row \<Rightarrow> group_row" where
  "setBackupMetadata g row =
     row\<lparr>g_name := bg_name g, g_information := bg_information g, g_currency := bg_currency g,
         g_currencyCode := bg_currencyCode g\<rparr>"

definition restoreGroupStep :: "env \<Rightarrow> backup_group \<Rightarrow> mode \<Rightarrow> store \<Rightarrow> error + store" where
  "restoreGroupStep env g m s =
     (case m of
        Create \<Rightarrow>
          bindE (dateArg ''Group'' (newDate env (bg_createdAt g))) (\<lambda>createdAt.
          group_create env
            \<lparr>g_id = bg_id g, g_name = bg_name g, g_information = bg_information g,
             g_currency = bg_currency g, g_currencyCode = bg_currencyCode g,
             g_createdAt = createdAt\<rparr> [] s)
      | Rollback \<Rightarrow>
          (let s1 = activity_deleteMany (\<lambda>a. a_groupId a = bg_id g) s;
               s2 = expense_deleteMany env (\<lambda>e. e_groupId e = bg_id g) s1;
               s3 = participant_deleteMany env (\<lambda>p. p_groupId p = bg_id g) s2
           in group_update (bg_id g) (setBackupMetadata g) s3)
      | Update \<Rightarrow> Inr s)"

definition restoreParticipantsStep ::
  "env \<Rightarrow> BackupData \<Rightarrow> mode \<Rightarrow> store \<Rightarrow> error + store" where
  "restoreParticipantsStep env backupData m s =
     (let groupId = bg_id (b_group backupData)
      in if m = Create \<or> m = Rollback then
           forE (backupParticipant env groupId) (b_participants backupData) s
         else
           (let existingIds = map p_id (filter (\<lambda>p. p_groupId p = groupId) (participants s))
            in forE (addMissingParticipant env groupId existingIds) (b_participants backupData) s))"

definition restoreExpensesStep ::
  "env \<Rightarrow> BackupData \<Rightarrow> mode \<Rightarrow> backup_tx \<Rightarrow> error + backup_tx" where
  "restoreExpensesStep env backupData m st =
     (let groupId = bg_id (b_group backupData)
      in if m = Create \<or> m = Rollback then
           forE (restoreExpense env groupId) (b_expenses backupData) st
         else
           (let existingIds = map e_id (filter (\<lambda>e. e_groupId e = groupId) (expenses (bdb st)))
            in forE (addMissingExpense env groupId existingIds) (b_expenses backupData) st))"

definition restoreActivitiesStep ::
  "env \<Rightarrow> BackupData \<Rightarrow> mode \<Rightarrow> store \<Rightarrow> error + store" where
  "restoreActivitiesStep env backupData m s =
     (if m = Create \<or> m = Rollback then
        forE (backupActivity env (bg_id (b_group backupData))) (b_activities backupData) s
      else Inr s)"

definition restoreGroupFromBackup ::
  "env \<Rightarrow> BackupData \<Rightarrow> mode \<Rightarrow> store \<Rightarrow> error + backup_tx" where
  "restoreGroupFromBackup env backupData m s =
     bindE (restoreGroupStep env (b_group backupData) m s) (\<lambda>s1.
     bindE (restoreParticipantsStep env backupData m s1) (\<lambda>s2.
     bindE (restoreExpensesStep env backupData m \<lparr>bdb = s2, warnings = []\<rparr>) (\<lambda>st3.
     onStore (restoreActivitiesStep env backupData m) st3)))"


section \<open>Import handlers\<close>

text \<open>
  The two \<open>POST\<close> handlers from the point where the uploaded file has been read and parsed:
  the snapshot, the \<open>action\<close> field of the form, and the store. A handler answers with a
  response and leaves a store. A date of a response is its time value, of which the ISO
  string is a one-to-one image. The Restore Engine is a parameter of each handler's body, so
  that what a handler does without it can be told from what it does with it. The calls of
  \<open>revalidatePath\<close> after a restore touch no table and are left out. The whole body is in a
  \<open>try\<close>: whatever it raises, the comparison before the action is looked at included, is
  answered with status 500.
\<close>

datatype response =
    ErrorResponse nat string "error option"
  | AnalyzeResponse VersionComparisonResult "int option" int "JSONGroupComparison option" string
      "string list"
  | RestoreResponse string string mode "string list option"
  | SuccessResponse string

definition restoreMessage :: "mode \<Rightarrow> string" where
  "restoreMessage m =
     ''Group '' @ (if m = Create then ''created'' else if m = Rollback then ''rolled back''
                   else ''updated'') @ '' successfully''"

definition findGroupJSON :: "store \<Rightarrow> string \<Rightarrow> ExistingGroup option" where
  "findGroupJSON s groupId =
     (if hasGroup s groupId then
        Some \<lparr>eg_participants = map p_id (filter (\<lambda>p. p_groupId p = groupId) (participants s)),
              eg_expenses =
                map (\<lambda>e. \<lparr>ee_id = e_id e, ee_createdAt = e_createdAt e,
                           ee_expenseDate = e_expenseDate e\<rparr>)
                  (filter (\<lambda>e. e_groupId e = groupId) (expenses s)),
              eg_activities = map a_time (filter (\<lambda>a. a_groupId a = groupId) (activities s))\<rparr>
      else None)"

definition bullet :: string where
  "bullet = [CHR 0xE2, CHR 0x80, CHR 0xA2]"

definition jsonImportWarnings :: "string list" where
  "jsonImportWarnings =
     [''JSON import has limitations:'',
      bullet @ '' Activity history is not preserved, it will be regenerated'',
      bullet @ '' Document attachments will not be imported'',
      bullet @ '' Notes on expenses will not be imported'',
      bullet @ '' Recurring expense links will not be imported'',
      bullet @ '' Only basic expense data will be restored'']"

definition analyzeJSON ::
  "env \<Rightarrow> JSONImportData \<Rightarrow> ExistingGroup option \<Rightarrow> VersionComparison \<Rightarrow> error + response" where
  "analyzeJSON env jsonData existingGroup comparison =
     bindE (case existingGroup of
              None \<Rightarrow> Inr None
            | Some g \<Rightarrow> bindE (calculateJSONDifferences env jsonData g) (\<lambda>d. Inr (Some d)))
       (\<lambda>differences.
         case vc_jsonExportedAt comparison of
           None \<Rightarrow> Inl RangeError
         | Some exportedAt \<Rightarrow>
             Inr (AnalyzeResponse (vc_result comparison) (vc_existingGroupUpdatedAt comparison)
                    exportedAt differences (j_name jsonData) jsonImportWarnings))"

definition runJSONRestore ::
  "(env \<Rightarrow> JSONImportData \<Rightarrow> mode \<Rightarrow> world \<Rightarrow> error + world)
   \<Rightarrow> env \<Rightarrow> JSONImportData \<Rightarrow> mode \<Rightarrow> store \<Rightarrow> response \<times> store" where
  "runJSONRestore restore env jsonData m s =
     (case transaction
             (\<lambda>tx. bindE (restore env jsonData m \<lparr>db = tx, uuidCalls = 0\<rparr>) (\<lambda>w. Inr ((), db w))) s of
        (Inl e, s') \<Rightarrow> (ErrorResponse 500 ''Failed to process JSON file'' (Some e), s')
      | (Inr _, s') \<Rightarrow> (RestoreResponse (restoreMessage m) (j_id jsonData) m None, s'))"

definition POST_json_with ::
  "(env \<Rightarrow> JSONImportData \<Rightarrow> mode \<Rightarrow> world \<Rightarrow> error + world)
   \<Rightarrow> env \<Rightarrow> JSONImportData \<Rightarrow> string \<Rightarrow> store \<Rightarrow> response \<times> store" where
  \<open>POST_json_with restore env jsonData action s =
     (if j_id jsonData = [] \<or> j_name jsonData = [] then
        (ErrorResponse 400
           ''Invalid JSON file format. Expected Spliit export format with id, name, participants, and expenses.''
           None, s)
      else
        (let existingGroup = findGroupJSON s (j_id jsonData)
         in case compareJSONVersions env jsonData existingGroup of
              Inl e \<Rightarrow> (ErrorResponse 500 ''Failed to process JSON file'' (Some e), s)
            | Inr comparison \<Rightarrow>
                if action = ''analyze'' then
                  (case analyzeJSON env jsonData existingGroup comparison of
                     Inl e \<Rightarrow> (ErrorResponse 500 ''Failed to process JSON file'' (Some e), s)
                   | Inr r \<Rightarrow> (r, s))
                else if action = ''restore'' \<or> action = ''rollback'' then
                  (if vc_result comparison = NOT_FOUND then
                     runJSONRestore restore env jsonData Create s
                   else if action = ''rollback'' then
                     runJSONRestore restore env jsonData Rollback s
                   else if vc_result comparison = NEWER then
                     runJSONRestore restore env jsonData Update s
                   else
                     (ErrorResponse 400
                        ''JSON export is not newer than existing group. Use rollback to restore older version.''
                        None, s))
                else
                  (ErrorResponse 400 ''Invalid action. Use "analyze", "restore", or "rollback"'' None,
                   s)))\<close>

definition POST_json :: "env \<Rightarrow> JSONImportData \<Rightarrow> string \<Rightarrow> store \<Rightarrow> response \<times> store" where
  "POST_json = POST_json_with restoreGroupFromJSON"

definition findGroupBackup :: "store \<Rightarrow> string \<Rightarrow> (compare_group \<times> diff_group) option" where
  "findGroupBackup s groupId =
     (case find (\<lambda>g. g_id g = groupId) (groups s) of
        None \<Rightarrow> None
      | Some g \<Rightarrow>
          (let groupExpenses = filter (\<lambda>e. e_groupId e = groupId) (expenses s)
           in Some (\<lparr>cg_createdAt = g_createdAt g, cg_expenses = map e_createdAt groupExpenses,
                     cg_activities =
                       map a_time (filter (\<lambda>a. a_groupId a = groupId) (activities s))\<rparr>,
                    \<lparr>dg_participants =
                       map p_id (filter (\<lambda>p. p_groupId p = groupId) (participants s)),
                     dg_expenses = map e_id groupExpenses\<rparr>)))"

definition analyzeBackup ::
  "env \<Rightarrow> BackupData \<Rightarrow> (compare_group \<times> diff_group) option \<Rightarrow> GroupComparison
   \<Rightarrow> error + response" where
  "analyzeBackup env backupData existingGroup comparison =
     (let differences = map_option (\<lambda>g. calculateDifferences backupData (snd g)) existingGroup
      in case gc_backupExportedAt comparison of
           None \<Rightarrow> Inl RangeError
         | Some exportedAt \<Rightarrow>
             Inr (AnalyzeResponse (gc_result comparison) (gc_existingGroupUpdatedAt comparison)
                    exportedAt differences (bg_name (b_group backupData)) []))"

definition runBackupRestore ::
  "(env \<Rightarrow> BackupData \<Rightarrow> mode \<Rightarrow> store \<Rightarrow> error + backup_tx)
   \<Rightarrow> env \<Rightarrow> BackupData \<Rightarrow> mode \<Rightarrow> store \<Rightarrow> response \<times> store" where
  "runBackupRestore restore env backupData m s =
     (case transaction
             (\<lambda>tx. bindE (restore env backupData m tx) (\<lambda>st. Inr (warnings st, bdb st))) s of
        (Inl e, s') \<Rightarrow> (ErrorResponse 500 ''Failed to process backup file'' (Some e), s')
      | (Inr ws, s') \<Rightarrow>
          (RestoreResponse (restoreMessage m) (bg_id (b_group backupData)) m
             (if length ws > 0 then Some ws else None), s'))"

definition POST_backup_with ::
  "(env \<Rightarrow> BackupData \<Rightarrow> mode \<Rightarrow> store \<Rightarrow> error + backup_tx)
   \<Rightarrow> env \<Rightarrow> BackupData \<Rightarrow> string \<Rightarrow> store \<Rightarrow> response \<times> store" where
  \<open>POST_backup_with restore env backupData action s =
     (if b_version backupData = [] \<or> b_exportedAt backupData = [] then
        (ErrorResponse 400 ''Invalid backup file format'' None, s)
      else
        (let existingGroup = findGroupBackup s (bg_id (b_group backupData))
         in case compareVersions env backupData (map_option fst existingGroup) of
              Inl e \<Rightarrow> (ErrorResponse 500 ''Failed to process backup file'' (Some e), s)
            | Inr comparison \<Rightarrow>
                if action = ''analyze'' then
                  (case analyzeBackup env backupData existingGroup comparison of
                     Inl e \<Rightarrow> (ErrorResponse 500 ''Failed to process backup file'' (Some e), s)
                   | Inr r \<Rightarrow> (r, s))
                else if action = ''restore'' \<or> action = ''rollback'' then
                  (if gc_result comparison = NOT_FOUND then
                     runBackupRestore restore env backupData Create s
                   else if action = ''rollback'' then
                     runBackupRestore restore env backupData Rollback s
                   else if gc_result comparison = NEWER then
                     runBackupRestore restore env backupData Update s
                   else
                     (ErrorResponse 400
                        ''Backup is not newer than existing group. Use rollback to restore older version.''
                        None, s))
                else
                  (ErrorResponse 400 ''Invalid action. Use "analyze", "restore", or "rollback"'' None,
                   s)))\<close>

definition POST_backup :: "env \<Rightarrow> BackupData \<Rightarrow> string \<Rightarrow> store \<Rightarrow> response \<times> store" where
  "POST_backup = POST_backup_with restoreGroupFromBackup"

section \<open>Undo last import\<close>

text \<open>
  The \<open>POST\<close> handler of the delete route. The group is read with its activities whose
  \<open>data\<close> starts with the marker prefix, latest first, at most one: \<open>lastImport\<close> is a marker of
  the group that no other marker of the group is later than.
\<close>

definition isImportMarker :: "activity_row \<Rightarrow> bool" where
  "isImportMarker a = (case a_data a of None \<Rightarrow> False | Some d \<Rightarrow> prefix importMarkerPrefix d)"

fun latestByTime :: "activity_row list \<Rightarrow> activity_row option" where
  "latestByTime [] = None"
| "latestByTime (a # rest) =
     (case latestByTime rest of
        None \<Rightarrow> Some a
      | Some b \<Rightarrow> if a_time a < a_time b then Some b else Some a)"

definition lastImportOf :: "store \<Rightarrow> string \<Rightarrow> activity_row option" where
  "lastImportOf s groupId =
     latestByTime (filter (\<lambda>a. a_groupId a = groupId \<and> isImportMarker a) (activities s))"

definition undoImport :: "env \<Rightarrow> string \<Rightarrow> int \<Rightarrow> store \<Rightarrow> error + unit \<times> store" where
  "undoImport env groupId since tx =
     (let tx1 = paidFor_deleteMany
                  (\<lambda>r. list_ex (\<lambda>e. e_id e = x_expenseId r \<and> e_groupId e = groupId
                                      \<and> since \<le> e_createdAt e) (expenses tx)) tx;
          tx2 = expense_deleteMany env (\<lambda>e. e_groupId e = groupId \<and> since \<le> e_createdAt e) tx1;
          tx3 = activity_deleteMany (\<lambda>a. a_groupId a = groupId \<and> since \<le> a_time a) tx2
      in Inr ((), tx3))"

definition POST_undo :: "env \<Rightarrow> string \<Rightarrow> string \<Rightarrow> store \<Rightarrow> response \<times> store" where
  "POST_undo env groupId action s =
     (if \<not> hasGroup s groupId then (ErrorResponse 404 ''Group not found'' None, s)
      else if action = ''undo-import'' then
        (case lastImportOf s groupId of
           None \<Rightarrow> (ErrorResponse 400 ''No import found to undo'' None, s)
         | Some lastImport \<Rightarrow>
             (case transaction (undoImport env groupId (a_time lastImport)) s of
                (Inl e, s') \<Rightarrow> (ErrorResponse 500 ''Failed to delete data'' (Some e), s')
              | (Inr _, s') \<Rightarrow> (SuccessResponse ''Successfully undid last import'', s')))
      else (ErrorResponse 400 ''Invalid action'' None, s))"


section \<open>What the claims compare the code with\<close>

text \<open>
  The restore mode as the specification derives it from the classification and the action;
  \<open>None\<close> is the rejected request.
\<close>

definition specMode :: "VersionComparisonResult \<Rightarrow> string \<Rightarrow> mode option" where
  "specMode classification action =
     (if classification = NOT_FOUND then Some Create
      else if action = ''rollback'' then Some Rollback
      else if classification = NEWER then Some Update
      else None)"

text \<open>
  The last-modified timestamp as the specification words it for both comparators: the later
  of the latest expense timestamp and the latest activity timestamp, each replaced by the
  group's creation timestamp when there is none.
\<close>

definition specLastModified :: "int \<Rightarrow> int list \<Rightarrow> int list \<Rightarrow> int" where
  "specLastModified createdAt expenseTimes activityTimes =
     max (if expenseTimes = [] then createdAt else Max (set expenseTimes))
         (if activityTimes = [] then createdAt else Max (set activityTimes))"

text \<open>
  The effective timestamp of a lightweight snapshot as the specification words it, the
  maximum expense date in the snapshot; in the two cases the specification leaves open it is
  what JavaScript makes of them: the epoch for a snapshot without expenses, and no date when
  one of the expense dates does not parse.
\<close>

definition specEffectiveTimestamp :: "env \<Rightarrow> JSONImportData \<Rightarrow> jsdate" where
  "specEffectiveTimestamp env jsonData =
     (let ds = map (\<lambda>e. newDate env (je_expenseDate e)) (j_expenses jsonData)
      in if ds = [] then Some 0 else if None \<in> set ds then None
         else Some (Max (set (map the ds))))"

text \<open>
  The heuristic key of the specification's Difference Calculator is the day of the expense
  date with the title; the count by that key, of the keys of one side that the other side
  lacks.
\<close>

definition specAddedByDayTitle :: "(int \<times> string) list \<Rightarrow> (int \<times> string) list \<Rightarrow> nat" where
  "specAddedByDayTitle snapshotKeys liveKeys = length (filter (\<lambda>k. k \<notin> set liveKeys) snapshotKeys)"

text \<open>
  A second run of a restore: the same code on the same JavaScript, with its own identifiers,
  clocks and network answers.
\<close>

definition rerun :: "env \<Rightarrow> (nat \<Rightarrow> string) \<Rightarrow> int \<Rightarrow> int \<Rightarrow> (string \<Rightarrow> bool) \<Rightarrow> env" where
  "rerun env uuids t n reachable =
     env\<lparr>randomUUID := uuids, importTime := t, dbNow := n, checkUrlExists := reachable\<rparr>"

section \<open>Observations of a store\<close>

text \<open>
  What the properties below read off a store and a run: the identifiers of a group's
  participants and expenses in table order, the pseudo-keys of its expenses, the participant
  row the code writes for a participant of a snapshot, the values of \<open>randomUUID()\<close> that \<open>n\<close>
  expenses imported in a row receive when \<open>k\<close> calls came before (each import draws one
  identifier for the expense and one for its activity), whether an expense of a snapshot has
  a pseudo-key the group lacks, and the first validation error of a list of expenses.
  \<open>raisedByStore\<close> tells the errors of the Prisma client and of the decimal conversion from
  those the code raises itself.
\<close>

definition groupParticipantIds :: "store \<Rightarrow> string \<Rightarrow> string list" where
  "groupParticipantIds s g = map p_id (filter (\<lambda>p. p_groupId p = g) (participants s))"

definition groupExpenseIds :: "store \<Rightarrow> string \<Rightarrow> string list" where
  "groupExpenseIds s g = map e_id (filter (\<lambda>e. e_groupId e = g) (expenses s))"

definition groupExpenseKeys :: "store \<Rightarrow> string \<Rightarrow> (int \<times> string) list" where
  "groupExpenseKeys s g =
     map (\<lambda>e. (e_expenseDate e, e_title e)) (filter (\<lambda>e. e_groupId e = g) (expenses s))"

definition participantRow :: "string \<Rightarrow> participant_ref \<Rightarrow> participant_row" where
  "participantRow gid p = \<lparr>p_id = pr_id p, p_groupId = gid, p_name = pr_name p\<rparr>"

definition uuidsFrom :: "env \<Rightarrow> nat \<Rightarrow> nat \<Rightarrow> string list" where
  "uuidsFrom env k n = map (\<lambda>i. randomUUID env (k + 2 * i)) [0..<n]"

definition isNewKey :: "env \<Rightarrow> (int \<times> string) list \<Rightarrow> json_expense \<Rightarrow> bool" where
  "isNewKey env keys e =
     (case newDate env (je_expenseDate e) of None \<Rightarrow> False | Some t \<Rightarrow> (t, je_title e) \<notin> set keys)"

definition core :: "store \<Rightarrow> group_row list \<times> participant_row list \<times> expense_row list" where
  "core s = (groups s, participants s, expenses s)"

fun validationFailure :: "string list \<Rightarrow> json_expense list \<Rightarrow> error option" where
  "validationFailure ids [] = None"
| "validationFailure ids (e # es) =
     (case validateExpense ids e of Inl err \<Rightarrow> Some err | Inr _ \<Rightarrow> validationFailure ids es)"

definition raisedByStore :: "error \<Rightarrow> bool" where
  "raisedByStore e = (case e of PrismaError _ \<Rightarrow> True | DecimalError \<Rightarrow> True | _ \<Rightarrow> False)"

text \<open>
  For the claim that the split mode and the recurrence rule of a snapshot never make a
  restore fail: the snapshot with these two strings of every expense replaced, the error a
  run raises if it raises one, and a store (a transaction client) with the two columns they
  end in blanked.
\<close>

definition forgetRow :: "expense_row \<Rightarrow> expense_row" where
  "forgetRow r = r\<lparr>e_splitMode := EVENLY, e_recurrenceRule := None\<rparr>"

definition forget :: "store \<Rightarrow> store" where
  "forget s = s\<lparr>expenses := map forgetRow (expenses s)\<rparr>"

definition forgetW :: "world \<Rightarrow> world" where
  "forgetW w = w\<lparr>db := forget (db w)\<rparr>"

definition withModes ::
  "(json_expense \<Rightarrow> string) \<Rightarrow> (json_expense \<Rightarrow> string option) \<Rightarrow> JSONImportData \<Rightarrow> JSONImportData" where
  "withModes f g jd =
     jd\<lparr>j_expenses := map (\<lambda>e. e\<lparr>je_splitMode := f e, je_recurrenceRule := g e\<rparr>) (j_expenses jd)\<rparr>"

definition failure :: "error + 'a \<Rightarrow> error option" where
  "failure r = (case r of Inl e \<Rightarrow> Some e | Inr _ \<Rightarrow> None)"

section \<open>Example data\<close>

definition day0 :: string where "day0 = ''1970-01-01T00:00:00.000Z''"
definition day1 :: string where "day1 = ''1970-01-02T00:00:00.000Z''"

definition exEnv :: "bool \<Rightarrow> env" where
  "exEnv fk =
     \<lparr>newDate = (\<lambda>s. if s = day0 then Some 0 else if s = day1 then Some 86400000 else None),
      randomUUID = (\<lambda>k. ''uuid-'' @ replicate k (CHR ''i'')),
      importTime = 90000000, dbNow = 90000000,
      checkUrlExists = (\<lambda>u. False),
      toISOString = (\<lambda>t. ''1970-01-02T01:00:00.000Z''),
      jsonStringify = (\<lambda>t. [CHR 0x22] @ t @ [CHR 0x22]),
      parseFloat = (\<lambda>t. t), prismaDecimal = (\<lambda>t. Some t),
      maxArguments = 125000,
      enforceFK = fk\<rparr>"

definition emptyStore :: store where
  "emptyStore =
     \<lparr>groups = [], participants = [], expenses = [], paidFors = [],
      categories = [\<lparr>c_id = 0, c_grouping = ''Uncategorized'', c_name = ''General''\<rparr>],
      activities = [], documents = [], links = []\<rparr>"

definition exJSONExpense :: "string \<Rightarrow> string \<Rightarrow> string \<Rightarrow> string list \<Rightarrow> json_expense" where
  "exJSONExpense date title payer sharers =
     \<lparr>je_createdAt = date, je_expenseDate = date, je_title = title, je_category = None,
      je_amount = 1200, je_originalAmount = None, je_originalCurrency = None,
      je_conversionRate = None, je_paidById = payer,
      je_paidFor = map (\<lambda>p. \<lparr>pf_participantId = p, pf_shares = 1\<rparr>) sharers,
      je_isReimbursement = False, je_splitMode = ''EVENLY'', je_recurrenceRule = None\<rparr>"

definition exJSON :: "json_expense list \<Rightarrow> JSONImportData" where
  "exJSON es =
     \<lparr>j_id = ''g1'', j_name = ''Trip'', j_currency = ''$'', j_currencyCode = Some ''USD'',
      j_expenses = es,
      j_participants = [\<lparr>pr_id = ''p1'', pr_name = ''Ann''\<rparr>, \<lparr>pr_id = ''p2'', pr_name = ''Bob''\<rparr>]\<rparr>"

definition exBackupExpense :: "string \<Rightarrow> string \<Rightarrow> string \<Rightarrow> string \<Rightarrow> string list \<Rightarrow> backup_expense" where
  "exBackupExpense ident date title payer sharers =
     \<lparr>be_id = ident, be_expenseDate = date, be_createdAt = date, be_title = title,
      be_category = None, be_amount = 1200, be_originalAmount = None,
      be_originalCurrency = None, be_conversionRate = None, be_paidById = payer,
      be_paidFor = map (\<lambda>p. \<lparr>pf_participantId = p, pf_shares = 1\<rparr>) sharers,
      be_isReimbursement = False, be_splitMode = ''EVENLY'', be_notes = None,
      be_documents = [], be_recurrenceRule = None, be_recurringExpenseLink = None\<rparr>"

definition exBackup :: "string \<Rightarrow> backup_expense list \<Rightarrow> BackupData" where
  "exBackup exported es =
     \<lparr>b_version = ''1'', b_exportedAt = exported,
      b_group = \<lparr>bg_id = ''g1'', bg_name = ''Trip'', bg_information = None, bg_currency = ''$'',
                 bg_currencyCode = Some ''USD'', bg_createdAt = day0\<rparr>,
      b_participants = [\<lparr>pr_id = ''p1'', pr_name = ''Ann''\<rparr>, \<lparr>pr_id = ''p2'', pr_name = ''Bob''\<rparr>],
      b_expenses = es, b_activities = []\<rparr>"

definition exGroupRow :: "int \<Rightarrow> group_row" where
  "exGroupRow created =
     \<lparr>g_id = ''g1'', g_name = ''Trip'', g_information = None, g_currency = ''$'',
      g_currencyCode = Some ''USD'', g_createdAt = created\<rparr>"

definition exExpenseRow :: "string \<Rightarrow> int \<Rightarrow> int \<Rightarrow> string \<Rightarrow> expense_row" where
  "exExpenseRow ident date created title =
     \<lparr>e_id = ident, e_groupId = ''g1'', e_expenseDate = date, e_createdAt = created,
      e_title = title, e_categoryId = 0, e_amount = 1200, e_originalAmount = None,
      e_originalCurrency = None, e_conversionRate = None, e_paidById = ''p1'',
      e_isReimbursement = False, e_splitMode = EVENLY, e_notes = None,
      e_recurrenceRule = Some NONE\<rparr>"

definition exLiveStore :: "int \<Rightarrow> expense_row list \<Rightarrow> activity_row list \<Rightarrow> store" where
  "exLiveStore created es acts =
     emptyStore\<lparr>groups := [exGroupRow created],
                participants := [\<lparr>p_id = ''p1'', p_groupId = ''g1'', p_name = ''Ann''\<rparr>,
                                 \<lparr>p_id = ''p2'', p_groupId = ''g1'', p_name = ''Bob''\<rparr>],
                expenses := es, activities := acts\<rparr>"

definition exMarker :: "string \<Rightarrow> int \<Rightarrow> activity_row" where
  "exMarker ident t =
     \<lparr>a_id = ident, a_groupId = ''g1'', a_time = t, a_activityType = ''UPDATE_GROUP'',
      a_participantId = None, a_expenseId = None,
      a_data = Some ''JSON_IMPORT_START:update:1 expenses''\<rparr>"

definition exUndoStore :: store where
  "exUndoStore =
     (exLiveStore 0 [exExpenseRow ''e1'' 0 10 ''Lunch'', exExpenseRow ''e2'' 0 60 ''Taxi'']
        [exMarker ''a0'' 20, exMarker ''a1'' 50,
         \<lparr>a_id = ''a2'', a_groupId = ''g1'', a_time = 60, a_activityType = ''CREATE_EXPENSE'',
          a_participantId = None, a_expenseId = Some ''e2'', a_data = Some ''{}''\<rparr>])
     \<lparr>paidFors := [\<lparr>x_expenseId = ''e1'', x_participantId = ''p1'', x_shares = 1\<rparr>,
                   \<lparr>x_expenseId = ''e2'', x_participantId = ''p2'', x_shares = 1\<rparr>]\<rparr>"

definition exDanglingJSON :: JSONImportData where
  "exDanglingJSON = exJSON [exJSONExpense day0 ''Dinner'' ''p3'' [''p1'']]"

definition exDanglingBackup :: BackupData where
  "exDanglingBackup = exBackup day1 [exBackupExpense ''e1'' day0 ''Dinner'' ''p3'' [''p1'']]"

definition exLunchJSON :: JSONImportData where
  "exLunchJSON = exJSON [exJSONExpense day0 ''Lunch'' ''p1'' [''p1'', ''p2'']]"

definition exLunchBackup :: BackupData where
  "exLunchBackup = exBackup day1 [exBackupExpense ''e1'' day0 ''Lunch'' ''p1'' [''p1'', ''p2'']]"

definition exSecondRun :: env where
  "exSecondRun =
     rerun (exEnv True) (\<lambda>k. ''second-'' @ replicate k (CHR ''i'')) 95000000 95000000 (\<lambda>u. True)"

section \<open>Properties\<close>


subsection \<open>Maxima\<close>

lemma math_max_Max: "math_max x xs = Max (set (x # xs))"
proof (induction xs arbitrary: x)
  case Nil
  show ?case by simp
next
  case (Cons y ys)
  have "Max (set (x # y # ys)) = Max (set (max x y # ys))"
    by (cases ys) (simp_all add: max.assoc)
  then show ?case using Cons by simp
qed

lemma js_math_max_valid: "js_math_max (Some x) (map Some xs) = Some (math_max x xs)"
  by (induction xs arbitrary: x) (simp_all add: nan_max_def)

lemma js_math_max_None: "js_math_max None ds = None"
  by (induction ds) (simp_all add: nan_max_def)

lemma js_math_max_invalid: "None \<in> set ds \<Longrightarrow> js_math_max d ds = None"
  by (induction ds arbitrary: d) (auto simp: nan_max_def js_math_max_None split: option.splits)

lemma valid_dates: "None \<notin> set ds \<Longrightarrow> ds = map Some (map the ds)"
  by (induction ds) auto

lemma spread_fits: "length xs \<le> maxArguments env \<Longrightarrow> spread env xs = Inr xs"
  by (simp add: spread_def)

lemma spread_raises: "maxArguments env < length xs \<Longrightarrow> spread env xs = Inl MaximumCallStackSize"
  by (simp add: spread_def)

lemma latestOf_fits:
  "length ts \<le> maxArguments env \<Longrightarrow>
   latestOf env ts = Inr (if ts = [] then None else Some (Max (set ts)))"
  by (cases ts) (simp_all add: latestOf_def spread_def bindE_def math_max_Max)

lemma latestOf_raises:
  "maxArguments env < length ts \<Longrightarrow> latestOf env ts = Inl MaximumCallStackSize"
  by (cases ts) (simp_all add: latestOf_def spread_def bindE_def)

lemma js_math_max_char:
  "ds \<noteq> [] \<Longrightarrow>
   js_math_max (hd ds) (tl ds) = (if None \<in> set ds then None else Some (Max (set (map the ds))))"
proof (cases ds)
  case Nil
  assume "ds \<noteq> []"
  with Nil show ?thesis by simp
next
  case (Cons d ds')
  show ?thesis
  proof (cases "None \<in> set ds")
    case True
    then have "js_math_max d ds' = None" using Cons
      by (cases d) (auto simp: js_math_max_None js_math_max_invalid)
    then show ?thesis using Cons True by simp
  next
    case False
    then obtain x where d: "d = Some x" using Cons by (cases d) auto
    from False Cons have "None \<notin> set ds'" by auto
    then have ds': "ds' = map Some (map the ds')" by (rule valid_dates)
    have "js_math_max d ds' = Some (math_max x (map the ds'))"
      unfolding d by (subst ds') (rule js_math_max_valid)
    then show ?thesis using Cons False d by (simp add: math_max_Max)
  qed
qed

lemma latestExpenseDate_fits:
  assumes "length (j_expenses jd) \<le> maxArguments env"
  shows "latestExpenseDate env jd = Inr (specEffectiveTimestamp env jd)"
proof (cases "j_expenses jd = []")
  case True
  then show ?thesis by (simp add: latestExpenseDate_def specEffectiveTimestamp_def)
next
  case False
  then have "map (\<lambda>e. newDate env (je_expenseDate e)) (j_expenses jd) \<noteq> []" by simp
  from js_math_max_char[OF this] False assms show ?thesis
    by (simp add: latestExpenseDate_def specEffectiveTimestamp_def spread_def bindE_def Let_def)
qed

lemma latestExpenseDate_raises:
  "maxArguments env < length (j_expenses jd) \<Longrightarrow>
   latestExpenseDate env jd = Inl MaximumCallStackSize"
  by (auto simp: latestExpenseDate_def spread_def bindE_def)

lemma jsonExistingGroupUpdatedAt_fits:
  assumes "length (eg_expenses g) \<le> maxArguments env" "length (eg_activities g) \<le> maxArguments env"
  shows "jsonExistingGroupUpdatedAt env g =
     Inr (if eg_expenses g = [] \<and> eg_activities g = [] then 0
          else Max (set (map ee_expenseDate (eg_expenses g) @ eg_activities g)))"
  using assms
  by (simp add: jsonExistingGroupUpdatedAt_def latestOf_fits bindE_def Max_Un max_def)

lemma jsonExistingGroupUpdatedAt_raises:
  assumes "maxArguments env < length (eg_expenses g) \<or> maxArguments env < length (eg_activities g)"
  shows "jsonExistingGroupUpdatedAt env g = Inl MaximumCallStackSize"
proof (cases "maxArguments env < length (eg_expenses g)")
  case True
  then show ?thesis by (simp add: jsonExistingGroupUpdatedAt_def latestOf_raises bindE_def)
next
  case False
  then have "length (map ee_expenseDate (eg_expenses g)) \<le> maxArguments env" by simp
  from latestOf_fits[OF this] assms False show ?thesis
    by (simp add: jsonExistingGroupUpdatedAt_def latestOf_raises bindE_def)
qed

lemma backupExistingGroupUpdatedAt_fits:
  assumes "length (cg_expenses g) \<le> maxArguments env" "length (cg_activities g) \<le> maxArguments env"
  shows "backupExistingGroupUpdatedAt env g =
     Inr (max (if cg_expenses g = [] then cg_createdAt g else Max (set (cg_expenses g)))
              (if cg_activities g = [] then cg_createdAt g else Max (set (cg_activities g))))"
  using assms
  by (simp add: backupExistingGroupUpdatedAt_def latestOf_fits bindE_def Let_def)

lemma backupExistingGroupUpdatedAt_raises:
  assumes "maxArguments env < length (cg_expenses g) \<or> maxArguments env < length (cg_activities g)"
  shows "backupExistingGroupUpdatedAt env g = Inl MaximumCallStackSize"
proof (cases "maxArguments env < length (cg_expenses g)")
  case True
  then show ?thesis by (simp add: backupExistingGroupUpdatedAt_def latestOf_raises bindE_def)
next
  case False
  then have "length (cg_expenses g) \<le> maxArguments env" by simp
  from latestOf_fits[OF this] assms False show ?thesis
    by (simp add: backupExistingGroupUpdatedAt_def latestOf_raises bindE_def)
qed

text \<open>
  When the comparators raise: exactly when a list they spread is longer than the engine
  passes, the snapshot's expenses whether or not the live group is present.
\<close>

lemma compareJSONVersions_raises:
  "(\<exists>e. compareJSONVersions env jd eg = Inl e) \<longleftrightarrow>
     maxArguments env < length (j_expenses jd)
     \<or> (\<exists>g. eg = Some g \<and> (maxArguments env < length (eg_expenses g)
                            \<or> maxArguments env < length (eg_activities g)))"
proof (cases "maxArguments env < length (j_expenses jd)")
  case True
  then show ?thesis by (simp add: compareJSONVersions_def latestExpenseDate_raises bindE_def)
next
  case False
  then have f: "length (j_expenses jd) \<le> maxArguments env" by simp
  show ?thesis
  proof (cases eg)
    case None
    then show ?thesis using False
      by (simp add: compareJSONVersions_def latestExpenseDate_fits[OF f] bindE_def)
  next
    case (Some g)
    show ?thesis
    proof (cases "maxArguments env < length (eg_expenses g) \<or> maxArguments env < length (eg_activities g)")
      case True
      then show ?thesis using Some
        by (simp add: compareJSONVersions_def latestExpenseDate_fits[OF f]
              jsonExistingGroupUpdatedAt_raises bindE_def)
    next
      case g: False
      then have "length (eg_expenses g) \<le> maxArguments env" "length (eg_activities g) \<le> maxArguments env"
        by simp_all
      from jsonExistingGroupUpdatedAt_fits[OF this] g False Some show ?thesis
        by (simp add: compareJSONVersions_def latestExpenseDate_fits[OF f] bindE_def)
    qed
  qed
qed

lemma compareVersions_raises:
  "(\<exists>e. compareVersions env bd cg = Inl e) \<longleftrightarrow>
     (\<exists>g. cg = Some g \<and> (maxArguments env < length (cg_expenses g)
                            \<or> maxArguments env < length (cg_activities g)))"
proof (cases cg)
  case None
  then show ?thesis by (simp add: compareVersions_def)
next
  case (Some g)
  show ?thesis
  proof (cases "maxArguments env < length (cg_expenses g) \<or> maxArguments env < length (cg_activities g)")
    case True
    then show ?thesis using Some
      by (simp add: compareVersions_def backupExistingGroupUpdatedAt_raises bindE_def)
  next
    case g: False
    then have "length (cg_expenses g) \<le> maxArguments env" "length (cg_activities g) \<le> maxArguments env"
      by simp_all
    from backupExistingGroupUpdatedAt_fits[OF this] g Some show ?thesis
      by (simp add: compareVersions_def bindE_def Let_def)
  qed
qed

subsection \<open>Version Comparator\<close>

text \<open>
  C2, as the code has it. When no list that a comparator spreads into \<open>Math.max\<close> is longer
  than the engine passes (the snapshot's expenses in the lightweight format, the live
  group's expenses and activities in both formats), the comparator returns, and the snapshot
  timestamp it reports is the snapshot's effective timestamp: the maximum expense date in
  the lightweight format, the stored export timestamp in the full-backup format. It answers
  \<open>NOT_FOUND\<close> exactly when the live group is absent. When the group is present and the
  effective timestamp is a valid date, it answers \<open>NEWER\<close> exactly when that timestamp is
  strictly greater than the live group's last-modified timestamp, \<open>OLDER\<close> exactly when it
  is strictly less and \<open>SAME\<close> exactly when the two are equal. When the group is present and
  the effective timestamp is no valid date, both comparisons are false and the answer is
  \<open>SAME\<close>.
\<close>

theorem comparators_classify_valid_timestamps:
  "(length (j_expenses jd) \<le> maxArguments env
      \<and> (\<forall>g. eg = Some g \<longrightarrow> length (eg_expenses g) \<le> maxArguments env
                              \<and> length (eg_activities g) \<le> maxArguments env) \<longrightarrow>
     (\<exists>r. compareJSONVersions env jd eg = Inr r
        \<and> vc_jsonExportedAt r = specEffectiveTimestamp env jd
        \<and> (vc_result r = NOT_FOUND \<longleftrightarrow> eg = None)
        \<and> (\<forall>g. eg = Some g \<longrightarrow>
              (\<exists>l. jsonExistingGroupUpdatedAt env g = Inr l
                 \<and> vc_existingGroupUpdatedAt r = Some l
                 \<and> (\<forall>t. specEffectiveTimestamp env jd = Some t \<longrightarrow>
                        (vc_result r = NEWER \<longleftrightarrow> l < t)
                      \<and> (vc_result r = OLDER \<longleftrightarrow> t < l)
                      \<and> (vc_result r = SAME \<longleftrightarrow> t = l))
                 \<and> (specEffectiveTimestamp env jd = None \<longrightarrow> vc_result r = SAME)))))
   \<and> ((\<forall>g. cg = Some g \<longrightarrow> length (cg_expenses g) \<le> maxArguments env
                              \<and> length (cg_activities g) \<le> maxArguments env) \<longrightarrow>
     (\<exists>r. compareVersions env bd cg = Inr r
        \<and> gc_backupExportedAt r = newDate env (b_exportedAt bd)
        \<and> (gc_result r = NOT_FOUND \<longleftrightarrow> cg = None)
        \<and> (\<forall>g. cg = Some g \<longrightarrow>
              (\<exists>l. backupExistingGroupUpdatedAt env g = Inr l
                 \<and> gc_existingGroupUpdatedAt r = Some l
                 \<and> (\<forall>t. newDate env (b_exportedAt bd) = Some t \<longrightarrow>
                        (gc_result r = NEWER \<longleftrightarrow> l < t)
                      \<and> (gc_result r = OLDER \<longleftrightarrow> t < l)
                      \<and> (gc_result r = SAME \<longleftrightarrow> t = l))
                 \<and> (newDate env (b_exportedAt bd) = None \<longrightarrow> gc_result r = SAME)))))"
proof (intro conjI impI)
  assume a: "length (j_expenses jd) \<le> maxArguments env
      \<and> (\<forall>g. eg = Some g \<longrightarrow> length (eg_expenses g) \<le> maxArguments env
                              \<and> length (eg_activities g) \<le> maxArguments env)"
  then have f: "latestExpenseDate env jd = Inr (specEffectiveTimestamp env jd)"
    by (simp add: latestExpenseDate_fits)
  show "\<exists>r. compareJSONVersions env jd eg = Inr r
        \<and> vc_jsonExportedAt r = specEffectiveTimestamp env jd
        \<and> (vc_result r = NOT_FOUND \<longleftrightarrow> eg = None)
        \<and> (\<forall>g. eg = Some g \<longrightarrow>
              (\<exists>l. jsonExistingGroupUpdatedAt env g = Inr l
                 \<and> vc_existingGroupUpdatedAt r = Some l
                 \<and> (\<forall>t. specEffectiveTimestamp env jd = Some t \<longrightarrow>
                        (vc_result r = NEWER \<longleftrightarrow> l < t)
                      \<and> (vc_result r = OLDER \<longleftrightarrow> t < l)
                      \<and> (vc_result r = SAME \<longleftrightarrow> t = l))
                 \<and> (specEffectiveTimestamp env jd = None \<longrightarrow> vc_result r = SAME)))"
  proof (cases eg)
    case None
    then show ?thesis by (simp add: compareJSONVersions_def f bindE_def)
  next
    case (Some g)
    with a have "length (eg_expenses g) \<le> maxArguments env" "length (eg_activities g) \<le> maxArguments env"
      by simp_all
    from jsonExistingGroupUpdatedAt_fits[OF this]
    obtain l where l: "jsonExistingGroupUpdatedAt env g = Inr l" by blast
    show ?thesis using Some
      by (auto simp: compareJSONVersions_def f l bindE_def js_gt_def js_lt_def split: option.splits)
  qed
next
  assume a: "\<forall>g. cg = Some g \<longrightarrow> length (cg_expenses g) \<le> maxArguments env
                              \<and> length (cg_activities g) \<le> maxArguments env"
  show "\<exists>r. compareVersions env bd cg = Inr r
        \<and> gc_backupExportedAt r = newDate env (b_exportedAt bd)
        \<and> (gc_result r = NOT_FOUND \<longleftrightarrow> cg = None)
        \<and> (\<forall>g. cg = Some g \<longrightarrow>
              (\<exists>l. backupExistingGroupUpdatedAt env g = Inr l
                 \<and> gc_existingGroupUpdatedAt r = Some l
                 \<and> (\<forall>t. newDate env (b_exportedAt bd) = Some t \<longrightarrow>
                        (gc_result r = NEWER \<longleftrightarrow> l < t)
                      \<and> (gc_result r = OLDER \<longleftrightarrow> t < l)
                      \<and> (gc_result r = SAME \<longleftrightarrow> t = l))
                 \<and> (newDate env (b_exportedAt bd) = None \<longrightarrow> gc_result r = SAME)))"
  proof (cases cg)
    case None
    then show ?thesis by (simp add: compareVersions_def)
  next
    case (Some g)
    with a have "length (cg_expenses g) \<le> maxArguments env" "length (cg_activities g) \<le> maxArguments env"
      by simp_all
    from backupExistingGroupUpdatedAt_fits[OF this]
    obtain l where l: "backupExistingGroupUpdatedAt env g = Inr l" by blast
    show ?thesis using Some
      by (auto simp: compareVersions_def l bindE_def Let_def js_gt_def js_lt_def split: option.splits)
  qed
qed

text \<open>
  A snapshot whose latest expense is dated the second day, against a live group last
  modified at 3 ms, is \<open>NEWER\<close>; a backup exported at the epoch against a live group created
  at 5 ms is \<open>OLDER\<close>. With a date that does not parse in place of either timestamp, both
  are \<open>SAME\<close>.
\<close>

theorem comparators_classify_valid_timestamps_witness:
  "(\<exists>r. compareJSONVersions (exEnv True) (exJSON [exJSONExpense day1 ''Lunch'' ''p1'' [''p1'']])
          (Some \<lparr>eg_participants = [], eg_expenses = [], eg_activities = [3]\<rparr>) = Inr r
      \<and> vc_jsonExportedAt r = Some 86400000 \<and> vc_existingGroupUpdatedAt r = Some 3
      \<and> vc_result r = NEWER)
   \<and> (\<exists>r. compareVersions (exEnv True) (exBackup day0 [])
          (Some \<lparr>cg_createdAt = 5, cg_expenses = [], cg_activities = []\<rparr>) = Inr r
      \<and> gc_backupExportedAt r = Some 0 \<and> gc_existingGroupUpdatedAt r = Some 5
      \<and> gc_result r = OLDER)
   \<and> (\<exists>r. compareJSONVersions (exEnv True) (exJSON [exJSONExpense ''soon'' ''Lunch'' ''p1'' [''p1'']])
          (Some \<lparr>eg_participants = [], eg_expenses = [], eg_activities = [3]\<rparr>) = Inr r
      \<and> vc_jsonExportedAt r = None \<and> vc_existingGroupUpdatedAt r = Some 3
      \<and> vc_result r = SAME)
   \<and> (\<exists>r. compareVersions (exEnv True) (exBackup ''soon'' [])
          (Some \<lparr>cg_createdAt = 5, cg_expenses = [], cg_activities = []\<rparr>) = Inr r
      \<and> gc_backupExportedAt r = None \<and> gc_existingGroupUpdatedAt r = Some 5
      \<and> gc_result r = SAME)"
proof -
  let ?G = "\<lparr>eg_participants = [], eg_expenses = [], eg_activities = [3]\<rparr>"
  let ?C = "\<lparr>cg_createdAt = 5, cg_expenses = [], cg_activities = []\<rparr>"
  have fit: "length (j_expenses (exJSON [exJSONExpense day1 ''Lunch'' ''p1'' [''p1'']])) \<le> maxArguments (exEnv True)"
    "length (j_expenses (exJSON [exJSONExpense ''soon'' ''Lunch'' ''p1'' [''p1'']])) \<le> maxArguments (exEnv True)"
    "length (eg_expenses ?G) \<le> maxArguments (exEnv True)"
    "length (eg_activities ?G) \<le> maxArguments (exEnv True)"
    "length (cg_expenses ?C) \<le> maxArguments (exEnv True)"
    "length (cg_activities ?C) \<le> maxArguments (exEnv True)"
    by (simp_all add: exEnv_def exJSON_def)
  have t: "specEffectiveTimestamp (exEnv True) (exJSON [exJSONExpense day1 ''Lunch'' ''p1'' [''p1'']]) = Some 86400000"
    "specEffectiveTimestamp (exEnv True) (exJSON [exJSONExpense ''soon'' ''Lunch'' ''p1'' [''p1'']]) = None"
    "newDate (exEnv True) (b_exportedAt (exBackup day0 [])) = Some 0"
    "newDate (exEnv True) (b_exportedAt (exBackup ''soon'' [])) = None"
    by (simp_all add: specEffectiveTimestamp_def exEnv_def exJSON_def exJSONExpense_def
          exBackup_def day0_def day1_def)
  have l: "jsonExistingGroupUpdatedAt (exEnv True) ?G = Inr 3"
    "backupExistingGroupUpdatedAt (exEnv True) ?C = Inr 5"
    by (simp_all add: jsonExistingGroupUpdatedAt_def backupExistingGroupUpdatedAt_def
          latestOf_def spread_def bindE_def exEnv_def)
  from comparators_classify_valid_timestamps
         [of "exJSON [exJSONExpense day1 ''Lunch'' ''p1'' [''p1'']]" "exEnv True" "Some ?G"
             "Some ?C" "exBackup day0 []"] fit t l
  have a: "(\<exists>r. compareJSONVersions (exEnv True) (exJSON [exJSONExpense day1 ''Lunch'' ''p1'' [''p1'']])
          (Some ?G) = Inr r
      \<and> vc_jsonExportedAt r = Some 86400000 \<and> vc_existingGroupUpdatedAt r = Some 3
      \<and> vc_result r = NEWER)"
    "(\<exists>r. compareVersions (exEnv True) (exBackup day0 []) (Some ?C) = Inr r
      \<and> gc_backupExportedAt r = Some 0 \<and> gc_existingGroupUpdatedAt r = Some 5
      \<and> gc_result r = OLDER)"
    by auto
  from comparators_classify_valid_timestamps
         [of "exJSON [exJSONExpense ''soon'' ''Lunch'' ''p1'' [''p1'']]" "exEnv True" "Some ?G"
             "Some ?C" "exBackup ''soon'' []"] fit t l
  have b: "(\<exists>r. compareJSONVersions (exEnv True) (exJSON [exJSONExpense ''soon'' ''Lunch'' ''p1'' [''p1'']])
          (Some ?G) = Inr r
      \<and> vc_jsonExportedAt r = None \<and> vc_existingGroupUpdatedAt r = Some 3
      \<and> vc_result r = SAME)"
    "(\<exists>r. compareVersions (exEnv True) (exBackup ''soon'' []) (Some ?C) = Inr r
      \<and> gc_backupExportedAt r = None \<and> gc_existingGroupUpdatedAt r = Some 5
      \<and> gc_result r = SAME)"
    by auto
  from a b show ?thesis by blast
qed

text \<open>
  C2 as stated fails on a snapshot with an unparsable expense date: against a live group
  last modified at the epoch the result is \<open>SAME\<close>, and the snapshot's timestamp is not a
  date at all, so it is not equal to the live group's.
\<close>

theorem invalid_date_classified_same:
  "compareJSONVersions (exEnv True) (exJSON [exJSONExpense ''soon'' ''Lunch'' ''p1'' [''p1'']])
     (findGroupJSON (exLiveStore 0 [] []) ''g1'')
   = Inr \<lparr>vc_result = SAME, vc_existingGroupUpdatedAt = Some 0, vc_jsonExportedAt = None\<rparr>"
  by (simp add: compareJSONVersions_def latestExpenseDate_def exEnv_def exJSON_def
        exJSONExpense_def findGroupJSON_def exLiveStore_def emptyStore_def hasGroup_def
        exGroupRow_def Let_def jsonExistingGroupUpdatedAt_def latestOf_def js_gt_def js_lt_def
        spread_def bindE_def nan_max_def day0_def day1_def)

text \<open>
  C3, as the code has it, when no list that a comparator spreads into \<open>Math.max\<close> is longer
  than the engine passes. For a live group that is present, \<open>compareVersions\<close> takes the
  later of the latest expense creation time and the latest activity time, each replaced by
  the group's creation timestamp when there is none; \<open>compareJSONVersions\<close> takes the latest
  of the expense dates and activity times there are, and the epoch when there is neither: it
  never reads the creation timestamp. For an absent live group the snapshot's effective
  timestamp is, in the lightweight format, the latest expense date (the epoch for a snapshot
  without expenses, no date when one of them does not parse) and, in the full-backup format,
  the stored export timestamp, whatever the lengths.
\<close>

theorem comparator_timestamps:
  "(length (cg_expenses cg) \<le> maxArguments env \<and> length (cg_activities cg) \<le> maxArguments env \<longrightarrow>
      (\<exists>r. compareVersions env bd (Some cg) = Inr r
         \<and> gc_existingGroupUpdatedAt r =
             Some (max (if cg_expenses cg = [] then cg_createdAt cg else Max (set (cg_expenses cg)))
                       (if cg_activities cg = [] then cg_createdAt cg
                        else Max (set (cg_activities cg))))))
   \<and> (length (j_expenses jd) \<le> maxArguments env \<and> length (eg_expenses eg) \<le> maxArguments env
        \<and> length (eg_activities eg) \<le> maxArguments env \<longrightarrow>
      (\<exists>r. compareJSONVersions env jd (Some eg) = Inr r
         \<and> vc_existingGroupUpdatedAt r =
             Some (if eg_expenses eg = [] \<and> eg_activities eg = [] then 0
                   else Max (set (map ee_expenseDate (eg_expenses eg) @ eg_activities eg)))))
   \<and> (length (j_expenses jd) \<le> maxArguments env \<longrightarrow>
      (\<exists>r. compareJSONVersions env jd None = Inr r
         \<and> vc_jsonExportedAt r =
             (let ds = map (\<lambda>e. newDate env (je_expenseDate e)) (j_expenses jd)
              in if ds = [] then Some 0 else if None \<in> set ds then None
                 else Some (Max (set (map the ds))))))
   \<and> (\<exists>r. compareVersions env bd None = Inr r
         \<and> gc_backupExportedAt r = newDate env (b_exportedAt bd))"
proof (intro conjI impI)
  assume "length (cg_expenses cg) \<le> maxArguments env \<and> length (cg_activities cg) \<le> maxArguments env"
  then have "length (cg_expenses cg) \<le> maxArguments env" "length (cg_activities cg) \<le> maxArguments env"
    by simp_all
  from backupExistingGroupUpdatedAt_fits[OF this]
  show "\<exists>r. compareVersions env bd (Some cg) = Inr r
         \<and> gc_existingGroupUpdatedAt r =
             Some (max (if cg_expenses cg = [] then cg_createdAt cg else Max (set (cg_expenses cg)))
                       (if cg_activities cg = [] then cg_createdAt cg
                        else Max (set (cg_activities cg))))"
    by (simp add: compareVersions_def bindE_def Let_def)
next
  assume a: "length (j_expenses jd) \<le> maxArguments env \<and> length (eg_expenses eg) \<le> maxArguments env
        \<and> length (eg_activities eg) \<le> maxArguments env"
  then have f: "latestExpenseDate env jd = Inr (specEffectiveTimestamp env jd)"
    by (simp add: latestExpenseDate_fits)
  from a have "length (eg_expenses eg) \<le> maxArguments env" "length (eg_activities eg) \<le> maxArguments env"
    by simp_all
  from jsonExistingGroupUpdatedAt_fits[OF this]
  show "\<exists>r. compareJSONVersions env jd (Some eg) = Inr r
         \<and> vc_existingGroupUpdatedAt r =
             Some (if eg_expenses eg = [] \<and> eg_activities eg = [] then 0
                   else Max (set (map ee_expenseDate (eg_expenses eg) @ eg_activities eg)))"
    by (simp add: compareJSONVersions_def f bindE_def)
next
  assume "length (j_expenses jd) \<le> maxArguments env"
  then have f: "latestExpenseDate env jd = Inr (specEffectiveTimestamp env jd)"
    by (rule latestExpenseDate_fits)
  show "\<exists>r. compareJSONVersions env jd None = Inr r
         \<and> vc_jsonExportedAt r =
             (let ds = map (\<lambda>e. newDate env (je_expenseDate e)) (j_expenses jd)
              in if ds = [] then Some 0 else if None \<in> set ds then None
                 else Some (Max (set (map the ds))))"
    by (simp add: compareJSONVersions_def f bindE_def specEffectiveTimestamp_def)
next
  show "\<exists>r. compareVersions env bd None = Inr r
         \<and> gc_backupExportedAt r = newDate env (b_exportedAt bd)"
    by (simp add: compareVersions_def)
qed

text \<open>
  A live group created at 5 ms with expenses created at 7 and 9 ms was last modified at
  9 ms; one with an expense dated 4 ms and activities at 3 and 8 ms, at 8 ms; a snapshot with
  an expense on each of the first two days has the second day as its timestamp.
\<close>

theorem comparator_timestamps_witness:
  "(\<exists>r. compareVersions (exEnv True) (exBackup day0 [])
           (Some \<lparr>cg_createdAt = 5, cg_expenses = [7, 9], cg_activities = []\<rparr>) = Inr r
       \<and> gc_existingGroupUpdatedAt r = Some 9)
   \<and> (\<exists>r. compareJSONVersions (exEnv True)
           (exJSON [exJSONExpense day0 ''Lunch'' ''p1'' [''p1''], exJSONExpense day1 ''Taxi'' ''p1'' [''p1'']])
           (Some \<lparr>eg_participants = [],
                  eg_expenses = [\<lparr>ee_id = ''e1'', ee_createdAt = 7, ee_expenseDate = 4\<rparr>],
                  eg_activities = [3, 8]\<rparr>) = Inr r
       \<and> vc_existingGroupUpdatedAt r = Some 8)
   \<and> (\<exists>r. compareJSONVersions (exEnv True)
           (exJSON [exJSONExpense day0 ''Lunch'' ''p1'' [''p1''], exJSONExpense day1 ''Taxi'' ''p1'' [''p1'']])
           None = Inr r
       \<and> vc_jsonExportedAt r = Some 86400000)"
proof -
  let ?J = "exJSON [exJSONExpense day0 ''Lunch'' ''p1'' [''p1''], exJSONExpense day1 ''Taxi'' ''p1'' [''p1'']]"
  let ?G = "\<lparr>eg_participants = [],
                  eg_expenses = [\<lparr>ee_id = ''e1'', ee_createdAt = 7, ee_expenseDate = 4\<rparr>],
                  eg_activities = [3, 8]\<rparr>"
  let ?C = "\<lparr>cg_createdAt = 5, cg_expenses = [7, 9], cg_activities = []\<rparr>"
  have fit: "length (j_expenses ?J) \<le> maxArguments (exEnv True)"
    "length (eg_expenses ?G) \<le> maxArguments (exEnv True)"
    "length (eg_activities ?G) \<le> maxArguments (exEnv True)"
    "length (cg_expenses ?C) \<le> maxArguments (exEnv True)"
    "length (cg_activities ?C) \<le> maxArguments (exEnv True)"
    by (simp_all add: exEnv_def exJSON_def)
  have d: "map (\<lambda>e. newDate (exEnv True) (je_expenseDate e)) (j_expenses ?J) = [Some 0, Some 86400000]"
    by (simp add: exEnv_def exJSON_def exJSONExpense_def day0_def day1_def)
  from comparator_timestamps[of ?C "exEnv True" "exBackup day0 []" ?J ?G] fit d
  show ?thesis by (simp add: Let_def)
qed

text \<open>
  C3 as stated fails for \<open>compareJSONVersions\<close>: for a live group created at 5000 ms that has
  neither expenses nor activities it reports the epoch, where the specification's rule gives
  the creation timestamp.
\<close>

theorem json_comparator_ignores_creation_time:
  "compareJSONVersions (exEnv True) (exJSON []) (findGroupJSON (exLiveStore 5000 [] []) ''g1'')
     = Inr \<lparr>vc_result = SAME, vc_existingGroupUpdatedAt = Some 0, vc_jsonExportedAt = Some 0\<rparr>
   \<and> map g_createdAt (groups (exLiveStore 5000 [] [])) = [5000]
   \<and> specLastModified 5000 [] [] = 5000"
  by (simp add: compareJSONVersions_def latestExpenseDate_def exJSON_def findGroupJSON_def
        exLiveStore_def emptyStore_def hasGroup_def exGroupRow_def Let_def
        jsonExistingGroupUpdatedAt_def latestOf_def js_gt_def js_lt_def specLastModified_def
        bindE_def)

subsection \<open>Difference Calculator\<close>

text \<open>
  C9. For the full-backup format, the number of added expenses with dataset \<open>A\<close> as the
  snapshot and dataset \<open>B\<close> as the live group is the number of removed expenses with \<open>B\<close> as
  the snapshot and \<open>A\<close> as the live group, and likewise for participants.
\<close>

theorem calculateDifferences_role_reversal:
  "addedExpenses (calculateDifferences A (asLiveGroup B))
     = removedExpenses (calculateDifferences B (asLiveGroup A))
   \<and> addedParticipants (calculateDifferences A (asLiveGroup B))
     = removedParticipants (calculateDifferences B (asLiveGroup A))"
  by (simp add: calculateDifferences_def asLiveGroup_def filter_map o_def)

lemma mapE_valid:
  "map (\<lambda>e. newDate env (je_expenseDate e)) es = map Some ts \<Longrightarrow>
   mapE (\<lambda>e. toISODay (newDate env (je_expenseDate e))) es = Inr (map isoDay ts)"
proof (induction es arbitrary: ts)
  case Nil
  then show ?case by simp
next
  case (Cons e es)
  then obtain t ts' where ts: "ts = t # ts'" by (cases ts) auto
  with Cons.prems have "newDate env (je_expenseDate e) = Some t"
    and "map (\<lambda>e. newDate env (je_expenseDate e)) es = map Some ts'" by auto
  with Cons.IH[of ts'] ts show ?case by (simp add: bindE_def toISODay_def)
qed

lemma mapE_invalid:
  "None \<in> set (map (\<lambda>e. newDate env (je_expenseDate e)) es) \<Longrightarrow>
   mapE (\<lambda>e. toISODay (newDate env (je_expenseDate e))) es = Inl RangeError"
proof (induction es)
  case Nil
  then show ?case by simp
next
  case (Cons e es)
  show ?case
  proof (cases "newDate env (je_expenseDate e)")
    case None
    then show ?thesis by (simp add: bindE_def toISODay_def)
  next
    case (Some t)
    with Cons have "mapE (\<lambda>e. toISODay (newDate env (je_expenseDate e))) es = Inl RangeError"
      by auto
    with Some show ?thesis by (simp add: bindE_def toISODay_def)
  qed
qed

text \<open>
  C4, as the code has it. The key of \<open>calculateJSONDifferences\<close> is the UTC day of the
  expense date alone; the title is not part of it, and the live expenses it is given carry no
  title. When every expense date of the snapshot is a valid date, \<open>addedExpenses\<close> counts the
  snapshot's expenses whose day is the day of no live expense, \<open>removedExpenses\<close> counts the
  live expenses whose day is the day of no expense of the snapshot, and \<open>modifiedExpenses\<close>
  is 0; when some expense date is not valid, the calculation raises and reports nothing.
\<close>

theorem json_differences_by_day:
  "(map (\<lambda>e. newDate env (je_expenseDate e)) (j_expenses jd) = map Some ts \<longrightarrow>
      (\<exists>r. calculateJSONDifferences env jd g = Inr r
         \<and> addedExpenses r =
             length (filter (\<lambda>t. isoDay t \<notin> set (map (\<lambda>e. isoDay (ee_expenseDate e)) (eg_expenses g))) ts)
         \<and> removedExpenses r =
             length (filter (\<lambda>e. isoDay (ee_expenseDate e) \<notin> set (map isoDay ts)) (eg_expenses g))
         \<and> modifiedExpenses r = 0))
   \<and> (None \<in> set (map (\<lambda>e. newDate env (je_expenseDate e)) (j_expenses jd)) \<longrightarrow>
        calculateJSONDifferences env jd g = Inl RangeError)"
proof (intro conjI impI)
  assume v: "map (\<lambda>e. newDate env (je_expenseDate e)) (j_expenses jd) = map Some ts"
  show "\<exists>r. calculateJSONDifferences env jd g = Inr r
         \<and> addedExpenses r =
             length (filter (\<lambda>t. isoDay t \<notin> set (map (\<lambda>e. isoDay (ee_expenseDate e)) (eg_expenses g))) ts)
         \<and> removedExpenses r =
             length (filter (\<lambda>e. isoDay (ee_expenseDate e) \<notin> set (map isoDay ts)) (eg_expenses g))
         \<and> modifiedExpenses r = 0"
    by (simp add: calculateJSONDifferences_def mapE_valid[OF v] bindE_def Let_def filter_map o_def)
next
  assume "None \<in> set (map (\<lambda>e. newDate env (je_expenseDate e)) (j_expenses jd))"
  then show "calculateJSONDifferences env jd g = Inl RangeError"
    by (simp add: calculateJSONDifferences_def mapE_invalid bindE_def Let_def)
qed

text \<open>
  A snapshot with an expense on each of the first two days against a live group with one
  expense on the first day: one added, none removed. A snapshot with an expense whose date
  does not parse: a \<open>RangeError\<close>.
\<close>

theorem json_differences_by_day_witness:
  "map (\<lambda>e. newDate (exEnv True) (je_expenseDate e))
       (j_expenses (exJSON [exJSONExpense day0 ''Lunch'' ''p1'' [''p1''], exJSONExpense day1 ''Taxi'' ''p1'' [''p1'']]))
     = map Some [0, 86400000]
   \<and> (\<exists>r. calculateJSONDifferences (exEnv True)
         (exJSON [exJSONExpense day0 ''Lunch'' ''p1'' [''p1''], exJSONExpense day1 ''Taxi'' ''p1'' [''p1'']])
         \<lparr>eg_participants = [''p1''], eg_expenses = [\<lparr>ee_id = ''e1'', ee_createdAt = 7, ee_expenseDate = 3600000\<rparr>],
          eg_activities = []\<rparr> = Inr r
        \<and> addedExpenses r = 1 \<and> removedExpenses r = 0 \<and> modifiedExpenses r = 0)
   \<and> None \<in> set (map (\<lambda>e. newDate (exEnv True) (je_expenseDate e))
                  (j_expenses (exJSON [exJSONExpense ''soon'' ''Lunch'' ''p1'' [''p1'']])))
   \<and> calculateJSONDifferences (exEnv True) (exJSON [exJSONExpense ''soon'' ''Lunch'' ''p1'' [''p1'']])
         \<lparr>eg_participants = [''p1''], eg_expenses = [], eg_activities = []\<rparr> = Inl RangeError"
proof -
  have v: "map (\<lambda>e. newDate (exEnv True) (je_expenseDate e))
       (j_expenses (exJSON [exJSONExpense day0 ''Lunch'' ''p1'' [''p1''], exJSONExpense day1 ''Taxi'' ''p1'' [''p1'']]))
     = map Some [0, 86400000]"
    by (simp add: exEnv_def exJSON_def exJSONExpense_def day0_def day1_def)
  have n: "None \<in> set (map (\<lambda>e. newDate (exEnv True) (je_expenseDate e))
                  (j_expenses (exJSON [exJSONExpense ''soon'' ''Lunch'' ''p1'' [''p1'']])))"
    by (simp add: exEnv_def exJSON_def exJSONExpense_def day0_def day1_def)
  from json_differences_by_day[of "exEnv True" "exJSON [exJSONExpense day0 ''Lunch'' ''p1'' [''p1''], exJSONExpense day1 ''Taxi'' ''p1'' [''p1'']]"
        "[0, 86400000]" "\<lparr>eg_participants = [''p1''], eg_expenses = [\<lparr>ee_id = ''e1'', ee_createdAt = 7, ee_expenseDate = 3600000\<rparr>],
          eg_activities = []\<rparr>"] v
  have a: "\<exists>r. calculateJSONDifferences (exEnv True)
         (exJSON [exJSONExpense day0 ''Lunch'' ''p1'' [''p1''], exJSONExpense day1 ''Taxi'' ''p1'' [''p1'']])
         \<lparr>eg_participants = [''p1''], eg_expenses = [\<lparr>ee_id = ''e1'', ee_createdAt = 7, ee_expenseDate = 3600000\<rparr>],
          eg_activities = []\<rparr> = Inr r
        \<and> addedExpenses r = 1 \<and> removedExpenses r = 0 \<and> modifiedExpenses r = 0"
    by (simp add: isoDay_def)
  from json_differences_by_day[of "exEnv True" "exJSON [exJSONExpense ''soon'' ''Lunch'' ''p1'' [''p1'']]"
        "[]" "\<lparr>eg_participants = [''p1''], eg_expenses = [], eg_activities = []\<rparr>"] n
  have b: "calculateJSONDifferences (exEnv True) (exJSON [exJSONExpense ''soon'' ''Lunch'' ''p1'' [''p1'']])
         \<lparr>eg_participants = [''p1''], eg_expenses = [], eg_activities = []\<rparr> = Inl RangeError"
    by blast
  from v a n b show ?thesis by blast
qed

text \<open>
  C4 as stated fails: a snapshot's \<open>Lunch\<close> and a live \<open>Dinner\<close> of the same day differ in
  the key of day and title, so that key counts one expense added and one removed; the code
  counts none.
\<close>

theorem json_differences_ignore_title:
  "calculateJSONDifferences (exEnv True) (exJSON [exJSONExpense day0 ''Lunch'' ''p1'' [''p1'']])
     (the (findGroupJSON (exLiveStore 0 [exExpenseRow ''e1'' 3600000 7 ''Dinner''] []) ''g1''))
   = Inr \<lparr>addedExpenses = 0, removedExpenses = 0, modifiedExpenses = 0, addedParticipants = 0,
          removedParticipants = 0\<rparr>
   \<and> specAddedByDayTitle [(isoDay 0, ''Lunch'')] [(isoDay 3600000, ''Dinner'')] = 1
   \<and> specAddedByDayTitle [(isoDay 3600000, ''Dinner'')] [(isoDay 0, ''Lunch'')] = 1"
  by (simp add: calculateJSONDifferences_def exEnv_def exJSON_def exJSONExpense_def
        findGroupJSON_def exLiveStore_def emptyStore_def hasGroup_def exGroupRow_def
        exExpenseRow_def bindE_def toISODay_def isoDay_def Let_def specAddedByDayTitle_def
        day0_def day1_def)

subsection \<open>Import handlers\<close>

text \<open>
  C6, as the code has it. For an action \<open>restore\<close> or \<open>rollback\<close> and an uploaded snapshot
  that has its top-level fields, each handler first compares the snapshot with the live
  group. When the comparison returns a classification, the handler runs the Restore Engine
  in the mode the specification derives: \<open>create\<close> when the classification is \<open>NOT_FOUND\<close>,
  otherwise \<open>rollback\<close> when the action asks for it, otherwise \<open>update\<close> when the
  classification is \<open>NEWER\<close>; otherwise it answers 400 with the instruction to use rollback.
  When the comparison raises, no mode is derived and the handler answers 500 with the error;
  a snapshot without its top-level fields is answered 400 as an invalid file before the
  comparison. In the three answers the store is left as it is, whatever the Restore Engine
  \<open>R\<close> would do: the engine is not invoked. \<open>POST_json\<close> and \<open>POST_backup\<close> are the
  instances with the two restore functions of the source.
\<close>

theorem handlers_derive_mode:
  "(action = ''restore'' \<or> action = ''rollback'') \<longrightarrow>
     (j_id jd \<noteq> [] \<and> j_name jd \<noteq> [] \<longrightarrow>
        (\<forall>c. compareJSONVersions env jd (findGroupJSON s (j_id jd)) = Inr c \<longrightarrow>
           POST_json_with R env jd action s =
             (case specMode (vc_result c) action of
                Some m \<Rightarrow> runJSONRestore R env jd m s
              | None \<Rightarrow>
                  (ErrorResponse 400
                     ''JSON export is not newer than existing group. Use rollback to restore older version.''
                     None, s)))
      \<and> (\<forall>e. compareJSONVersions env jd (findGroupJSON s (j_id jd)) = Inl e \<longrightarrow>
           POST_json_with R env jd action s =
             (ErrorResponse 500 ''Failed to process JSON file'' (Some e), s)))
   \<and> (j_id jd = [] \<or> j_name jd = [] \<longrightarrow>
        POST_json_with R env jd action s =
          (ErrorResponse 400
             ''Invalid JSON file format. Expected Spliit export format with id, name, participants, and expenses.''
             None, s))
   \<and> (b_version bd \<noteq> [] \<and> b_exportedAt bd \<noteq> [] \<longrightarrow>
        (\<forall>c. compareVersions env bd (map_option fst (findGroupBackup s (bg_id (b_group bd)))) = Inr c \<longrightarrow>
           POST_backup_with R' env bd action s =
             (case specMode (gc_result c) action of
                Some m \<Rightarrow> runBackupRestore R' env bd m s
              | None \<Rightarrow>
                  (ErrorResponse 400
                     ''Backup is not newer than existing group. Use rollback to restore older version.''
                     None, s)))
      \<and> (\<forall>e. compareVersions env bd (map_option fst (findGroupBackup s (bg_id (b_group bd)))) = Inl e \<longrightarrow>
           POST_backup_with R' env bd action s =
             (ErrorResponse 500 ''Failed to process backup file'' (Some e), s)))
   \<and> (b_version bd = [] \<or> b_exportedAt bd = [] \<longrightarrow>
        POST_backup_with R' env bd action s = (ErrorResponse 400 ''Invalid backup file format'' None, s))"
  by (simp add: POST_json_with_def POST_backup_with_def specMode_def Let_def)

text \<open>
  A \<open>restore\<close> of a snapshot that is as old as the live group, and of a backup that is older:
  both are refused and the store is untouched. A \<open>restore\<close> of a snapshot whose group is
  absent runs the engine in \<open>create\<close> mode, a \<open>rollback\<close> of a backup onto its live group in
  \<open>rollback\<close> mode. A \<open>rollback\<close> of a snapshot with 130000 expenses, where the engine
  passes 125000 arguments, is answered 500.
\<close>

theorem handlers_derive_mode_witness:
  "POST_json (exEnv True) (exJSON []) ''restore'' (exLiveStore 0 [] []) =
     (ErrorResponse 400
        ''JSON export is not newer than existing group. Use rollback to restore older version.''
        None, exLiveStore 0 [] [])
   \<and> POST_backup (exEnv True) (exBackup day0 []) ''restore'' (exLiveStore 5 [] []) =
     (ErrorResponse 400
        ''Backup is not newer than existing group. Use rollback to restore older version.''
        None, exLiveStore 5 [] [])
   \<and> POST_json (exEnv True) exLunchJSON ''restore'' emptyStore =
       runJSONRestore restoreGroupFromJSON (exEnv True) exLunchJSON Create emptyStore
   \<and> POST_backup (exEnv True) exLunchBackup ''rollback'' (exLiveStore 5 [] []) =
       runBackupRestore restoreGroupFromBackup (exEnv True) exLunchBackup Rollback (exLiveStore 5 [] [])
   \<and> POST_json (exEnv True)
        (exJSON (replicate 130000 (exJSONExpense day0 ''Lunch'' ''p1'' [''p1''])))
        ''rollback'' (exLiveStore 0 [] []) =
       (ErrorResponse 500 ''Failed to process JSON file'' (Some MaximumCallStackSize),
        exLiveStore 0 [] [])"
proof -
  have a: "compareJSONVersions (exEnv True) (exJSON [])
             (findGroupJSON (exLiveStore 0 [] []) (j_id (exJSON [])))
           = Inr \<lparr>vc_result = SAME, vc_existingGroupUpdatedAt = Some 0, vc_jsonExportedAt = Some 0\<rparr>"
    by (simp add: compareJSONVersions_def latestExpenseDate_def exJSON_def
          findGroupJSON_def exLiveStore_def emptyStore_def hasGroup_def exGroupRow_def Let_def
          jsonExistingGroupUpdatedAt_def latestOf_def js_gt_def js_lt_def bindE_def)
  have b: "compareVersions (exEnv True) (exBackup day0 [])
             (map_option fst (findGroupBackup (exLiveStore 5 [] []) (bg_id (b_group (exBackup day0 [])))))
           = Inr \<lparr>gc_result = OLDER, gc_existingGroupUpdatedAt = Some 5, gc_backupExportedAt = Some 0\<rparr>"
    by (simp add: compareVersions_def exBackup_def exEnv_def day0_def
          findGroupBackup_def exLiveStore_def emptyStore_def exGroupRow_def Let_def
          backupExistingGroupUpdatedAt_def latestOf_def js_gt_def js_lt_def bindE_def)
  have c: "compareJSONVersions (exEnv True) exLunchJSON (findGroupJSON emptyStore (j_id exLunchJSON))
           = Inr \<lparr>vc_result = NOT_FOUND, vc_existingGroupUpdatedAt = None, vc_jsonExportedAt = Some 0\<rparr>"
    by (simp add: compareJSONVersions_def latestExpenseDate_def exLunchJSON_def exJSON_def
          exJSONExpense_def exEnv_def day0_def day1_def
          findGroupJSON_def emptyStore_def hasGroup_def Let_def spread_def bindE_def)
  have d: "compareVersions (exEnv True) exLunchBackup
             (map_option fst (findGroupBackup (exLiveStore 5 [] []) (bg_id (b_group exLunchBackup))))
           = Inr \<lparr>gc_result = NEWER, gc_existingGroupUpdatedAt = Some 5, gc_backupExportedAt = Some 86400000\<rparr>"
    by (simp add: compareVersions_def exLunchBackup_def exBackup_def exEnv_def day0_def day1_def
          findGroupBackup_def exLiveStore_def emptyStore_def exGroupRow_def Let_def
          backupExistingGroupUpdatedAt_def latestOf_def js_gt_def js_lt_def bindE_def)
  have e: "compareJSONVersions (exEnv True)
             (exJSON (replicate 130000 (exJSONExpense day0 ''Lunch'' ''p1'' [''p1''])))
             (findGroupJSON (exLiveStore 0 [] [])
                (j_id (exJSON (replicate 130000 (exJSONExpense day0 ''Lunch'' ''p1'' [''p1''])))))
           = Inl MaximumCallStackSize"
    by (simp add: compareJSONVersions_def latestExpenseDate_def exJSON_def exEnv_def
          spread_def bindE_def)
  have v: "j_id (exJSON es) \<noteq> [] \<and> j_name (exJSON es) \<noteq> []"
    "b_version (exBackup x bs) \<noteq> [] \<and> b_exportedAt (exBackup day0 bs) \<noteq> []
      \<and> b_exportedAt (exBackup day1 bs) \<noteq> []" for es x bs
    by (simp_all add: exJSON_def exBackup_def day0_def day1_def)
  note h = handlers_derive_mode[where R = restoreGroupFromJSON and env = "exEnv True"
         and R' = restoreGroupFromBackup]
  from h[where action = "''restore''" and jd = "exJSON []" and bd = "exBackup day0 []"
         and s = "exLiveStore 0 [] []"] a v
  have 1: "POST_json (exEnv True) (exJSON []) ''restore'' (exLiveStore 0 [] []) =
     (ErrorResponse 400
        ''JSON export is not newer than existing group. Use rollback to restore older version.''
        None, exLiveStore 0 [] [])"
    by (simp add: POST_json_def specMode_def)
  from h[where action = "''restore''" and jd = "exJSON []" and bd = "exBackup day0 []"
         and s = "exLiveStore 5 [] []"] b v
  have 2: "POST_backup (exEnv True) (exBackup day0 []) ''restore'' (exLiveStore 5 [] []) =
     (ErrorResponse 400
        ''Backup is not newer than existing group. Use rollback to restore older version.''
        None, exLiveStore 5 [] [])"
    by (simp add: POST_backup_def specMode_def)
  from h[where action = "''restore''" and jd = exLunchJSON and bd = "exBackup day0 []"
         and s = emptyStore] c v
  have 3: "POST_json (exEnv True) exLunchJSON ''restore'' emptyStore =
       runJSONRestore restoreGroupFromJSON (exEnv True) exLunchJSON Create emptyStore"
    by (simp add: POST_json_def specMode_def exLunchJSON_def)
  from h[where action = "''rollback''" and jd = "exJSON []" and bd = exLunchBackup
         and s = "exLiveStore 5 [] []"] d v
  have 4: "POST_backup (exEnv True) exLunchBackup ''rollback'' (exLiveStore 5 [] []) =
       runBackupRestore restoreGroupFromBackup (exEnv True) exLunchBackup Rollback (exLiveStore 5 [] [])"
    by (simp add: POST_backup_def specMode_def exLunchBackup_def)
  from h[where action = "''rollback''"
         and jd = "exJSON (replicate 130000 (exJSONExpense day0 ''Lunch'' ''p1'' [''p1'']))"
         and bd = "exBackup day0 []" and s = "exLiveStore 0 [] []"] e v
  have 5: "POST_json (exEnv True)
        (exJSON (replicate 130000 (exJSONExpense day0 ''Lunch'' ''p1'' [''p1''])))
        ''rollback'' (exLiveStore 0 [] []) =
       (ErrorResponse 500 ''Failed to process JSON file'' (Some MaximumCallStackSize),
        exLiveStore 0 [] [])"
    by (simp add: POST_json_def)
  from 1 2 3 4 5 show ?thesis by simp
qed

text \<open>
  C6 as stated fails on two uploads, both with the action \<open>restore\<close> and no live group, where
  the classification \<open>NOT_FOUND\<close> would give the mode \<open>create\<close>. For a snapshot with 130000
  expenses the comparison raises and the handler answers 500; for a snapshot without a name
  the handler answers 400 as an invalid file. Nothing is written in either case.
\<close>

theorem handlers_answer_without_a_mode:
  "findGroupJSON emptyStore ''g1'' = None
   \<and> length (j_expenses (exJSON (replicate 130000 (exJSONExpense day0 ''Lunch'' ''p1'' [''p1''])))) = 130000
   \<and> POST_json (exEnv True)
        (exJSON (replicate 130000 (exJSONExpense day0 ''Lunch'' ''p1'' [''p1''])))
        ''restore'' emptyStore =
       (ErrorResponse 500 ''Failed to process JSON file'' (Some MaximumCallStackSize), emptyStore)
   \<and> POST_json (exEnv True) (exLunchJSON\<lparr>j_name := []\<rparr>) ''restore'' emptyStore =
       (ErrorResponse 400
          ''Invalid JSON file format. Expected Spliit export format with id, name, participants, and expenses.''
          None, emptyStore)
   \<and> specMode NOT_FOUND ''restore'' = Some Create"
  by (simp add: POST_json_def POST_json_with_def compareJSONVersions_def latestExpenseDate_def
        exJSON_def exLunchJSON_def exEnv_def spread_def bindE_def findGroupJSON_def hasGroup_def
        emptyStore_def specMode_def Let_def)

subsection \<open>Undo last import\<close>

lemma latestByTime_Some:
  "latestByTime xs = Some m \<Longrightarrow> m \<in> set xs \<and> (\<forall>a\<in>set xs. a_time a \<le> a_time m)"
proof (induction xs arbitrary: m)
  case Nil
  then show ?case by simp
next
  case (Cons a rest)
  show ?case
  proof (cases "latestByTime rest")
    case None
    then have "rest = []" by (cases rest) (auto split: option.splits if_splits)
    with Cons.prems show ?thesis by simp
  next
    case (Some b)
    from Cons.IH[OF Some] have b: "b \<in> set rest" "\<forall>a\<in>set rest. a_time a \<le> a_time b" by auto
    show ?thesis
    proof (cases "a_time a < a_time b")
      case True
      with Some Cons.prems have "m = b" by simp
      with b True show ?thesis by auto
    next
      case False
      with Some Cons.prems have "m = a" by simp
      with b False show ?thesis by fastforce
    qed
  qed
qed

lemma latestByTime_None: "latestByTime xs = None \<Longrightarrow> xs = []"
  by (cases xs) (auto split: option.splits if_splits)

lemma expense_deleteMany_tables:
  "expenses (expense_deleteMany env P s) = filter (\<lambda>r. \<not> P r) (expenses s)"
  "participants (expense_deleteMany env P s) = participants s"
  "activities (expense_deleteMany env P s) = activities s"
  "groups (expense_deleteMany env P s) = groups s"
  "categories (expense_deleteMany env P s) = categories s"
  "paidFors (expense_deleteMany env P s) =
     (if enforceFK env then filter (\<lambda>r. x_expenseId r \<notin> set (map e_id (filter P (expenses s)))) (paidFors s)
      else paidFors s)"
  by (simp_all add: expense_deleteMany_def Let_def)

lemma undoImport_effect:
  "\<exists>s'. undoImport env g t s = Inr ((), s')
     \<and> expenses s' = filter (\<lambda>e. \<not> (e_groupId e = g \<and> t \<le> e_createdAt e)) (expenses s)
     \<and> paidFors s' =
         filter (\<lambda>r. \<not> (\<exists>e\<in>set (expenses s). e_id e = x_expenseId r \<and> e_groupId e = g \<and> t \<le> e_createdAt e))
           (paidFors s)
     \<and> activities s' = filter (\<lambda>a. \<not> (a_groupId a = g \<and> t \<le> a_time a)) (activities s)
     \<and> participants s' = participants s \<and> groups s' = groups s"
  apply (simp add: undoImport_def Let_def activity_deleteMany_def paidFor_deleteMany_def
      expense_deleteMany_tables list_ex_iff)
  apply (rule impI)
  apply (rule filter_cong)
   apply auto
  done

text \<open>
  C8. For a group that has at least one import-marker activity, \<open>undo-import\<close> takes a
  marker \<open>m\<close> of the group that no marker of the group is later than, succeeds, and leaves
  the store without exactly the group's expenses created at or after the time of \<open>m\<close>, the
  \<open>ExpensePaidFor\<close> rows of those expenses, and the group's activities timed at or after it;
  every other row of these three tables is kept in place and the participants are unchanged.
\<close>

theorem undo_last_import:
  "hasGroup s g \<and> (\<exists>a\<in>set (activities s). a_groupId a = g \<and> isImportMarker a) \<longrightarrow>
   (\<exists>m s'. m \<in> set (activities s) \<and> a_groupId m = g \<and> isImportMarker m
      \<and> (\<forall>a\<in>set (activities s). a_groupId a = g \<and> isImportMarker a \<longrightarrow> a_time a \<le> a_time m)
      \<and> POST_undo env g ''undo-import'' s = (SuccessResponse ''Successfully undid last import'', s')
      \<and> expenses s' = filter (\<lambda>e. \<not> (e_groupId e = g \<and> a_time m \<le> e_createdAt e)) (expenses s)
      \<and> paidFors s' =
           filter (\<lambda>r. \<not> (\<exists>e\<in>set (expenses s). e_id e = x_expenseId r \<and> e_groupId e = g
                              \<and> a_time m \<le> e_createdAt e)) (paidFors s)
      \<and> activities s' = filter (\<lambda>a. \<not> (a_groupId a = g \<and> a_time m \<le> a_time a)) (activities s)
      \<and> participants s' = participants s)"
proof (intro impI, elim conjE)
  assume g: "hasGroup s g" and ex: "\<exists>a\<in>set (activities s). a_groupId a = g \<and> isImportMarker a"
  let ?ms = "filter (\<lambda>a. a_groupId a = g \<and> isImportMarker a) (activities s)"
  from ex have "?ms \<noteq> []" by (auto simp: filter_empty_conv)
  then obtain m where m: "latestByTime ?ms = Some m"
    using latestByTime_None by (cases "latestByTime ?ms") auto
  from latestByTime_Some[OF m]
  have m1: "m \<in> set (activities s)" "a_groupId m = g" "isImportMarker m"
    and m2: "\<forall>a\<in>set (activities s). a_groupId a = g \<and> isImportMarker a \<longrightarrow> a_time a \<le> a_time m"
    by auto
  from undoImport_effect[of env g "a_time m" s] obtain s' where
    u: "undoImport env g (a_time m) s = Inr ((), s')"
    and e: "expenses s' = filter (\<lambda>e. \<not> (e_groupId e = g \<and> a_time m \<le> e_createdAt e)) (expenses s)"
    and p: "paidFors s' =
         filter (\<lambda>r. \<not> (\<exists>e\<in>set (expenses s). e_id e = x_expenseId r \<and> e_groupId e = g \<and> a_time m \<le> e_createdAt e))
           (paidFors s)"
    and a: "activities s' = filter (\<lambda>a. \<not> (a_groupId a = g \<and> a_time m \<le> a_time a)) (activities s)"
    and q: "participants s' = participants s"
    by blast
  have "POST_undo env g ''undo-import'' s = (SuccessResponse ''Successfully undid last import'', s')"
    using g m u by (simp add: POST_undo_def lastImportOf_def transaction_def)
  with m1 m2 e p a q show "\<exists>m s'. m \<in> set (activities s) \<and> a_groupId m = g \<and> isImportMarker m
      \<and> (\<forall>a\<in>set (activities s). a_groupId a = g \<and> isImportMarker a \<longrightarrow> a_time a \<le> a_time m)
      \<and> POST_undo env g ''undo-import'' s = (SuccessResponse ''Successfully undid last import'', s')
      \<and> expenses s' = filter (\<lambda>e. \<not> (e_groupId e = g \<and> a_time m \<le> e_createdAt e)) (expenses s)
      \<and> paidFors s' =
           filter (\<lambda>r. \<not> (\<exists>e\<in>set (expenses s). e_id e = x_expenseId r \<and> e_groupId e = g
                              \<and> a_time m \<le> e_createdAt e)) (paidFors s)
      \<and> activities s' = filter (\<lambda>a. \<not> (a_groupId a = g \<and> a_time m \<le> a_time a)) (activities s)
      \<and> participants s' = participants s"
    by blast
qed

lemma exUndo_hyp:
  "hasGroup exUndoStore ''g1'' \<and> (\<exists>a\<in>set (activities exUndoStore). a_groupId a = ''g1'' \<and> isImportMarker a)"
  by (simp add: exUndoStore_def exLiveStore_def emptyStore_def exGroupRow_def hasGroup_def
      exMarker_def isImportMarker_def importMarkerPrefix_def)

text \<open>
  Two markers at 20 and 50, expenses created at 10 and 60: the undo starts from 50 and
  removes the second expense, its share row and the two activities from 50 on.
\<close>

theorem undo_last_import_witness:
  "hasGroup exUndoStore ''g1''
   \<and> (\<exists>a\<in>set (activities exUndoStore). a_groupId a = ''g1'' \<and> isImportMarker a)
   \<and> (\<exists>m s'. m \<in> set (activities exUndoStore) \<and> a_time m = 50
        \<and> POST_undo (exEnv True) ''g1'' ''undo-import'' exUndoStore
            = (SuccessResponse ''Successfully undid last import'', s')
        \<and> map e_id (expenses s') = [''e1''] \<and> map x_expenseId (paidFors s') = [''e1'']
        \<and> map a_id (activities s') = [''a0'']
        \<and> participants s' = participants exUndoStore)"
proof -
  from undo_last_import[of exUndoStore "''g1''" "exEnv True"] exUndo_hyp
  obtain m s' where m: "m \<in> set (activities exUndoStore)" "isImportMarker m"
      "\<forall>a\<in>set (activities exUndoStore). a_groupId a = ''g1'' \<and> isImportMarker a \<longrightarrow> a_time a \<le> a_time m"
    and r: "POST_undo (exEnv True) ''g1'' ''undo-import'' exUndoStore
            = (SuccessResponse ''Successfully undid last import'', s')"
      "expenses s' = filter (\<lambda>e. \<not> (e_groupId e = ''g1'' \<and> a_time m \<le> e_createdAt e)) (expenses exUndoStore)"
      "paidFors s' =
           filter (\<lambda>r. \<not> (\<exists>e\<in>set (expenses exUndoStore). e_id e = x_expenseId r \<and> e_groupId e = ''g1''
                              \<and> a_time m \<le> e_createdAt e)) (paidFors exUndoStore)"
      "activities s' = filter (\<lambda>a. \<not> (a_groupId a = ''g1'' \<and> a_time m \<le> a_time a)) (activities exUndoStore)"
      "participants s' = participants exUndoStore"
    by blast
  have t: "a_time m = 50" using m
    by (auto simp: exUndoStore_def exLiveStore_def emptyStore_def exMarker_def isImportMarker_def
          importMarkerPrefix_def)
  have v: "map e_id (expenses s') = [''e1'']" "map x_expenseId (paidFors s') = [''e1'']"
       "map a_id (activities s') = [''a0'']"
    using r t by (simp_all add: exUndoStore_def exLiveStore_def emptyStore_def exMarker_def exExpenseRow_def)
  have "\<exists>m s'. m \<in> set (activities exUndoStore) \<and> a_time m = 50
        \<and> POST_undo (exEnv True) ''g1'' ''undo-import'' exUndoStore
            = (SuccessResponse ''Successfully undid last import'', s')
        \<and> map e_id (expenses s') = [''e1''] \<and> map x_expenseId (paidFors s') = [''e1'']
        \<and> map a_id (activities s') = [''a0'']
        \<and> participants s' = participants exUndoStore"
    using m(1) t r(1) v r(5) by (intro exI[of _ m] exI[of _ s']) simp
  with exUndo_hyp show ?thesis by simp
qed

subsection \<open>Effects of the store operations\<close>

lemma bindE_Inr: "bindE m f = Inr y \<longleftrightarrow> (\<exists>x. m = Inr x \<and> f x = Inr y)"
  by (cases m) (simp_all add: bindE_def)

lemma bindE_Inl: "bindE m f = Inl e \<longleftrightarrow> (m = Inl e \<or> (\<exists>x. m = Inr x \<and> f x = Inl e))"
  by (cases m) (simp_all add: bindE_def)

lemma forE_append: "forE body (xs @ ys) s = bindE (forE body xs s) (forE body ys)"
  by (induction xs arbitrary: s) (simp_all add: bindE_def split: sum.splits)

lemma participant_create_Inr:
  "participant_create env row s = Inr s' \<Longrightarrow> s' = s\<lparr>participants := participants s @ [row]\<rparr>"
  by (auto simp: participant_create_def split: if_splits)

lemma paidFor_create_Inr:
  "paidFor_create env row s = Inr s' \<Longrightarrow> s' = s\<lparr>paidFors := paidFors s @ [row]\<rparr>"
  by (auto simp: paidFor_create_def split: if_splits)

lemma activity_create_Inr:
  "activity_create env row s = Inr s' \<Longrightarrow> s' = s\<lparr>activities := activities s @ [row]\<rparr>"
  by (auto simp: activity_create_def split: if_splits)

lemma forE_paidFor_Inr:
  "forE (\<lambda>pf. paidFor_create env (mk pf)) nested s = Inr s' \<Longrightarrow>
   s' = s\<lparr>paidFors := paidFors s @ map mk nested\<rparr>"
proof (induction nested arbitrary: s)
  case Nil
  then show ?case by simp
next
  case (Cons pf nested)
  from Cons.prems obtain s1 where 1: "paidFor_create env (mk pf) s = Inr s1"
    and 2: "forE (\<lambda>pf. paidFor_create env (mk pf)) nested s1 = Inr s'"
    by (auto simp: bindE_Inr)
  from Cons.IH[OF 2] paidFor_create_Inr[OF 1] show ?case by simp
qed

lemma expense_create_Inr:
  "expense_create env row nested s = Inr s' \<Longrightarrow>
   s' = s\<lparr>expenses := expenses s @ [row],
          paidFors := paidFors s @ map (\<lambda>pf. \<lparr>x_expenseId = e_id row, x_participantId = pf_participantId pf,
                    x_shares = pf_shares pf\<rparr>) nested\<rparr>"
  by (auto simp: expense_create_def split: if_splits dest!: forE_paidFor_Inr)

lemma forE_participant_Inr:
  "forE (\<lambda>p. participant_create env (mk p)) ps s = Inr s' \<Longrightarrow>
   s' = s\<lparr>participants := participants s @ map mk ps\<rparr>"
proof (induction ps arbitrary: s)
  case Nil
  then show ?case by simp
next
  case (Cons p ps)
  from Cons.prems obtain s1 where 1: "participant_create env (mk p) s = Inr s1"
    and 2: "forE (\<lambda>p. participant_create env (mk p)) ps s1 = Inr s'"
    by (auto simp: bindE_Inr)
  from Cons.IH[OF 2] participant_create_Inr[OF 1] show ?case by simp
qed

lemma group_create_Inr:
  "group_create env row nested s = Inr s' \<Longrightarrow>
   s' = s\<lparr>groups := groups s @ [row],
          participants := participants s @
             map (\<lambda>p. \<lparr>p_id = pr_id p, p_groupId = g_id row, p_name = pr_name p\<rparr>) nested\<rparr>"
  by (auto simp: group_create_def split: if_splits dest!: forE_participant_Inr)

lemma group_update_Inr:
  "group_update gid change s = Inr s' \<Longrightarrow>
   hasGroup s gid \<and> s' = s\<lparr>groups := map (\<lambda>g. if g_id g = gid then change g else g) (groups s)\<rparr>"
  by (auto simp: group_update_def split: if_splits)

lemma resolveCategory_frame:
  "resolveCategory c s = (cid, s') \<Longrightarrow> \<exists>cs. s' = s\<lparr>categories := cs\<rparr>"
  by (auto simp: resolveCategory_def category_create_def Let_def split: option.splits intro: exI[of _ "categories s"])

lemma jsonExpenseRow_simps [simp]:
  "e_id (jsonExpenseRow env gid i c d e) = i"
  "e_groupId (jsonExpenseRow env gid i c d e) = gid"
  "e_expenseDate (jsonExpenseRow env gid i c d e) = d"
  "e_title (jsonExpenseRow env gid i c d e) = je_title e"
  "e_paidById (jsonExpenseRow env gid i c d e) = je_paidById e"
  by (simp_all add: jsonExpenseRow_def)

lemma dateArg_Inr: "dateArg m d = Inr t \<longleftrightarrow> d = Some t"
  by (cases d) (simp_all add: dateArg_def)

lemma importExpense_Inr:
  assumes "importExpense env gid ids e w = Inr w'"
  shows "\<exists>row. expenses (db w') = expenses (db w) @ [row]
           \<and> e_id row = randomUUID env (uuidCalls w) \<and> e_groupId row = gid
           \<and> newDate env (je_expenseDate e) = Some (e_expenseDate row)
           \<and> e_title row = je_title e
           \<and> participants (db w') = participants (db w)
           \<and> groups (db w') = groups (db w)
           \<and> uuidCalls w' = uuidCalls w + 2
           \<and> validateExpense ids e = Inr ()"
proof -
  obtain cid s1 where rc: "resolveCategory (je_category e) (db w) = (cid, s1)"
    by (cases "resolveCategory (je_category e) (db w)")
  from resolveCategory_frame[OF rc] obtain cs where s1: "s1 = (db w)\<lparr>categories := cs\<rparr>" ..
  from assms rc obtain t s2 s3 where v: "validateExpense ids e = Inr ()"
    and t: "newDate env (je_expenseDate e) = Some t"
    and 2: "expense_create env (jsonExpenseRow env gid (randomUUID env (uuidCalls w)) cid t e)
              (je_paidFor e) s1 = Inr s2"
    and 3: "activity_create env (jsonExpenseActivity env gid (randomUUID env (uuidCalls w + 1))
              (randomUUID env (uuidCalls w)) e) s2 = Inr s3"
    and w': "w' = \<lparr>db = s3, uuidCalls = uuidCalls w + 2\<rparr>"
    by (auto simp: importExpense_def bindE_Inr Let_def dateArg_Inr)
  from expense_create_Inr[OF 2] activity_create_Inr[OF 3] s1 w' v t
  show ?thesis by simp
qed

lemma uuidsFrom_0 [simp]: "uuidsFrom env k 0 = []"
  by (simp add: uuidsFrom_def)

lemma uuidsFrom_Suc: "uuidsFrom env k (Suc n) = randomUUID env k # uuidsFrom env (k + 2) n"
proof -
  have "[0..<Suc n] = 0 # map Suc [0..<n]"
    by (simp add: upt_conv_Cons map_Suc_upt del: upt_Suc)
  then show ?thesis by (simp add: uuidsFrom_def o_def del: upt_Suc)
qed

lemma forE_addNewExpense_Inr:
  "forE (addNewExpense env gid ids keys) es w = Inr w' \<Longrightarrow>
   \<exists>rows. expenses (db w') = expenses (db w) @ rows
     \<and> map e_id rows = uuidsFrom env (uuidCalls w) (length rows)
     \<and> (\<forall>r\<in>set rows. e_groupId r = gid)
     \<and> map (\<lambda>r. (Some (e_expenseDate r), e_title r)) rows
         = map (\<lambda>e. (newDate env (je_expenseDate e), je_title e)) (filter (isNewKey env keys) es)
     \<and> (\<forall>e\<in>set es. newDate env (je_expenseDate e) \<noteq> None)
     \<and> (\<forall>e\<in>set (filter (isNewKey env keys) es). validateExpense ids e = Inr ())
     \<and> participants (db w') = participants (db w)
     \<and> groups (db w') = groups (db w)
     \<and> uuidCalls w' = uuidCalls w + 2 * length rows"
proof (induction es arbitrary: w)
  case Nil
  then show ?case by simp
next
  case (Cons e es)
  from Cons.prems obtain w1 where 1: "addNewExpense env gid ids keys e w = Inr w1"
    and 2: "forE (addNewExpense env gid ids keys) es w1 = Inr w'"
    by (auto simp: bindE_Inr)
  from Cons.IH[OF 2] obtain rows where r:
    "expenses (db w') = expenses (db w1) @ rows"
    "map e_id rows = uuidsFrom env (uuidCalls w1) (length rows)"
    "\<forall>r\<in>set rows. e_groupId r = gid"
    "map (\<lambda>r. (Some (e_expenseDate r), e_title r)) rows
         = map (\<lambda>e. (newDate env (je_expenseDate e), je_title e)) (filter (isNewKey env keys) es)"
    "\<forall>e\<in>set es. newDate env (je_expenseDate e) \<noteq> None"
    "\<forall>e\<in>set (filter (isNewKey env keys) es). validateExpense ids e = Inr ()"
    "participants (db w') = participants (db w1)"
    "groups (db w') = groups (db w1)"
    "uuidCalls w' = uuidCalls w1 + 2 * length rows"
    by blast
  from 1 obtain t where t: "newDate env (je_expenseDate e) = Some t"
    by (auto simp: addNewExpense_def expenseKey_def bindE_Inr split: option.splits)
  show ?case
  proof (cases "isNewKey env keys e")
    case True
    with 1 t have "importExpense env gid ids e w = Inr w1"
      by (simp add: addNewExpense_def expenseKey_def bindE_def isNewKey_def)
    from importExpense_Inr[OF this] obtain row where row:
      "expenses (db w1) = expenses (db w) @ [row]"
      "e_id row = randomUUID env (uuidCalls w)" "e_groupId row = gid"
      "newDate env (je_expenseDate e) = Some (e_expenseDate row)"
      "e_title row = je_title e"
      "participants (db w1) = participants (db w)"
      "groups (db w1) = groups (db w)"
      "uuidCalls w1 = uuidCalls w + 2"
      "validateExpense ids e = Inr ()"
      by blast
    show ?thesis
      apply (rule exI[of _ "row # rows"])
      using r row True t by (simp add: uuidsFrom_Suc)
  next
    case False
    with 1 t have "w1 = w"
      by (simp add: addNewExpense_def expenseKey_def bindE_def isNewKey_def)
    with r False t show ?thesis by auto
  qed
qed

lemma forE_importExpense_as_addNew:
  "forE (importExpense env gid ids) es w = Inr w' \<Longrightarrow>
   forE (addNewExpense env gid ids []) es w = Inr w'"
proof (induction es arbitrary: w)
  case Nil
  then show ?case by simp
next
  case (Cons e es)
  from Cons.prems obtain w1 where 1: "importExpense env gid ids e w = Inr w1"
    and 2: "forE (importExpense env gid ids) es w1 = Inr w'"
    by (auto simp: bindE_Inr)
  from importExpense_Inr[OF 1] obtain t where "newDate env (je_expenseDate e) = Some t" by auto
  with 1 have "addNewExpense env gid ids [] e w = Inr w1"
    by (simp add: addNewExpense_def expenseKey_def bindE_def)
  with Cons.IH[OF 2] show ?case by (simp add: bindE_def)
qed

lemma forE_importExpense_Inr:
  assumes "forE (importExpense env gid ids) es w = Inr w'"
  shows "\<exists>rows. expenses (db w') = expenses (db w) @ rows
     \<and> map e_id rows = uuidsFrom env (uuidCalls w) (length es)
     \<and> (\<forall>r\<in>set rows. e_groupId r = gid)
     \<and> map (\<lambda>r. (Some (e_expenseDate r), e_title r)) rows
         = map (\<lambda>e. (newDate env (je_expenseDate e), je_title e)) es
     \<and> (\<forall>e\<in>set es. validateExpense ids e = Inr ())
     \<and> participants (db w') = participants (db w)
     \<and> groups (db w') = groups (db w)"
proof -
  from forE_addNewExpense_Inr[OF forE_importExpense_as_addNew[OF assms]]
  obtain rows where r: "expenses (db w') = expenses (db w) @ rows"
     "map e_id rows = uuidsFrom env (uuidCalls w) (length rows)"
     "\<forall>r\<in>set rows. e_groupId r = gid"
     "map (\<lambda>r. (Some (e_expenseDate r), e_title r)) rows
         = map (\<lambda>e. (newDate env (je_expenseDate e), je_title e)) (filter (isNewKey env []) es)"
     "\<forall>e\<in>set es. newDate env (je_expenseDate e) \<noteq> None"
     "\<forall>e\<in>set (filter (isNewKey env []) es). validateExpense ids e = Inr ()"
     "participants (db w') = participants (db w)"
     "groups (db w') = groups (db w)"
    by blast
  from r(5) have f: "filter (isNewKey env []) es = es"
    by (auto simp: isNewKey_def filter_id_conv split: option.splits)
  from r(4) f have "length rows = length es" by (metis length_map)
  with r f show ?thesis by auto
qed

lemma forE_addNewParticipant_Inr:
  "forE (addNewParticipant env gid) ps (ids0, s) = Inr (ids', s') \<Longrightarrow>
   \<exists>rows. s' = s\<lparr>participants := participants s @ rows\<rparr>
     \<and> (\<forall>r\<in>set rows. p_groupId r = gid)
     \<and> ids' = ids0 @ map p_id rows
     \<and> set (map p_id rows) = set (map pr_id ps) - set ids0"
proof (induction ps arbitrary: ids0 s)
  case Nil
  then show ?case by (auto intro: exI[of _ "[]"])
next
  case (Cons p ps)
  from Cons.prems obtain ids1 s1 where 1: "addNewParticipant env gid p (ids0, s) = Inr (ids1, s1)"
    and 2: "forE (addNewParticipant env gid) ps (ids1, s1) = Inr (ids', s')"
    by (auto simp: bindE_Inr)
  from Cons.IH[OF 2] obtain rows where r: "s' = s1\<lparr>participants := participants s1 @ rows\<rparr>"
    "\<forall>r\<in>set rows. p_groupId r = gid" "ids' = ids1 @ map p_id rows"
    "set (map p_id rows) = set (map pr_id ps) - set ids1"
    by blast
  show ?case
  proof (cases "pr_id p \<in> set ids0")
    case True
    with 1 have "ids1 = ids0" "s1 = s" by (auto simp: addNewParticipant_def)
    with r True show ?thesis by (intro exI[of _ rows]) auto
  next
    case False
    with 1 obtain s1' where c: "participant_create env \<lparr>p_id = pr_id p, p_groupId = gid, p_name = pr_name p\<rparr> s = Inr s1'"
      and e: "ids1 = ids0 @ [pr_id p]" "s1 = s1'"
      by (auto simp: addNewParticipant_def bindE_Inr)
    from participant_create_Inr[OF c] e r False show ?thesis
      by (intro exI[of _ "\<lparr>p_id = pr_id p, p_groupId = gid, p_name = pr_name p\<rparr> # rows"]) auto
  qed
qed

lemma forE_recreateParticipant_Inr:
  "forE (recreateParticipant env gid) ps (ids0, s) = Inr (ids', s') \<Longrightarrow>
   s' = s\<lparr>participants := participants s @ map (participantRow gid) ps\<rparr>
   \<and> ids' = ids0 @ map pr_id ps"
proof (induction ps arbitrary: ids0 s)
  case Nil
  then show ?case by simp
next
  case (Cons p ps)
  from Cons.prems obtain ids1 s1 where 1: "recreateParticipant env gid p (ids0, s) = Inr (ids1, s1)"
    and 2: "forE (recreateParticipant env gid) ps (ids1, s1) = Inr (ids', s')"
    by (auto simp: bindE_Inr)
  from 1 obtain s1' where c: "participant_create env \<lparr>p_id = pr_id p, p_groupId = gid, p_name = pr_name p\<rparr> s = Inr s1'"
      and e: "ids1 = ids0 @ [pr_id p]" "s1 = s1'"
    by (auto simp: recreateParticipant_def bindE_Inr)
  from Cons.IH[OF 2] participant_create_Inr[OF c] e show ?case
    by (simp add: participantRow_def)
qed

lemma forE_addMissingParticipant_Inr:
  "forE (addMissingParticipant env gid existing) ps s = Inr s' \<Longrightarrow>
   s' = s\<lparr>participants := participants s
            @ map (participantRow gid) (filter (\<lambda>p. pr_id p \<notin> set existing) ps)\<rparr>"
proof (induction ps arbitrary: s)
  case Nil
  then show ?case by simp
next
  case (Cons p ps)
  from Cons.prems obtain s1 where 1: "addMissingParticipant env gid existing p s = Inr s1"
    and 2: "forE (addMissingParticipant env gid existing) ps s1 = Inr s'"
    by (auto simp: bindE_Inr)
  show ?case
  proof (cases "pr_id p \<in> set existing")
    case True
    with 1 have "s1 = s" by (simp add: addMissingParticipant_def)
    with Cons.IH[OF 2] True show ?thesis by simp
  next
    case False
    with 1 have "participant_create env (participantRow gid p) s = Inr s1"
      by (simp add: addMissingParticipant_def backupParticipant_def participantRow_def)
    from participant_create_Inr[OF this] Cons.IH[OF 2] False show ?thesis by simp
  qed
qed

lemma forE_backupParticipant_Inr:
  "forE (backupParticipant env gid) ps s = Inr s' \<Longrightarrow>
   s' = s\<lparr>participants := participants s @ map (participantRow gid) ps\<rparr>"
proof -
  have "backupParticipant env gid = (\<lambda>p. participant_create env (participantRow gid p))"
    by (simp add: backupParticipant_def participantRow_def fun_eq_iff)
  then show "forE (backupParticipant env gid) ps s = Inr s' \<Longrightarrow> ?thesis"
    by (simp add: forE_participant_Inr)
qed

lemma participant_deleteMany_tables:
  "participants (participant_deleteMany env P s) = filter (\<lambda>r. \<not> P r) (participants s)"
  "groups (participant_deleteMany env P s) = groups s"
  "activities (participant_deleteMany env P s) = activities s"
  "expenses (participant_deleteMany env P s) =
     (if enforceFK env
      then filter (\<lambda>e. e_paidById e \<notin> set (map p_id (filter P (participants s)))) (expenses s)
      else expenses s)"
  by (simp_all add: participant_deleteMany_def expense_deleteMany_def Let_def)

lemma expense_deleteMany_tables2:
  "expenses (expense_deleteMany env P s) = filter (\<lambda>r. \<not> P r) (expenses s)"
  "participants (expense_deleteMany env P s) = participants s"
  "activities (expense_deleteMany env P s) = activities s"
  "groups (expense_deleteMany env P s) = groups s"
  by (simp_all add: expense_deleteMany_def Let_def)

lemma setGroupMetadata_id [simp]: "g_id (setGroupMetadata jd g) = g_id g"
  by (simp add: setGroupMetadata_def)

lemma map_g_id_update:
  "(\<And>g. g_id (change g) = g_id g) \<Longrightarrow>
   map g_id (map (\<lambda>g. if g_id g = gid then change g else g) gs) = map g_id gs"
  by (induction gs) auto

lemma restoreJSON_create_Inr:
  assumes "restoreGroupFromJSON env jd Create w = Inr w'"
  shows "\<exists>rows. map g_id (groups (db w')) = map g_id (groups (db w)) @ [j_id jd]
     \<and> participants (db w') = participants (db w) @ map (participantRow (j_id jd)) (j_participants jd)
     \<and> expenses (db w') = expenses (db w) @ rows
     \<and> map e_id rows = uuidsFrom env (uuidCalls w + 1) (length (j_expenses jd))
     \<and> (\<forall>r\<in>set rows. e_groupId r = j_id jd)"
proof -
  from assms obtain s1 s2 where
    1: "group_create env \<lparr>g_id = j_id jd, g_name = j_name jd, g_information = None,
          g_currency = j_currency jd, g_currencyCode = j_currencyCode jd, g_createdAt = dbNow env\<rparr>
          (j_participants jd) (db w) = Inr s1"
    and 2: "activity_create env (importMarker env jd Create (uuidCalls w)) s1 = Inr s2"
    and 3: "forE (importExpense env (j_id jd) (map pr_id (j_participants jd))) (j_expenses jd)
              \<lparr>db = s2, uuidCalls = uuidCalls w + 1\<rparr> = Inr w'"
    by (auto simp: restoreGroupFromJSON_def bindE_Inr Let_def)
  from forE_importExpense_Inr[OF 3] obtain rows where r:
    "expenses (db w') = expenses s2 @ rows"
    "map e_id rows = uuidsFrom env (uuidCalls w + 1) (length (j_expenses jd))"
    "\<forall>r\<in>set rows. e_groupId r = j_id jd"
    "participants (db w') = participants s2" "groups (db w') = groups s2"
    by auto
  from group_create_Inr[OF 1] activity_create_Inr[OF 2] r show ?thesis
    by (intro exI[of _ rows]) (simp add: participantRow_def)
qed

lemma restoreJSON_update_Inr:
  assumes "restoreGroupFromJSON env jd Update w = Inr w'"
  shows "\<exists>prows rows. hasGroup (db w) (j_id jd)
     \<and> map g_id (groups (db w')) = map g_id (groups (db w))
     \<and> participants (db w') = participants (db w) @ prows
     \<and> (\<forall>r\<in>set prows. p_groupId r = j_id jd)
     \<and> set (map p_id prows) = set (map pr_id (j_participants jd)) - set (groupParticipantIds (db w) (j_id jd))
     \<and> expenses (db w') = expenses (db w) @ rows
     \<and> map e_id rows = uuidsFrom env (uuidCalls w + 1) (length rows)
     \<and> (\<forall>r\<in>set rows. e_groupId r = j_id jd)
     \<and> map (\<lambda>r. (Some (e_expenseDate r), e_title r)) rows
         = map (\<lambda>e. (newDate env (je_expenseDate e), je_title e))
             (filter (isNewKey env (groupExpenseKeys (db w) (j_id jd))) (j_expenses jd))
     \<and> (\<forall>e\<in>set (j_expenses jd). newDate env (je_expenseDate e) \<noteq> None)"
proof -
  let ?g = "j_id jd"
  from assms have g: "hasGroup (db w) ?g"
    by (auto simp: restoreGroupFromJSON_def split: if_splits)
  with assms obtain s1 s2 ids s3 where
    1: "activity_create env (importMarker env jd Update (uuidCalls w)) (db w) = Inr s1"
    and 2: "group_update ?g (setGroupMetadata jd) s1 = Inr s2"
    and 3: "forE (addNewParticipant env ?g) (j_participants jd)
              (groupParticipantIds (db w) ?g, s2) = Inr (ids, s3)"
    and 4: "forE (addNewExpense env ?g ids (groupExpenseKeys (db w) ?g)) (j_expenses jd)
              \<lparr>db = s3, uuidCalls = uuidCalls w + 1\<rparr> = Inr w'"
    by (auto simp: restoreGroupFromJSON_def bindE_Inr Let_def groupParticipantIds_def
          groupExpenseKeys_def)
  from forE_addNewParticipant_Inr[OF 3] obtain prows where p:
    "s3 = s2\<lparr>participants := participants s2 @ prows\<rparr>"
    "\<forall>r\<in>set prows. p_groupId r = ?g"
    "set (map p_id prows) = set (map pr_id (j_participants jd)) - set (groupParticipantIds (db w) ?g)"
    by blast
  from forE_addNewExpense_Inr[OF 4] obtain rows where r:
    "expenses (db w') = expenses s3 @ rows"
    "map e_id rows = uuidsFrom env (uuidCalls w + 1) (length rows)"
    "\<forall>r\<in>set rows. e_groupId r = ?g"
    "map (\<lambda>r. (Some (e_expenseDate r), e_title r)) rows
         = map (\<lambda>e. (newDate env (je_expenseDate e), je_title e))
             (filter (isNewKey env (groupExpenseKeys (db w) ?g)) (j_expenses jd))"
    "\<forall>e\<in>set (j_expenses jd). newDate env (je_expenseDate e) \<noteq> None"
    "participants (db w') = participants s3" "groups (db w') = groups s3"
    by auto
  from activity_create_Inr[OF 1] group_update_Inr[OF 2] p(1) r(1,6,7)
  have t: "map g_id (groups (db w')) = map g_id (groups (db w))"
    "participants (db w') = participants (db w) @ prows"
    "expenses (db w') = expenses (db w) @ rows"
    by (simp_all add: map_g_id_update)
  from g t p(2,3) r(2,3,4,5) show ?thesis by blast
qed

lemma restoreJSON_rollback_Inr:
  assumes "restoreGroupFromJSON env jd Rollback w = Inr w'"
  shows "\<exists>rows. hasGroup (db w) (j_id jd)
     \<and> map g_id (groups (db w')) = map g_id (groups (db w))
     \<and> filter (\<lambda>p. p_groupId p = j_id jd) (participants (db w'))
         = map (participantRow (j_id jd)) (j_participants jd)
     \<and> filter (\<lambda>e. e_groupId e = j_id jd) (expenses (db w')) = rows
     \<and> map e_id rows = uuidsFrom env (uuidCalls w + 1) (length (j_expenses jd))"
proof -
  let ?g = "j_id jd"
  define s4 where "s4 =
    activity_deleteMany (\<lambda>a. a_groupId a = ?g)
      (participant_deleteMany env (\<lambda>p. p_groupId p = ?g)
        (expense_deleteMany env (\<lambda>e. e_groupId e = ?g)
          (paidFor_deleteMany
             (\<lambda>r. list_ex (\<lambda>e. e_id e = x_expenseId r \<and> e_groupId e = ?g) (expenses (db w))) (db w))))"
  have d: "groups s4 = groups (db w)"
    "filter (\<lambda>p. p_groupId p = ?g) (participants s4) = []"
    "filter (\<lambda>e. e_groupId e = ?g) (expenses s4) = []"
    by (auto simp: s4_def activity_deleteMany_def paidFor_deleteMany_def
        participant_deleteMany_tables expense_deleteMany_tables2 filter_empty_conv)
  from assms obtain s5 s6 ids s7 where
    1: "group_update ?g (setGroupMetadata jd) s4 = Inr s5"
    and 2: "activity_create env (importMarker env jd Rollback (uuidCalls w)) s5 = Inr s6"
    and 3: "forE (recreateParticipant env ?g) (j_participants jd) ([], s6) = Inr (ids, s7)"
    and 4: "forE (importExpense env ?g ids) (j_expenses jd)
              \<lparr>db = s7, uuidCalls = uuidCalls w + 1\<rparr> = Inr w'"
    by (auto simp: restoreGroupFromJSON_def bindE_Inr Let_def s4_def)
  from forE_importExpense_Inr[OF 4] obtain rows where r:
    "expenses (db w') = expenses s7 @ rows"
    "map e_id rows = uuidsFrom env (uuidCalls w + 1) (length (j_expenses jd))"
    "\<forall>r\<in>set rows. e_groupId r = ?g"
    "participants (db w') = participants s7" "groups (db w') = groups s7"
    by auto
  from group_update_Inr[OF 1] activity_create_Inr[OF 2] forE_recreateParticipant_Inr[OF 3] r d
  have "hasGroup (db w) ?g" "map g_id (groups (db w')) = map g_id (groups (db w))"
    "filter (\<lambda>p. p_groupId p = ?g) (participants (db w')) = map (participantRow ?g) (j_participants jd)"
    "filter (\<lambda>e. e_groupId e = ?g) (expenses (db w')) = rows"
    by (simp_all add: map_g_id_update hasGroup_def participantRow_def filter_id_conv o_def)
  with r(2) show ?thesis by blast
qed

lemma forE_invariant:
  assumes "\<And>x s s'. x \<in> set xs \<Longrightarrow> body x s = Inr s' \<Longrightarrow> f s' = f s"
  shows "forE body xs s = Inr s' \<Longrightarrow> f s' = f s"
  using assms
proof (induction xs arbitrary: s)
  case Nil
  then show ?case by simp
next
  case (Cons x xs)
  from Cons.prems(1) obtain s1 where 1: "body x s = Inr s1" and 2: "forE body xs s1 = Inr s'"
    by (auto simp: bindE_Inr)
  from Cons.prems(2)[OF _ 1] have a: "f s1 = f s" by simp
  have "f s' = f s1"
  proof (rule Cons.IH[OF 2])
    fix y t t'
    assume "y \<in> set xs" "body y t = Inr t'"
    then show "f t' = f t" using Cons.prems(2)[of y t t'] by simp
  qed
  with a show ?case by simp
qed

lemma onStore_Inr: "onStore op st = Inr st' \<longleftrightarrow> (\<exists>s. op (bdb st) = Inr s \<and> st' = st\<lparr>bdb := s\<rparr>)"
  by (auto simp: onStore_def bindE_Inr)

lemma document_upsert_core: "document_upsert env row s = Inr s' \<Longrightarrow> core s' = core s"
  by (auto simp: document_upsert_def core_def split: if_splits)

lemma link_create_core: "link_create env row s = Inr s' \<Longrightarrow> core s' = core s"
  by (auto simp: link_create_def core_def split: if_splits)

lemma backupLink_core: "backupLink env gid e s = Inr s' \<Longrightarrow> core s' = core s"
  by (auto simp: backupLink_def bindE_Inr split: option.splits if_splits dest: link_create_core)

lemma backupDocument_core: "backupDocument env e d st = Inr st' \<Longrightarrow> core (bdb st') = core (bdb st)"
  by (auto simp: backupDocument_def onStore_Inr split: if_splits dest: document_upsert_core)

lemma backupPaidFor_core: "backupPaidFor env e pf s = Inr s' \<Longrightarrow> core s' = core s"
  by (auto simp: backupPaidFor_def core_def dest!: paidFor_create_Inr)

lemma backupActivity_core: "backupActivity env gid a s = Inr s' \<Longrightarrow> core s' = core s"
  by (auto simp: backupActivity_def core_def bindE_Inr dest!: activity_create_Inr)

lemma backupExpenseRow_simps [simp]:
  "e_id (backupExpenseRow gid e c d t m r) = be_id e"
  "e_groupId (backupExpenseRow gid e c d t m r) = gid"
  by (simp_all add: backupExpenseRow_def)

lemma backupExpenseCreate_Inr:
  "backupExpenseCreate env gid e s = Inr s' \<Longrightarrow>
   \<exists>row. s' = s\<lparr>expenses := expenses s @ [row]\<rparr> \<and> e_id row = be_id e \<and> e_groupId row = gid"
  by (auto simp: backupExpenseCreate_def bindE_Inr dest!: expense_create_Inr)

lemma expense_steps_Inr:
  assumes 1: "onStore (backupExpenseCreate env gid e) st = Inr st1"
    and 2: "onStore (forE (backupPaidFor env e) (be_paidFor e)) st1 = Inr st2"
    and 3: "forE (backupDocument env e) (be_documents e) st2 = Inr st3"
  shows "\<exists>row. expenses (bdb st3) = expenses (bdb st) @ [row] \<and> e_id row = be_id e
           \<and> e_groupId row = gid \<and> participants (bdb st3) = participants (bdb st)
           \<and> groups (bdb st3) = groups (bdb st)"
proof -
  from 1 obtain row where r: "bdb st1 = (bdb st)\<lparr>expenses := expenses (bdb st) @ [row]\<rparr>"
    "e_id row = be_id e" "e_groupId row = gid"
    by (auto simp: onStore_Inr dest!: backupExpenseCreate_Inr)
  from 2 obtain s2 where "forE (backupPaidFor env e) (be_paidFor e) (bdb st1) = Inr s2"
    "st2 = st1\<lparr>bdb := s2\<rparr>" by (auto simp: onStore_Inr)
  with forE_invariant[of "be_paidFor e" "backupPaidFor env e" core "bdb st1" s2] backupPaidFor_core
  have c2: "core (bdb st2) = core (bdb st1)" by auto
  from forE_invariant[of "be_documents e" "backupDocument env e" "\<lambda>st. core (bdb st)" st2 st3, OF _ 3]
    backupDocument_core
  have c3: "core (bdb st3) = core (bdb st2)" by auto
  from r c2 c3 show ?thesis by (auto simp: core_def)
qed

lemma restoreExpense_Inr:
  assumes "restoreExpense env gid e st = Inr st'"
  shows "\<exists>row. expenses (bdb st') = expenses (bdb st) @ [row] \<and> e_id row = be_id e
           \<and> e_groupId row = gid \<and> participants (bdb st') = participants (bdb st)
           \<and> groups (bdb st') = groups (bdb st)"
proof -
  from assms obtain st1 st2 st3 where
    1: "onStore (backupExpenseCreate env gid e) st = Inr st1"
    and 2: "onStore (forE (backupPaidFor env e) (be_paidFor e)) st1 = Inr st2"
    and 3: "forE (backupDocument env e) (be_documents e) st2 = Inr st3"
    and 4: "onStore (backupLink env gid e) st3 = Inr st'"
    by (auto simp: restoreExpense_def bindE_Inr)
  from 4 have "core (bdb st') = core (bdb st3)"
    by (auto simp: onStore_Inr dest: backupLink_core)
  with expense_steps_Inr[OF 1 2 3] show ?thesis by (auto simp: core_def)
qed

lemma forE_addMissingExpense_Inr:
  "forE (addMissingExpense env gid existing) es st = Inr st' \<Longrightarrow>
   \<exists>rows. expenses (bdb st') = expenses (bdb st) @ rows
     \<and> map e_id rows = map be_id (filter (\<lambda>e. be_id e \<notin> set existing) es)
     \<and> (\<forall>r\<in>set rows. e_groupId r = gid)
     \<and> participants (bdb st') = participants (bdb st)
     \<and> groups (bdb st') = groups (bdb st)"
proof (induction es arbitrary: st)
  case Nil
  then show ?case by simp
next
  case (Cons e es)
  from Cons.prems obtain st1 where 1: "addMissingExpense env gid existing e st = Inr st1"
    and 2: "forE (addMissingExpense env gid existing) es st1 = Inr st'"
    by (auto simp: bindE_Inr)
  from Cons.IH[OF 2] obtain rows where r: "expenses (bdb st') = expenses (bdb st1) @ rows"
     "map e_id rows = map be_id (filter (\<lambda>e. be_id e \<notin> set existing) es)"
     "\<forall>r\<in>set rows. e_groupId r = gid"
     "participants (bdb st') = participants (bdb st1)"
     "groups (bdb st') = groups (bdb st1)"
    by blast
  show ?case
  proof (cases "be_id e \<in> set existing")
    case True
    with 1 have "st1 = st" by (simp add: addMissingExpense_def)
    with r True show ?thesis by auto
  next
    case False
    with 1 obtain sa sb where
      "onStore (backupExpenseCreate env gid e) st = Inr sa"
      "onStore (forE (backupPaidFor env e) (be_paidFor e)) sa = Inr sb"
      "forE (backupDocument env e) (be_documents e) sb = Inr st1"
      by (auto simp: addMissingExpense_def bindE_Inr)
    from expense_steps_Inr[OF this] obtain row where
      "expenses (bdb st1) = expenses (bdb st) @ [row]" "e_id row = be_id e"
      "e_groupId row = gid" "participants (bdb st1) = participants (bdb st)"
      "groups (bdb st1) = groups (bdb st)" by blast
    with r False show ?thesis by (intro exI[of _ "row # rows"]) simp
  qed
qed

lemma forE_restoreExpense_Inr:
  "forE (restoreExpense env gid) es st = Inr st' \<Longrightarrow>
   \<exists>rows. expenses (bdb st') = expenses (bdb st) @ rows
     \<and> map e_id rows = map be_id es
     \<and> (\<forall>r\<in>set rows. e_groupId r = gid)
     \<and> participants (bdb st') = participants (bdb st)
     \<and> groups (bdb st') = groups (bdb st)"
proof (induction es arbitrary: st)
  case Nil
  then show ?case by simp
next
  case (Cons e es)
  from Cons.prems obtain st1 where 1: "restoreExpense env gid e st = Inr st1"
    and 2: "forE (restoreExpense env gid) es st1 = Inr st'"
    by (auto simp: bindE_Inr)
  from Cons.IH[OF 2] obtain rows where r: "expenses (bdb st') = expenses (bdb st1) @ rows"
     "map e_id rows = map be_id es"
     "\<forall>r\<in>set rows. e_groupId r = gid"
     "participants (bdb st') = participants (bdb st1)"
     "groups (bdb st') = groups (bdb st1)"
    by blast
  from restoreExpense_Inr[OF 1] obtain row where
      "expenses (bdb st1) = expenses (bdb st) @ [row]" "e_id row = be_id e"
      "e_groupId row = gid" "participants (bdb st1) = participants (bdb st)"
      "groups (bdb st1) = groups (bdb st)" by blast
  with r show ?case by (intro exI[of _ "row # rows"]) simp
qed

lemma restoreActivitiesStep_core:
  "restoreActivitiesStep env bd m s = Inr s' \<Longrightarrow> core s' = core s"
  using forE_invariant[of "b_activities bd" "backupActivity env (bg_id (b_group bd))" core s s']
    backupActivity_core
  by (auto simp: restoreActivitiesStep_def split: if_splits)

lemma restoreBackup_create_Inr:
  assumes "restoreGroupFromBackup env bd Create s = Inr st"
  shows "\<exists>rows. map g_id (groups (bdb st)) = map g_id (groups s) @ [bg_id (b_group bd)]
     \<and> participants (bdb st) = participants s @ map (participantRow (bg_id (b_group bd))) (b_participants bd)
     \<and> expenses (bdb st) = expenses s @ rows
     \<and> map e_id rows = map be_id (b_expenses bd)
     \<and> (\<forall>r\<in>set rows. e_groupId r = bg_id (b_group bd))"
proof -
  let ?g = "bg_id (b_group bd)"
  from assms obtain s1 s2 st3 where
    1: "restoreGroupStep env (b_group bd) Create s = Inr s1"
    and 2: "forE (backupParticipant env ?g) (b_participants bd) s1 = Inr s2"
    and 3: "forE (restoreExpense env ?g) (b_expenses bd) \<lparr>bdb = s2, warnings = []\<rparr> = Inr st3"
    and 4: "onStore (restoreActivitiesStep env bd Create) st3 = Inr st"
    by (auto simp: restoreGroupFromBackup_def bindE_Inr restoreParticipantsStep_def
          restoreExpensesStep_def Let_def)
  from 1 obtain row where g: "s1 = s\<lparr>groups := groups s @ [row]\<rparr>" "g_id row = ?g"
    by (auto simp: restoreGroupStep_def bindE_Inr dest!: group_create_Inr)
  from forE_restoreExpense_Inr[OF 3] obtain rows where r:
    "expenses (bdb st3) = expenses s2 @ rows" "map e_id rows = map be_id (b_expenses bd)"
    "\<forall>r\<in>set rows. e_groupId r = ?g" "participants (bdb st3) = participants s2"
    "groups (bdb st3) = groups s2"
    by auto
  from 4 have "core (bdb st) = core (bdb st3)"
    by (auto simp: onStore_Inr dest: restoreActivitiesStep_core)
  with g forE_backupParticipant_Inr[OF 2] r show ?thesis
    by (intro exI[of _ rows]) (simp add: core_def)
qed

lemma restoreBackup_rollback_Inr:
  assumes "restoreGroupFromBackup env bd Rollback s = Inr st"
  shows "\<exists>rows. hasGroup s (bg_id (b_group bd))
     \<and> map g_id (groups (bdb st)) = map g_id (groups s)
     \<and> filter (\<lambda>p. p_groupId p = bg_id (b_group bd)) (participants (bdb st))
         = map (participantRow (bg_id (b_group bd))) (b_participants bd)
     \<and> filter (\<lambda>e. e_groupId e = bg_id (b_group bd)) (expenses (bdb st)) = rows
     \<and> map e_id rows = map be_id (b_expenses bd)"
proof -
  let ?g = "bg_id (b_group bd)"
  define s3 where "s3 =
    participant_deleteMany env (\<lambda>p. p_groupId p = ?g)
      (expense_deleteMany env (\<lambda>e. e_groupId e = ?g)
        (activity_deleteMany (\<lambda>a. a_groupId a = ?g) s))"
  have d: "groups s3 = groups s"
    "filter (\<lambda>p. p_groupId p = ?g) (participants s3) = []"
    "filter (\<lambda>e. e_groupId e = ?g) (expenses s3) = []"
    by (auto simp: s3_def activity_deleteMany_def
        participant_deleteMany_tables expense_deleteMany_tables2 filter_empty_conv)
  from assms obtain s1 s2 st3 where
    1: "group_update ?g (setBackupMetadata (b_group bd)) s3 = Inr s1"
    and 2: "forE (backupParticipant env ?g) (b_participants bd) s1 = Inr s2"
    and 3: "forE (restoreExpense env ?g) (b_expenses bd) \<lparr>bdb = s2, warnings = []\<rparr> = Inr st3"
    and 4: "onStore (restoreActivitiesStep env bd Rollback) st3 = Inr st"
    by (auto simp: restoreGroupFromBackup_def bindE_Inr restoreParticipantsStep_def
          restoreExpensesStep_def restoreGroupStep_def Let_def s3_def)
  from forE_restoreExpense_Inr[OF 3] obtain rows where r:
    "expenses (bdb st3) = expenses s2 @ rows" "map e_id rows = map be_id (b_expenses bd)"
    "\<forall>r\<in>set rows. e_groupId r = ?g" "participants (bdb st3) = participants s2"
    "groups (bdb st3) = groups s2"
    by auto
  from 4 have c: "core (bdb st) = core (bdb st3)"
    by (auto simp: onStore_Inr dest: restoreActivitiesStep_core)
  have i: "\<And>g. g_id (setBackupMetadata (b_group bd) g) = g_id g"
    by (simp add: setBackupMetadata_def)
  from group_update_Inr[OF 1] forE_backupParticipant_Inr[OF 2] r d c
  have "hasGroup s ?g" "map g_id (groups (bdb st)) = map g_id (groups s)"
    "filter (\<lambda>p. p_groupId p = ?g) (participants (bdb st)) = map (participantRow ?g) (b_participants bd)"
    "filter (\<lambda>e. e_groupId e = ?g) (expenses (bdb st)) = rows"
    by (simp_all add: i map_g_id_update hasGroup_def participantRow_def filter_id_conv o_def core_def)
  with r(2) show ?thesis by blast
qed

lemma restoreBackup_update_Inr:
  assumes "restoreGroupFromBackup env bd Update s = Inr st"
  shows "\<exists>rows. groups (bdb st) = groups s
     \<and> participants (bdb st) = participants s
          @ map (participantRow (bg_id (b_group bd)))
              (filter (\<lambda>p. pr_id p \<notin> set (groupParticipantIds s (bg_id (b_group bd)))) (b_participants bd))
     \<and> expenses (bdb st) = expenses s @ rows
     \<and> map e_id rows = map be_id (filter (\<lambda>e. be_id e \<notin> set (groupExpenseIds s (bg_id (b_group bd)))) (b_expenses bd))
     \<and> (\<forall>r\<in>set rows. e_groupId r = bg_id (b_group bd))"
proof -
  let ?g = "bg_id (b_group bd)"
  from assms obtain s2 st3 where
    2: "forE (addMissingParticipant env ?g (groupParticipantIds s ?g)) (b_participants bd) s = Inr s2"
    and 3: "forE (addMissingExpense env ?g (groupExpenseIds s2 ?g)) (b_expenses bd)
              \<lparr>bdb = s2, warnings = []\<rparr> = Inr st3"
    and 4: "onStore (restoreActivitiesStep env bd Update) st3 = Inr st"
    by (auto simp: restoreGroupFromBackup_def bindE_Inr restoreParticipantsStep_def
          restoreExpensesStep_def restoreGroupStep_def Let_def groupParticipantIds_def
          groupExpenseIds_def)
  note p = forE_addMissingParticipant_Inr[OF 2]
  then have e: "groupExpenseIds s2 ?g = groupExpenseIds s ?g" by (simp add: groupExpenseIds_def)
  from forE_addMissingExpense_Inr[OF 3] e obtain rows where r:
    "expenses (bdb st3) = expenses s2 @ rows"
    "map e_id rows = map be_id (filter (\<lambda>e. be_id e \<notin> set (groupExpenseIds s ?g)) (b_expenses bd))"
    "\<forall>r\<in>set rows. e_groupId r = ?g" "participants (bdb st3) = participants s2"
    "groups (bdb st3) = groups s2"
    by auto
  from 4 have c: "core (bdb st) = core (bdb st3)"
    by (auto simp: onStore_Inr dest: restoreActivitiesStep_core)
  from p r c show ?thesis
    by (intro exI[of _ rows]) (simp add: core_def)
qed

lemma filter_group_rows: "\<forall>r\<in>set rows. e_groupId r = g \<Longrightarrow> filter (\<lambda>e. e_groupId e = g) rows = rows"
  by (simp add: filter_id_conv)

lemma filter_group_prows: "\<forall>r\<in>set rows. p_groupId r = g \<Longrightarrow> filter (\<lambda>e. p_groupId e = g) rows = rows"
  by (simp add: filter_id_conv)

lemma participantRow_simps [simp]:
  "p_id (participantRow g p) = pr_id p" "p_groupId (participantRow g p) = g"
  by (simp_all add: participantRow_def)

subsection \<open>Identifiers written by a restore\<close>

text \<open>
  C5, as the code has it. A restore from a full backup that returns has written its
  participants and expenses under the snapshot's identifiers in every mode: after \<open>create\<close>
  the group's rows are those it had followed by the snapshot's, after \<open>rollback\<close> they are
  exactly the snapshot's, after \<open>update\<close> those it had followed by the snapshot's whose
  identifier the group did not have; \<open>create\<close> adds a Group row with the snapshot's
  identifier, the other modes keep the identifiers of the Group rows. A restore from the
  lightweight format that returns has done the same for the Group and the participants
  (\<open>update\<close> adding the snapshot's participants the group lacked), and has given every expense
  it wrote, in every mode, an identifier drawn from \<open>randomUUID()\<close>.
\<close>

theorem restored_identifiers:
  "(restoreGroupFromBackup env bd m s = Inr st \<longrightarrow>
      (m = Create \<longrightarrow> map g_id (groups (bdb st)) = map g_id (groups s) @ [bg_id (b_group bd)])
    \<and> (m \<noteq> Create \<longrightarrow> map g_id (groups (bdb st)) = map g_id (groups s))
    \<and> groupParticipantIds (bdb st) (bg_id (b_group bd)) =
        (case m of
           Create \<Rightarrow> groupParticipantIds s (bg_id (b_group bd)) @ map pr_id (b_participants bd)
         | Rollback \<Rightarrow> map pr_id (b_participants bd)
         | Update \<Rightarrow> groupParticipantIds s (bg_id (b_group bd))
             @ filter (\<lambda>i. i \<notin> set (groupParticipantIds s (bg_id (b_group bd))))
                 (map pr_id (b_participants bd)))
    \<and> groupExpenseIds (bdb st) (bg_id (b_group bd)) =
        (case m of
           Create \<Rightarrow> groupExpenseIds s (bg_id (b_group bd)) @ map be_id (b_expenses bd)
         | Rollback \<Rightarrow> map be_id (b_expenses bd)
         | Update \<Rightarrow> groupExpenseIds s (bg_id (b_group bd))
             @ filter (\<lambda>i. i \<notin> set (groupExpenseIds s (bg_id (b_group bd))))
                 (map be_id (b_expenses bd))))
   \<and> (restoreGroupFromJSON env jd m w = Inr w' \<longrightarrow>
      (m = Create \<longrightarrow> map g_id (groups (db w')) = map g_id (groups (db w)) @ [j_id jd])
    \<and> (m \<noteq> Create \<longrightarrow> map g_id (groups (db w')) = map g_id (groups (db w)))
    \<and> (m = Create \<longrightarrow> groupParticipantIds (db w') (j_id jd)
          = groupParticipantIds (db w) (j_id jd) @ map pr_id (j_participants jd))
    \<and> (m = Rollback \<longrightarrow> groupParticipantIds (db w') (j_id jd) = map pr_id (j_participants jd))
    \<and> (m = Update \<longrightarrow> (\<exists>added. groupParticipantIds (db w') (j_id jd)
                          = groupParticipantIds (db w) (j_id jd) @ added
          \<and> set added = set (map pr_id (j_participants jd)) - set (groupParticipantIds (db w) (j_id jd))))
    \<and> groupExpenseIds (db w') (j_id jd) =
        (case m of
           Create \<Rightarrow> groupExpenseIds (db w) (j_id jd)
             @ uuidsFrom env (uuidCalls w + 1) (length (j_expenses jd))
         | Rollback \<Rightarrow> uuidsFrom env (uuidCalls w + 1) (length (j_expenses jd))
         | Update \<Rightarrow> groupExpenseIds (db w) (j_id jd)
             @ uuidsFrom env (uuidCalls w + 1)
                 (length (filter (isNewKey env (groupExpenseKeys (db w) (j_id jd))) (j_expenses jd)))))"
proof (intro conjI impI)
  assume a: "restoreGroupFromBackup env bd m s = Inr st"
  show "groupParticipantIds (bdb st) (bg_id (b_group bd)) =
        (case m of
           Create \<Rightarrow> groupParticipantIds s (bg_id (b_group bd)) @ map pr_id (b_participants bd)
         | Rollback \<Rightarrow> map pr_id (b_participants bd)
         | Update \<Rightarrow> groupParticipantIds s (bg_id (b_group bd))
             @ filter (\<lambda>i. i \<notin> set (groupParticipantIds s (bg_id (b_group bd))))
                 (map pr_id (b_participants bd)))"
  proof (cases m)
    case Create
    with restoreBackup_create_Inr[of env bd s st] a show ?thesis
      by (auto simp: groupParticipantIds_def o_def)
  next
    case Update
    with restoreBackup_update_Inr[of env bd s st] a show ?thesis
      by (auto simp: groupParticipantIds_def o_def filter_map)
  next
    case Rollback
    with restoreBackup_rollback_Inr[of env bd s st] a show ?thesis
      by (auto simp: groupParticipantIds_def o_def)
  qed
  show "groupExpenseIds (bdb st) (bg_id (b_group bd)) =
        (case m of
           Create \<Rightarrow> groupExpenseIds s (bg_id (b_group bd)) @ map be_id (b_expenses bd)
         | Rollback \<Rightarrow> map be_id (b_expenses bd)
         | Update \<Rightarrow> groupExpenseIds s (bg_id (b_group bd))
             @ filter (\<lambda>i. i \<notin> set (groupExpenseIds s (bg_id (b_group bd))))
                 (map be_id (b_expenses bd)))"
  proof (cases m)
    case Create
    with restoreBackup_create_Inr[of env bd s st] a show ?thesis
      by (auto simp: groupExpenseIds_def filter_group_rows)
  next
    case Update
    with restoreBackup_update_Inr[of env bd s st] a show ?thesis
      by (auto simp: groupExpenseIds_def filter_group_rows filter_map o_def)
  next
    case Rollback
    with restoreBackup_rollback_Inr[of env bd s st] a show ?thesis
      by (auto simp: groupExpenseIds_def)
  qed
  { assume "m = Create"
    with restoreBackup_create_Inr[of env bd s st] a
    show "map g_id (groups (bdb st)) = map g_id (groups s) @ [bg_id (b_group bd)]" by auto }
  { assume "m \<noteq> Create"
    with restoreBackup_update_Inr[of env bd s st] restoreBackup_rollback_Inr[of env bd s st] a
    show "map g_id (groups (bdb st)) = map g_id (groups s)" by (cases m) auto }
next
  assume a: "restoreGroupFromJSON env jd m w = Inr w'"
  { assume "m = Create"
    with restoreJSON_create_Inr[of env jd w w'] a
    show "map g_id (groups (db w')) = map g_id (groups (db w)) @ [j_id jd]"
      and "groupParticipantIds (db w') (j_id jd)
          = groupParticipantIds (db w) (j_id jd) @ map pr_id (j_participants jd)"
      by (auto simp: groupParticipantIds_def o_def) }
  { assume "m \<noteq> Create"
    with restoreJSON_update_Inr[of env jd w w'] restoreJSON_rollback_Inr[of env jd w w'] a
    show "map g_id (groups (db w')) = map g_id (groups (db w))" by (cases m) auto }
  { assume "m = Rollback"
    with restoreJSON_rollback_Inr[of env jd w w'] a
    show "groupParticipantIds (db w') (j_id jd) = map pr_id (j_participants jd)"
      by (auto simp: groupParticipantIds_def o_def) }
  { assume "m = Update"
    with restoreJSON_update_Inr[of env jd w w'] a
    obtain prows where "participants (db w') = participants (db w) @ prows"
      "\<forall>r\<in>set prows. p_groupId r = j_id jd"
      "set (map p_id prows) = set (map pr_id (j_participants jd)) - set (groupParticipantIds (db w) (j_id jd))"
      by blast
    then show "\<exists>added. groupParticipantIds (db w') (j_id jd)
                          = groupParticipantIds (db w) (j_id jd) @ added
          \<and> set added = set (map pr_id (j_participants jd)) - set (groupParticipantIds (db w) (j_id jd))"
      by (intro exI[of _ "map p_id prows"]) (simp add: groupParticipantIds_def filter_group_prows) }
  show "groupExpenseIds (db w') (j_id jd) =
        (case m of
           Create \<Rightarrow> groupExpenseIds (db w) (j_id jd)
             @ uuidsFrom env (uuidCalls w + 1) (length (j_expenses jd))
         | Rollback \<Rightarrow> uuidsFrom env (uuidCalls w + 1) (length (j_expenses jd))
         | Update \<Rightarrow> groupExpenseIds (db w) (j_id jd)
             @ uuidsFrom env (uuidCalls w + 1)
                 (length (filter (isNewKey env (groupExpenseKeys (db w) (j_id jd))) (j_expenses jd))))"
  proof (cases m)
    case Create
    with restoreJSON_create_Inr[of env jd w w'] a show ?thesis
      by (auto simp: groupExpenseIds_def filter_group_rows)
  next
    case Rollback
    with restoreJSON_rollback_Inr[of env jd w w'] a show ?thesis
      by (auto simp: groupExpenseIds_def)
  next
    case Update
    with restoreJSON_update_Inr[of env jd w w'] a obtain rows where r:
      "expenses (db w') = expenses (db w) @ rows"
      "map e_id rows = uuidsFrom env (uuidCalls w + 1) (length rows)"
      "\<forall>r\<in>set rows. e_groupId r = j_id jd"
      "map (\<lambda>r. (Some (e_expenseDate r), e_title r)) rows
         = map (\<lambda>e. (newDate env (je_expenseDate e), je_title e))
             (filter (isNewKey env (groupExpenseKeys (db w) (j_id jd))) (j_expenses jd))"
      by blast
    from r(4) have "length rows = length (filter (isNewKey env (groupExpenseKeys (db w) (j_id jd))) (j_expenses jd))"
      by (metis length_map)
    with r Update show ?thesis by (simp add: groupExpenseIds_def filter_group_rows)
  qed
qed

subsection \<open>Evaluation on the examples\<close>

lemmas store_ops =
  hasGroup_def hasParticipant_def hasExpense_def hasCategory_def refused_def dateArg_def
  splitModeArg_def recurrenceRuleArg_def participant_create_def group_create_def
  group_update_def paidFor_create_def expense_create_def activity_create_def
  category_findFirst_def category_create_def document_upsert_def link_create_def
  paidFor_deleteMany_def activity_deleteMany_def expense_deleteMany_def
  participant_deleteMany_def transaction_def bindE_def

lemmas json_restore =
  restoreGroupFromJSON_def importExpense_def validateExpense_def resolveCategory_def
  jsonExpenseRow_def jsonExpenseActivity_def importMarker_def expenseKey_def
  addNewParticipant_def recreateParticipant_def addNewExpense_def setGroupMetadata_def
  mapSplitMode_def mapRecurrenceRule_def

lemmas backup_restore =
  restoreGroupFromBackup_def restoreGroupStep_def restoreParticipantsStep_def
  restoreExpensesStep_def restoreActivitiesStep_def restoreExpense_def addMissingExpense_def
  backupExpenseCreate_def backupExpenseRow_def backupPaidFor_def backupDocument_def
  backupLink_def backupParticipant_def addMissingParticipant_def backupActivity_def
  setBackupMetadata_def decimalArg_def onStore_def

lemmas examples =
  exEnv_def emptyStore_def exJSON_def exJSONExpense_def exBackup_def exBackupExpense_def
  exGroupRow_def exExpenseRow_def exLiveStore_def day0_def day1_def exDanglingJSON_def
  exDanglingBackup_def exLunchJSON_def exLunchBackup_def

lemma ex_backup_create:
  "\<exists>st. restoreGroupFromBackup (exEnv True) (exBackup day1 [exBackupExpense ''e1'' day0 ''Lunch'' ''p1'' [''p1'', ''p2'']])
      Create emptyStore = Inr st"
  by (simp add: store_ops backup_restore examples Let_def)

lemma ex_json_create:
  "\<exists>w'. restoreGroupFromJSON (exEnv True) (exJSON [exJSONExpense day0 ''Lunch'' ''p1'' [''p1'', ''p2'']])
      Create \<lparr>db = emptyStore, uuidCalls = 0\<rparr> = Inr w'"
  by (simp add: store_ops json_restore examples Let_def)

lemma forE_noop: "(\<And>x. x \<in> set xs \<Longrightarrow> body x s = Inr s) \<Longrightarrow> forE body xs s = Inr s"
  by (induction xs) (simp_all add: bindE_def)

lemma rerun_simps [simp]:
  "newDate (rerun env u t n c) = newDate env"
  "enforceFK (rerun env u t n c) = enforceFK env"
  by (simp_all add: rerun_def)

lemma json_update_covers:
  assumes "restoreGroupFromJSON env jd Update w = Inr w1"
  shows "hasGroup (db w1) (j_id jd)"
    and "set (map pr_id (j_participants jd)) \<subseteq> set (groupParticipantIds (db w1) (j_id jd))"
    and "\<forall>e\<in>set (j_expenses jd). \<exists>t. newDate env (je_expenseDate e) = Some t
            \<and> (t, je_title e) \<in> set (groupExpenseKeys (db w1) (j_id jd))"
proof -
  let ?g = "j_id jd"
  from restoreJSON_update_Inr[OF assms] obtain prows rows where f:
    "hasGroup (db w) ?g"
    "map g_id (groups (db w1)) = map g_id (groups (db w))"
    "participants (db w1) = participants (db w) @ prows"
    "\<forall>r\<in>set prows. p_groupId r = ?g"
    "set (map p_id prows) = set (map pr_id (j_participants jd)) - set (groupParticipantIds (db w) ?g)"
    "expenses (db w1) = expenses (db w) @ rows"
    "\<forall>r\<in>set rows. e_groupId r = ?g"
    "map (\<lambda>r. (Some (e_expenseDate r), e_title r)) rows
         = map (\<lambda>e. (newDate env (je_expenseDate e), je_title e))
             (filter (isNewKey env (groupExpenseKeys (db w) ?g)) (j_expenses jd))"
    "\<forall>e\<in>set (j_expenses jd). newDate env (je_expenseDate e) \<noteq> None"
    by blast
  from f(1,2) show "hasGroup (db w1) ?g" by (simp add: hasGroup_def)
  from f(3,4,5) show "set (map pr_id (j_participants jd)) \<subseteq> set (groupParticipantIds (db w1) ?g)"
    by (auto simp: groupParticipantIds_def filter_group_prows)
  show "\<forall>e\<in>set (j_expenses jd). \<exists>t. newDate env (je_expenseDate e) = Some t
            \<and> (t, je_title e) \<in> set (groupExpenseKeys (db w1) ?g)"
  proof
    fix e assume e: "e \<in> set (j_expenses jd)"
    with f(9) obtain t where t: "newDate env (je_expenseDate e) = Some t" by auto
    have k: "groupExpenseKeys (db w1) ?g
               = groupExpenseKeys (db w) ?g @ map (\<lambda>r. (e_expenseDate r, e_title r)) rows"
      using f(6,7) by (simp add: groupExpenseKeys_def filter_group_rows)
    show "\<exists>t. newDate env (je_expenseDate e) = Some t \<and> (t, je_title e) \<in> set (groupExpenseKeys (db w1) ?g)"
    proof (cases "isNewKey env (groupExpenseKeys (db w) ?g) e")
      case True
      with e have "(newDate env (je_expenseDate e), je_title e)
          \<in> set (map (\<lambda>e. (newDate env (je_expenseDate e), je_title e))
                (filter (isNewKey env (groupExpenseKeys (db w) ?g)) (j_expenses jd)))" by auto
      with f(8) t have "(Some t, je_title e) \<in> set (map (\<lambda>r. (Some (e_expenseDate r), e_title r)) rows)"
        by simp
      then have "(t, je_title e) \<in> set (map (\<lambda>r. (e_expenseDate r, e_title r)) rows)" by auto
      with k t show ?thesis by simp
    next
      case False
      with t have "(t, je_title e) \<in> set (groupExpenseKeys (db w) ?g)" by (simp add: isNewKey_def)
      with k t show ?thesis by simp
    qed
  qed
qed

lemma json_update_again:
  assumes g: "hasGroup s (j_id jd)"
    and p: "set (map pr_id (j_participants jd)) \<subseteq> set (groupParticipantIds s (j_id jd))"
    and e: "\<forall>e\<in>set (j_expenses jd). \<exists>t. newDate env (je_expenseDate e) = Some t
            \<and> (t, je_title e) \<in> set (groupExpenseKeys s (j_id jd))"
  shows "case restoreGroupFromJSON env jd Update \<lparr>db = s, uuidCalls = k\<rparr> of
           Inl err \<Rightarrow> True
         | Inr w2 \<Rightarrow> expenses (db w2) = expenses s \<and> participants (db w2) = participants s"
proof (cases "activity_create env (importMarker env jd Update k) s")
  case (Inl err)
  with g show ?thesis by (simp add: restoreGroupFromJSON_def bindE_def Let_def)
next
  case (Inr s1)
  let ?g = "j_id jd"
  from activity_create_Inr[OF Inr] have s1: "s1 = s\<lparr>activities := activities s @ [importMarker env jd Update k]\<rparr>" .
  define s2 where "s2 = s1\<lparr>groups := map (\<lambda>g. if g_id g = ?g then setGroupMetadata jd g else g) (groups s1)\<rparr>"
  have u: "group_update ?g (setGroupMetadata jd) s1 = Inr s2"
    using g s1 by (simp add: group_update_def hasGroup_def s2_def)
  have pl: "forE (addNewParticipant env ?g) (j_participants jd) (groupParticipantIds s ?g, s2)
              = Inr (groupParticipantIds s ?g, s2)"
    using p by (intro forE_noop) (auto simp: addNewParticipant_def)
  have el: "forE (addNewExpense env ?g (groupParticipantIds s ?g) (groupExpenseKeys s ?g))
              (j_expenses jd) \<lparr>db = s2, uuidCalls = k + 1\<rparr> = Inr \<lparr>db = s2, uuidCalls = k + 1\<rparr>"
    using e by (intro forE_noop) (auto simp: addNewExpense_def expenseKey_def bindE_def)
  have "restoreGroupFromJSON env jd Update \<lparr>db = s, uuidCalls = k\<rparr> = Inr \<lparr>db = s2, uuidCalls = k + 1\<rparr>"
    using g Inr u pl el
    by (simp add: restoreGroupFromJSON_def bindE_def Let_def groupParticipantIds_def groupExpenseKeys_def)
  then show ?thesis by (simp add: s2_def s1)
qed

lemma backup_update_again:
  assumes p: "set (map pr_id (b_participants bd)) \<subseteq> set (groupParticipantIds s (bg_id (b_group bd)))"
    and e: "set (map be_id (b_expenses bd)) \<subseteq> set (groupExpenseIds s (bg_id (b_group bd)))"
  shows "restoreGroupFromBackup env bd Update s = Inr \<lparr>bdb = s, warnings = []\<rparr>"
proof -
  let ?g = "bg_id (b_group bd)"
  have pl: "forE (addMissingParticipant env ?g (groupParticipantIds s ?g)) (b_participants bd) s = Inr s"
    using p by (intro forE_noop) (auto simp: addMissingParticipant_def)
  have el: "forE (addMissingExpense env ?g (groupExpenseIds s ?g)) (b_expenses bd)
              \<lparr>bdb = s, warnings = []\<rparr> = Inr \<lparr>bdb = s, warnings = []\<rparr>"
    using e by (intro forE_noop) (auto simp: addMissingExpense_def)
  from pl el show ?thesis
    by (simp add: restoreGroupFromBackup_def restoreGroupStep_def restoreParticipantsStep_def
        restoreExpensesStep_def restoreActivitiesStep_def bindE_def onStore_def Let_def
        groupParticipantIds_def groupExpenseIds_def)
qed

subsection \<open>Update twice\<close>

text \<open>
  C7. When an update-mode restore of a snapshot has succeeded, a second update-mode run
  with the same snapshot on the store it left, with its own identifiers, clocks and network
  answers, adds no Expense row and no Participant row: in the lightweight format the two
  tables are the same after the handler's transaction, whether the second run commits or is
  undone; in the full-backup format the second run returns and leaves the whole store as it
  was.
\<close>

theorem update_twice_adds_nothing:
  "(restoreGroupFromJSON env jd Update w = Inr w1 \<longrightarrow>
      expenses (snd (runJSONRestore restoreGroupFromJSON (rerun env u t n c) jd Update (db w1)))
        = expenses (db w1)
    \<and> participants (snd (runJSONRestore restoreGroupFromJSON (rerun env u t n c) jd Update (db w1)))
        = participants (db w1))
   \<and> (restoreGroupFromBackup env bd Update s = Inr st1 \<longrightarrow>
      restoreGroupFromBackup (rerun env u t n c) bd Update (bdb st1) = Inr \<lparr>bdb = bdb st1, warnings = []\<rparr>
    \<and> snd (runBackupRestore restoreGroupFromBackup (rerun env u t n c) bd Update (bdb st1)) = bdb st1)"
proof (intro conjI impI)
  assume a: "restoreGroupFromJSON env jd Update w = Inr w1"
  note c = json_update_covers[OF a]
  from json_update_again[of "db w1" jd "rerun env u t n c" 0] c
  have "case restoreGroupFromJSON (rerun env u t n c) jd Update \<lparr>db = db w1, uuidCalls = 0\<rparr> of
           Inl err \<Rightarrow> True
         | Inr w2 \<Rightarrow> expenses (db w2) = expenses (db w1) \<and> participants (db w2) = participants (db w1)"
    by simp
  then show "expenses (snd (runJSONRestore restoreGroupFromJSON (rerun env u t n c) jd Update (db w1)))
        = expenses (db w1)"
    and "participants (snd (runJSONRestore restoreGroupFromJSON (rerun env u t n c) jd Update (db w1)))
        = participants (db w1)"
    by (auto simp: runJSONRestore_def transaction_def bindE_def split: sum.splits)
next
  assume a: "restoreGroupFromBackup env bd Update s = Inr st1"
  let ?g = "bg_id (b_group bd)"
  from restoreBackup_update_Inr[OF a] obtain rows where f:
    "participants (bdb st1) = participants s
          @ map (participantRow ?g) (filter (\<lambda>p. pr_id p \<notin> set (groupParticipantIds s ?g)) (b_participants bd))"
    "expenses (bdb st1) = expenses s @ rows"
    "map e_id rows = map be_id (filter (\<lambda>e. be_id e \<notin> set (groupExpenseIds s ?g)) (b_expenses bd))"
    "\<forall>r\<in>set rows. e_groupId r = ?g"
    by blast
  have p: "set (map pr_id (b_participants bd)) \<subseteq> set (groupParticipantIds (bdb st1) ?g)"
    using f(1) by (auto simp: groupParticipantIds_def o_def)
  have "groupExpenseIds (bdb st1) ?g = groupExpenseIds s ?g @ map e_id rows"
    using f(2,4) by (simp add: groupExpenseIds_def filter_group_rows)
  with f(3) have e: "set (map be_id (b_expenses bd)) \<subseteq> set (groupExpenseIds (bdb st1) ?g)"
    by auto
  from backup_update_again[OF p e]
  show r: "restoreGroupFromBackup (rerun env u t n c) bd Update (bdb st1) = Inr \<lparr>bdb = bdb st1, warnings = []\<rparr>" .
  then show "snd (runBackupRestore restoreGroupFromBackup (rerun env u t n c) bd Update (bdb st1)) = bdb st1"
    by (simp add: runBackupRestore_def transaction_def bindE_def)
qed

subsection \<open>Errors of a restore\<close>

lemma raisedByStore_simps [simp]:
  "raisedByStore (PrismaError p)" "raisedByStore DecimalError"
  "\<not> raisedByStore (InvalidPaidById i t)" "\<not> raisedByStore (InvalidParticipantId i t)"
  "\<not> raisedByStore GroupNotFound" "\<not> raisedByStore RangeError"
  by (simp_all add: raisedByStore_def)

lemma forE_error:
  assumes "\<And>x s e. x \<in> set xs \<Longrightarrow> body x s = Inl e \<Longrightarrow> P e"
  shows "forE body xs s = Inl e \<Longrightarrow> P e"
  using assms
proof (induction xs arbitrary: s)
  case Nil
  then show ?case by simp
next
  case (Cons x xs)
  from Cons.prems(1) consider "body x s = Inl e"
    | s1 where "body x s = Inr s1" "forE body xs s1 = Inl e"
    by (auto simp: bindE_Inl)
  then show ?case
  proof cases
    case 1
    then show ?thesis using Cons.prems(2)[of x s e] by simp
  next
    case 2
    show ?thesis
    proof (rule Cons.IH[OF 2(2)])
      fix y t e'
      assume "y \<in> set xs" "body y t = Inl e'"
      then show "P e'" using Cons.prems(2)[of y t e'] by simp
    qed
  qed
qed

lemma participant_create_error: "participant_create env row s = Inl e \<Longrightarrow> raisedByStore e"
  by (auto simp: participant_create_def split: if_splits)

lemma paidFor_create_error: "paidFor_create env row s = Inl e \<Longrightarrow> raisedByStore e"
  by (auto simp: paidFor_create_def split: if_splits)

lemma activity_create_error: "activity_create env row s = Inl e \<Longrightarrow> raisedByStore e"
  by (auto simp: activity_create_def split: if_splits)

lemma group_update_error: "group_update g change s = Inl e \<Longrightarrow> raisedByStore e"
  by (auto simp: group_update_def split: if_splits)

lemma document_upsert_error: "document_upsert env row s = Inl e \<Longrightarrow> raisedByStore e"
  by (auto simp: document_upsert_def split: if_splits)

lemma link_create_error: "link_create env row s = Inl e \<Longrightarrow> raisedByStore e"
  by (auto simp: link_create_def split: if_splits)

lemma dateArg_error: "dateArg m d = Inl e \<Longrightarrow> raisedByStore e"
  by (auto simp: dateArg_def split: option.splits)

lemma expense_create_error: "expense_create env row nested s = Inl e \<Longrightarrow> raisedByStore e"
  by (auto simp: expense_create_def split: if_splits
      elim!: forE_error[where P = raisedByStore, rotated] dest: paidFor_create_error)

lemma group_create_error: "group_create env row nested s = Inl e \<Longrightarrow> raisedByStore e"
  by (auto simp: group_create_def split: if_splits
      elim!: forE_error[where P = raisedByStore, rotated] dest: participant_create_error)

lemma importExpense_error:
  assumes "importExpense env gid ids e w = Inl err"
  shows "validateExpense ids e = Inl err \<or> raisedByStore err"
proof (cases "validateExpense ids e")
  case (Inl v)
  with assms show ?thesis by (simp add: importExpense_def bindE_def)
next
  case (Inr u)
  obtain cid s1 where rc: "resolveCategory (je_category e) (db w) = (cid, s1)"
    by (cases "resolveCategory (je_category e) (db w)")
  from assms Inr rc have "raisedByStore err"
    by (auto simp: importExpense_def bindE_Inl Let_def
        dest: dateArg_error expense_create_error activity_create_error)
  then show ?thesis ..
qed

lemma importExpense_invalid:
  "validateExpense ids e = Inl v \<Longrightarrow> importExpense env gid ids e w = Inl v"
  by (simp add: importExpense_def bindE_def)

lemma forE_importExpense_invalid:
  "validationFailure ids es = Some v \<Longrightarrow>
   \<exists>err. forE (importExpense env gid ids) es w = Inl err \<and> (err = v \<or> raisedByStore err)"
proof (induction es arbitrary: w)
  case Nil
  then show ?case by simp
next
  case (Cons e es)
  show ?case
  proof (cases "validateExpense ids e")
    case (Inl x)
    with Cons.prems have "x = v" by simp
    with Inl show ?thesis by (simp add: importExpense_invalid bindE_def)
  next
    case (Inr u)
    with Cons.prems have vf: "validationFailure ids es = Some v" by simp
    show ?thesis
    proof (cases "importExpense env gid ids e w")
      case (Inl err)
      with importExpense_error[OF Inl] Inr show ?thesis by (simp add: bindE_def)
    next
      case (Inr w1)
      with Cons.IH[OF vf, of w1] show ?thesis by (simp add: bindE_def)
    qed
  qed
qed

lemma validateExpense_Inl:
  "validateExpense ids e = Inl v \<Longrightarrow>
   (v = InvalidPaidById (je_paidById e) (je_title e) \<and> je_paidById e \<notin> set ids)
   \<or> (\<exists>pf\<in>set (je_paidFor e). v = InvalidParticipantId (pf_participantId pf) (je_title e)
         \<and> pf_participantId pf \<notin> set ids)"
  by (auto simp: validateExpense_def find_Some_iff split: if_splits option.splits)

lemma validateExpense_Inr:
  "validateExpense ids e = Inr u \<Longrightarrow>
   je_paidById e \<in> set ids \<and> (\<forall>pf\<in>set (je_paidFor e). pf_participantId pf \<in> set ids)"
  by (auto simp: validateExpense_def find_None_iff split: if_splits option.splits)

lemma validationFailure_Some:
  "validationFailure ids es = Some v \<Longrightarrow>
   \<exists>e\<in>set es. (v = InvalidPaidById (je_paidById e) (je_title e) \<and> je_paidById e \<notin> set ids)
   \<or> (\<exists>pf\<in>set (je_paidFor e). v = InvalidParticipantId (pf_participantId pf) (je_title e)
         \<and> pf_participantId pf \<notin> set ids)"
  by (induction es) (auto split: sum.splits dest: validateExpense_Inl)

lemma validationFailure_None:
  "validationFailure ids es = None \<Longrightarrow>
   \<forall>e\<in>set es. je_paidById e \<in> set ids \<and> (\<forall>pf\<in>set (je_paidFor e). pf_participantId pf \<in> set ids)"
  by (induction es) (auto split: sum.splits dest: validateExpense_Inr)

lemma restoreJSON_create_invalid:
  assumes "validationFailure (map pr_id (j_participants jd)) (j_expenses jd) = Some v"
  shows "\<exists>err. restoreGroupFromJSON env jd Create w = Inl err \<and> (err = v \<or> raisedByStore err)"
proof -
  let ?row = "\<lparr>g_id = j_id jd, g_name = j_name jd, g_information = None,
          g_currency = j_currency jd, g_currencyCode = j_currencyCode jd, g_createdAt = dbNow env\<rparr>"
  show ?thesis
  proof (cases "group_create env ?row (j_participants jd) (db w)")
    case (Inl err)
    with group_create_error[OF Inl] show ?thesis
      by (simp add: restoreGroupFromJSON_def bindE_def)
  next
    case (Inr s1)
    show ?thesis
    proof (cases "activity_create env (importMarker env jd Create (uuidCalls w)) s1")
      case (Inl err)
      with activity_create_error[OF Inl] Inr show ?thesis
        by (simp add: restoreGroupFromJSON_def bindE_def)
    next
      case (Inr s2)
      from forE_importExpense_invalid[OF assms, of env "j_id jd" "\<lparr>db = s2, uuidCalls = uuidCalls w + 1\<rparr>"]
        \<open>group_create env ?row (j_participants jd) (db w) = Inr s1\<close> Inr
      show ?thesis by (simp add: restoreGroupFromJSON_def bindE_def Let_def)
    qed
  qed
qed

lemma onStore_Inl: "onStore op st = Inl e \<longleftrightarrow> op (bdb st) = Inl e"
  by (cases "op (bdb st)") (simp_all add: onStore_def bindE_def)

lemma decimalArg_error: "decimalArg env v = Inl e \<Longrightarrow> raisedByStore e"
  by (auto simp: decimalArg_def split: option.splits if_splits)

lemma splitModeArg_error: "splitModeArg v = Inl e \<Longrightarrow> raisedByStore e"
  by (auto simp: splitModeArg_def split: if_splits)

lemma recurrenceRuleArg_error: "recurrenceRuleArg v = Inl e \<Longrightarrow> raisedByStore e"
  by (auto simp: recurrenceRuleArg_def split: option.splits if_splits)

lemma backupExpenseCreate_error: "backupExpenseCreate env gid e s = Inl err \<Longrightarrow> raisedByStore err"
  by (auto simp: backupExpenseCreate_def bindE_Inl
      dest: decimalArg_error dateArg_error splitModeArg_error recurrenceRuleArg_error
        expense_create_error)

lemma backupPaidFor_loop_error:
  "forE (backupPaidFor env e) pfs s = Inl err \<Longrightarrow> raisedByStore err"
  by (erule forE_error[rotated]) (auto simp: backupPaidFor_def dest: paidFor_create_error)

lemma backupDocument_loop_error:
  "forE (backupDocument env e) ds st = Inl err \<Longrightarrow> raisedByStore err"
  by (erule forE_error[rotated])
     (auto simp: backupDocument_def onStore_Inl split: if_splits dest: document_upsert_error)

lemma backupLink_error: "backupLink env gid e s = Inl err \<Longrightarrow> raisedByStore err"
  by (auto simp: backupLink_def bindE_Inl split: option.splits if_splits
      dest: dateArg_error link_create_error)

lemma restoreExpense_error: "restoreExpense env gid e st = Inl err \<Longrightarrow> raisedByStore err"
  by (auto simp: restoreExpense_def bindE_Inl onStore_Inl
      dest: backupExpenseCreate_error backupPaidFor_loop_error backupDocument_loop_error
        backupLink_error)

lemma addMissingExpense_error:
  "addMissingExpense env gid existing e st = Inl err \<Longrightarrow> raisedByStore err"
  by (auto simp: addMissingExpense_def bindE_Inl onStore_Inl split: if_splits
      dest: backupExpenseCreate_error backupPaidFor_loop_error backupDocument_loop_error)

lemma backupParticipant_error: "backupParticipant env gid p s = Inl err \<Longrightarrow> raisedByStore err"
  by (auto simp: backupParticipant_def dest: participant_create_error)

lemma addMissingParticipant_error:
  "addMissingParticipant env gid existing p s = Inl err \<Longrightarrow> raisedByStore err"
  by (auto simp: addMissingParticipant_def split: if_splits dest: backupParticipant_error)

lemma backupActivity_error: "backupActivity env gid a s = Inl err \<Longrightarrow> raisedByStore err"
  by (auto simp: backupActivity_def bindE_Inl dest: dateArg_error activity_create_error)

lemma restoreGroupStep_error: "restoreGroupStep env g m s = Inl err \<Longrightarrow> raisedByStore err"
  by (cases m)
     (auto simp: restoreGroupStep_def bindE_Inl Let_def
        dest: dateArg_error group_create_error group_update_error)

lemma restoreParticipantsStep_error:
  "restoreParticipantsStep env bd m s = Inl err \<Longrightarrow> raisedByStore err"
  by (auto simp: restoreParticipantsStep_def Let_def split: if_splits
      elim!: forE_error[where P = raisedByStore, rotated]
      dest: backupParticipant_error addMissingParticipant_error)

lemma restoreExpensesStep_error:
  "restoreExpensesStep env bd m st = Inl err \<Longrightarrow> raisedByStore err"
  by (auto simp: restoreExpensesStep_def Let_def split: if_splits
      elim!: forE_error[where P = raisedByStore, rotated]
      dest: restoreExpense_error addMissingExpense_error)

lemma restoreActivitiesStep_error:
  "restoreActivitiesStep env bd m s = Inl err \<Longrightarrow> raisedByStore err"
  by (auto simp: restoreActivitiesStep_def split: if_splits
      elim!: forE_error[where P = raisedByStore, rotated] dest: backupActivity_error)

lemma restoreGroupFromBackup_error:
  "restoreGroupFromBackup env bd m s = Inl err \<Longrightarrow> raisedByStore err"
  by (auto simp: restoreGroupFromBackup_def bindE_Inl onStore_Inl
      dest: restoreGroupStep_error restoreParticipantsStep_error restoreExpensesStep_error
        restoreActivitiesStep_error)

text \<open>
  C1, as the code has it. A create-mode restore of a lightweight snapshot with an expense
  whose payer or one of whose \<open>paidFor\<close> participants is not in the snapshot's participant
  list raises an error: the validation error of the first such expense, which names the
  missing identifier and that expense's title, unless the store refused an earlier write.
  The handler's transaction then leaves the store as it was. The full-backup restore has no
  such check: every error it raises is the store's or the decimal conversion's, none names
  an identifier and a title, and when it raises one the transaction leaves the store as it
  was.
\<close>

theorem dangling_reference_on_create:
  "((\<exists>e\<in>set (j_expenses jd).
       je_paidById e \<notin> set (map pr_id (j_participants jd))
       \<or> (\<exists>pf\<in>set (je_paidFor e). pf_participantId pf \<notin> set (map pr_id (j_participants jd)))) \<longrightarrow>
    (\<exists>err. restoreGroupFromJSON env jd Create \<lparr>db = s, uuidCalls = 0\<rparr> = Inl err
       \<and> (raisedByStore err
          \<or> validationFailure (map pr_id (j_participants jd)) (j_expenses jd) = Some err
            \<and> (\<exists>e\<in>set (j_expenses jd).
                  err = InvalidPaidById (je_paidById e) (je_title e)
                    \<and> je_paidById e \<notin> set (map pr_id (j_participants jd))
                  \<or> (\<exists>pf\<in>set (je_paidFor e).
                        err = InvalidParticipantId (pf_participantId pf) (je_title e)
                        \<and> pf_participantId pf \<notin> set (map pr_id (j_participants jd)))))
       \<and> runJSONRestore restoreGroupFromJSON env jd Create s
           = (ErrorResponse 500 ''Failed to process JSON file'' (Some err), s)))
   \<and> (restoreGroupFromBackup env bd m s = Inl err' \<longrightarrow>
        raisedByStore err'
        \<and> runBackupRestore restoreGroupFromBackup env bd m s
            = (ErrorResponse 500 ''Failed to process backup file'' (Some err'), s))"
proof (intro conjI impI)
  let ?ids = "map pr_id (j_participants jd)"
  assume d: "\<exists>e\<in>set (j_expenses jd). je_paidById e \<notin> set ?ids
       \<or> (\<exists>pf\<in>set (je_paidFor e). pf_participantId pf \<notin> set ?ids)"
  have "validationFailure ?ids (j_expenses jd) \<noteq> None"
  proof
    assume "validationFailure ?ids (j_expenses jd) = None"
    from validationFailure_None[OF this] d show False by blast
  qed
  then obtain v where v: "validationFailure ?ids (j_expenses jd) = Some v" by auto
  from restoreJSON_create_invalid[OF v, of env "\<lparr>db = s, uuidCalls = 0\<rparr>"]
  obtain err where e: "restoreGroupFromJSON env jd Create \<lparr>db = s, uuidCalls = 0\<rparr> = Inl err"
    "err = v \<or> raisedByStore err" by blast
  from e(1) have r: "runJSONRestore restoreGroupFromJSON env jd Create s
           = (ErrorResponse 500 ''Failed to process JSON file'' (Some err), s)"
    by (simp add: runJSONRestore_def transaction_def bindE_def)
  from e(2) v validationFailure_Some[OF v]
  have "raisedByStore err
          \<or> validationFailure ?ids (j_expenses jd) = Some err
            \<and> (\<exists>e\<in>set (j_expenses jd).
                  err = InvalidPaidById (je_paidById e) (je_title e)
                    \<and> je_paidById e \<notin> set ?ids
                  \<or> (\<exists>pf\<in>set (je_paidFor e).
                        err = InvalidParticipantId (pf_participantId pf) (je_title e)
                        \<and> pf_participantId pf \<notin> set ?ids))"
    by auto
  with e(1) r show "\<exists>err. restoreGroupFromJSON env jd Create \<lparr>db = s, uuidCalls = 0\<rparr> = Inl err
       \<and> (raisedByStore err
          \<or> validationFailure ?ids (j_expenses jd) = Some err
            \<and> (\<exists>e\<in>set (j_expenses jd).
                  err = InvalidPaidById (je_paidById e) (je_title e)
                    \<and> je_paidById e \<notin> set ?ids
                  \<or> (\<exists>pf\<in>set (je_paidFor e).
                        err = InvalidParticipantId (pf_participantId pf) (je_title e)
                        \<and> pf_participantId pf \<notin> set ?ids)))
       \<and> runJSONRestore restoreGroupFromJSON env jd Create s
           = (ErrorResponse 500 ''Failed to process JSON file'' (Some err), s)"
    by blast
next
  assume a: "restoreGroupFromBackup env bd m s = Inl err'"
  then show "raisedByStore err'" by (rule restoreGroupFromBackup_error)
  from a show "runBackupRestore restoreGroupFromBackup env bd m s
            = (ErrorResponse 500 ''Failed to process backup file'' (Some err'), s)"
    by (simp add: runBackupRestore_def transaction_def bindE_def)
qed

subsection \<open>The restore properties on the examples\<close>

text \<open>
  An expense paid by \<open>p3\<close> in a snapshot of \<open>p1\<close> and \<open>p2\<close>: the lightweight restore names
  \<open>p3\<close> and \<open>Dinner\<close>; the full-backup restore, on a store that enforces references, fails
  with the store's error. Both leave the empty store empty.
\<close>

theorem dangling_reference_on_create_witness:
  "je_paidById (exJSONExpense day0 ''Dinner'' ''p3'' [''p1'']) \<notin> set (map pr_id (j_participants exDanglingJSON))
   \<and> restoreGroupFromJSON (exEnv True) exDanglingJSON Create \<lparr>db = emptyStore, uuidCalls = 0\<rparr>
       = Inl (InvalidPaidById ''p3'' ''Dinner'')
   \<and> runJSONRestore restoreGroupFromJSON (exEnv True) exDanglingJSON Create emptyStore
       = (ErrorResponse 500 ''Failed to process JSON file'' (Some (InvalidPaidById ''p3'' ''Dinner'')),
          emptyStore)
   \<and> restoreGroupFromBackup (exEnv True) exDanglingBackup Create emptyStore
       = Inl (PrismaError (ForeignKeyConstraint ''Expense.paidById''))
   \<and> runBackupRestore restoreGroupFromBackup (exEnv True) exDanglingBackup Create emptyStore
       = (ErrorResponse 500 ''Failed to process backup file''
            (Some (PrismaError (ForeignKeyConstraint ''Expense.paidById''))), emptyStore)"
proof -
  have d: "je_paidById (exJSONExpense day0 ''Dinner'' ''p3'' [''p1'']) \<notin> set (map pr_id (j_participants exDanglingJSON))"
    and m: "exJSONExpense day0 ''Dinner'' ''p3'' [''p1''] \<in> set (j_expenses exDanglingJSON)"
    by (simp_all add: examples)
  have j: "restoreGroupFromJSON (exEnv True) exDanglingJSON Create \<lparr>db = emptyStore, uuidCalls = 0\<rparr>
       = Inl (InvalidPaidById ''p3'' ''Dinner'')"
    by (simp add: store_ops json_restore examples Let_def)
  have b: "restoreGroupFromBackup (exEnv True) exDanglingBackup Create emptyStore
       = Inl (PrismaError (ForeignKeyConstraint ''Expense.paidById''))"
    by (simp add: store_ops backup_restore examples Let_def)
  note t = dangling_reference_on_create[of exDanglingJSON "exEnv True" emptyStore exDanglingBackup Create
      "PrismaError (ForeignKeyConstraint ''Expense.paidById'')"]
  from t d m j have 1: "runJSONRestore restoreGroupFromJSON (exEnv True) exDanglingJSON Create emptyStore
       = (ErrorResponse 500 ''Failed to process JSON file'' (Some (InvalidPaidById ''p3'' ''Dinner'')),
          emptyStore)"
    by auto
  from t b have 2: "runBackupRestore restoreGroupFromBackup (exEnv True) exDanglingBackup Create emptyStore
       = (ErrorResponse 500 ''Failed to process backup file''
            (Some (PrismaError (ForeignKeyConstraint ''Expense.paidById''))), emptyStore)"
    by simp
  from d j b 1 2 show ?thesis by simp
qed

text \<open>
  C1 as stated fails for the full-backup format. On a store that enforces references the
  error is the store's and names neither \<open>p3\<close> nor \<open>Dinner\<close>; on a store that does not, no
  error is raised at all, the expense paid by \<open>p3\<close> is written and the Group is created.
\<close>

theorem backup_restore_does_not_validate:
  "map pr_id (b_participants exDanglingBackup) = [''p1'', ''p2'']
   \<and> map be_paidById (b_expenses exDanglingBackup) = [''p3'']
   \<and> restoreGroupFromBackup (exEnv True) exDanglingBackup Create emptyStore
       = Inl (PrismaError (ForeignKeyConstraint ''Expense.paidById''))
   \<and> map_sum id (map e_paidById \<circ> expenses \<circ> bdb)
       (restoreGroupFromBackup (exEnv False) exDanglingBackup Create emptyStore) = Inr [''p3'']
   \<and> map g_id (groups (snd (POST_backup (exEnv False) exDanglingBackup ''restore'' emptyStore))) = [''g1'']"
  by (simp add: store_ops backup_restore examples Let_def POST_backup_def POST_backup_with_def
      findGroupBackup_def compareVersions_def runBackupRestore_def)

text \<open>
  C5 as stated fails both ways: a lightweight \<open>create\<close> writes its expense under the value
  of the second \<open>randomUUID()\<close> call, the snapshot having no identifier for it; a full-backup
  \<open>update\<close> writes the added expense under the snapshot's identifier \<open>e1\<close>, not a fresh one.
\<close>

theorem create_synthesizes_update_preserves:
  "map_sum id (map e_id \<circ> expenses \<circ> db)
     (restoreGroupFromJSON (exEnv True) exLunchJSON Create \<lparr>db = emptyStore, uuidCalls = 0\<rparr>)
     = Inr [randomUUID (exEnv True) 1]
   \<and> map be_id (b_expenses exLunchBackup) = [''e1'']
   \<and> map_sum id (map e_id \<circ> expenses \<circ> bdb)
     (restoreGroupFromBackup (exEnv True) exLunchBackup Update (exLiveStore 0 [] [])) = Inr [''e1'']"
  by (simp add: store_ops json_restore backup_restore examples Let_def del: set_filter)

text \<open>
  A create-mode restore of a one-expense snapshot into a store without the group, in each
  format.
\<close>

theorem restored_identifiers_witness:
  "(\<exists>st. restoreGroupFromBackup (exEnv True) exLunchBackup Create emptyStore = Inr st
      \<and> map g_id (groups (bdb st)) = [''g1'']
      \<and> groupParticipantIds (bdb st) ''g1'' = [''p1'', ''p2'']
      \<and> groupExpenseIds (bdb st) ''g1'' = [''e1''])
   \<and> (\<exists>w'. restoreGroupFromJSON (exEnv True) exLunchJSON Create \<lparr>db = emptyStore, uuidCalls = 0\<rparr> = Inr w'
      \<and> map g_id (groups (db w')) = [''g1'']
      \<and> groupParticipantIds (db w') ''g1'' = [''p1'', ''p2'']
      \<and> groupExpenseIds (db w') ''g1'' = [randomUUID (exEnv True) 1])"
proof -
  obtain st where st: "restoreGroupFromBackup (exEnv True) exLunchBackup Create emptyStore = Inr st"
    using ex_backup_create by (auto simp: exLunchBackup_def)
  obtain w' where w': "restoreGroupFromJSON (exEnv True) exLunchJSON Create \<lparr>db = emptyStore, uuidCalls = 0\<rparr> = Inr w'"
    using ex_json_create by (auto simp: exLunchJSON_def)
  have i: "bg_id (b_group exLunchBackup) = ''g1''" "j_id exLunchJSON = ''g1''"
    "map pr_id (b_participants exLunchBackup) = [''p1'', ''p2'']"
    "map pr_id (j_participants exLunchJSON) = [''p1'', ''p2'']"
    "map be_id (b_expenses exLunchBackup) = [''e1'']" "length (j_expenses exLunchJSON) = 1"
    "groupParticipantIds emptyStore ''g1'' = []" "groupExpenseIds emptyStore ''g1'' = []"
    "groups emptyStore = []"
    by (simp_all add: examples groupParticipantIds_def groupExpenseIds_def)
  from restored_identifiers[of "exEnv True" exLunchBackup Create emptyStore st exLunchJSON
        "\<lparr>db = emptyStore, uuidCalls = 0\<rparr>" w'] st w' i
  have "map g_id (groups (bdb st)) = [''g1'']"
      "groupParticipantIds (bdb st) ''g1'' = [''p1'', ''p2'']"
      "groupExpenseIds (bdb st) ''g1'' = [''e1'']"
      "map g_id (groups (db w')) = [''g1'']"
      "groupParticipantIds (db w') ''g1'' = [''p1'', ''p2'']"
      "groupExpenseIds (db w') ''g1'' = [randomUUID (exEnv True) 1]"
    by (simp_all add: uuidsFrom_def)
  with st w' show ?thesis by simp
qed

text \<open>
  A live group without expenses, a snapshot with one: the first update adds it, the second
  adds nothing, in each format.
\<close>

theorem update_twice_adds_nothing_witness:
  "(\<exists>w1. restoreGroupFromJSON (exEnv True) exLunchJSON Update \<lparr>db = exLiveStore 0 [] [], uuidCalls = 0\<rparr> = Inr w1
      \<and> map e_title (expenses (db w1)) = [''Lunch'']
      \<and> expenses (snd (runJSONRestore restoreGroupFromJSON exSecondRun exLunchJSON Update (db w1)))
          = expenses (db w1)
      \<and> participants (snd (runJSONRestore restoreGroupFromJSON exSecondRun exLunchJSON Update (db w1)))
          = participants (db w1))
   \<and> (\<exists>st1. restoreGroupFromBackup (exEnv True) exLunchBackup Update (exLiveStore 0 [] []) = Inr st1
      \<and> map e_id (expenses (bdb st1)) = [''e1'']
      \<and> snd (runBackupRestore restoreGroupFromBackup exSecondRun exLunchBackup Update (bdb st1)) = bdb st1)"
proof -
  have "\<exists>w1. restoreGroupFromJSON (exEnv True) exLunchJSON Update \<lparr>db = exLiveStore 0 [] [], uuidCalls = 0\<rparr> = Inr w1
      \<and> map e_title (expenses (db w1)) = [''Lunch'']"
    by (simp add: store_ops json_restore examples Let_def del: set_filter)
  then obtain w1 where w1: "restoreGroupFromJSON (exEnv True) exLunchJSON Update \<lparr>db = exLiveStore 0 [] [], uuidCalls = 0\<rparr> = Inr w1"
      "map e_title (expenses (db w1)) = [''Lunch'']" by (elim exE conjE)
  have "\<exists>st1. restoreGroupFromBackup (exEnv True) exLunchBackup Update (exLiveStore 0 [] []) = Inr st1
      \<and> map e_id (expenses (bdb st1)) = [''e1'']"
    by (simp add: store_ops backup_restore examples Let_def del: set_filter)
  then obtain st1 where st1: "restoreGroupFromBackup (exEnv True) exLunchBackup Update (exLiveStore 0 [] []) = Inr st1"
      "map e_id (expenses (bdb st1)) = [''e1'']" by (elim exE conjE)
  from update_twice_adds_nothing[of "exEnv True" exLunchJSON "\<lparr>db = exLiveStore 0 [] [], uuidCalls = 0\<rparr>" w1
        "\<lambda>k. ''second-'' @ replicate k (CHR ''i'')" 95000000 95000000 "\<lambda>u. True"
        exLunchBackup "exLiveStore 0 [] []" st1] w1 st1
  show ?thesis by (auto simp: exSecondRun_def)
qed

subsection \<open>Split mode and recurrence rule\<close>

lemma forgetRow_simps [simp]:
  "e_id (forgetRow r) = e_id r" "e_groupId (forgetRow r) = e_groupId r"
  "e_expenseDate (forgetRow r) = e_expenseDate r" "e_title (forgetRow r) = e_title r"
  "e_paidById (forgetRow r) = e_paidById r" "e_categoryId (forgetRow r) = e_categoryId r"
  "forgetRow (forgetRow r) = forgetRow r"
  by (simp_all add: forgetRow_def)

lemma forget_tables [simp]:
  "groups (forget s) = groups s" "participants (forget s) = participants s"
  "paidFors (forget s) = paidFors s" "categories (forget s) = categories s"
  "activities (forget s) = activities s" "documents (forget s) = documents s"
  "links (forget s) = links s" "expenses (forget s) = map forgetRow (expenses s)"
  by (simp_all add: forget_def)

lemma forget_has [simp]:
  "hasGroup (forget s) = hasGroup s" "hasParticipant (forget s) = hasParticipant s"
  "hasExpense (forget s) = hasExpense s" "hasCategory (forget s) = hasCategory s"
  by (simp_all add: hasGroup_def hasParticipant_def hasExpense_def hasCategory_def fun_eq_iff o_def)

lemma forget_update [simp]:
  "forget (s\<lparr>participants := ps\<rparr>) = (forget s)\<lparr>participants := ps\<rparr>"
  "forget (s\<lparr>groups := gs\<rparr>) = (forget s)\<lparr>groups := gs\<rparr>"
  "forget (s\<lparr>paidFors := xs\<rparr>) = (forget s)\<lparr>paidFors := xs\<rparr>"
  "forget (s\<lparr>activities := as\<rparr>) = (forget s)\<lparr>activities := as\<rparr>"
  "forget (s\<lparr>categories := cs\<rparr>) = (forget s)\<lparr>categories := cs\<rparr>"
  "forget (s\<lparr>documents := ds\<rparr>) = (forget s)\<lparr>documents := ds\<rparr>"
  "forget (s\<lparr>links := ls\<rparr>) = (forget s)\<lparr>links := ls\<rparr>"
  "forget (s\<lparr>expenses := es\<rparr>) = (forget s)\<lparr>expenses := map forgetRow es\<rparr>"
  by (simp_all add: forget_def)

text \<open>Each operation, followed by forgetting, is the operation on the forgotten store.\<close>

lemma participant_create_forget:
  "map_sum id forget (participant_create env row s) = participant_create env row (forget s)"
  by (simp add: participant_create_def)

lemma paidFor_create_forget:
  "map_sum id forget (paidFor_create env row s) = paidFor_create env row (forget s)"
  by (simp add: paidFor_create_def)

lemma activity_create_forget:
  "map_sum id forget (activity_create env row s) = activity_create env row (forget s)"
  by (simp add: activity_create_def)

lemma group_update_forget:
  "map_sum id forget (group_update g change s) = group_update g change (forget s)"
  by (simp add: group_update_def)

lemma forE_forget:
  assumes "\<And>x s. map_sum id F (body x s) = body' x (F s)"
  shows "map_sum id F (forE body xs s) = forE body' xs (F s)"
proof (induction xs arbitrary: s)
  case Nil
  show ?case by simp
next
  case (Cons x xs)
  show ?case
  proof (cases "body x s")
    case (Inl e)
    with assms[of x s] have "body' x (F s) = Inl e" by simp
    with Inl show ?thesis by (simp add: bindE_def)
  next
    case (Inr s1)
    with assms[of x s] have "body' x (F s) = Inr (F s1)" by simp
    with Inr Cons.IH[of s1] show ?thesis by (simp add: bindE_def)
  qed
qed

lemma group_create_forget:
  "map_sum id forget (group_create env row nested s) = group_create env row nested (forget s)"
  by (simp add: group_create_def forE_forget[where body' = "\<lambda>p. participant_create env
                   \<lparr>p_id = pr_id p, p_groupId = g_id row, p_name = pr_name p\<rparr>"]
      participant_create_forget)

lemma expense_create_forget:
  "map_sum id forget (expense_create env row nested s)
     = expense_create env (forgetRow row) nested (forget s)"
  by (simp add: expense_create_def forE_forget[where body' = "\<lambda>pf. paidFor_create env
                   \<lparr>x_expenseId = e_id row, x_participantId = pf_participantId pf,
                    x_shares = pf_shares pf\<rparr>"]
      paidFor_create_forget)

lemma resolveCategory_forget:
  "map_prod id forget (resolveCategory c s) = resolveCategory c (forget s)"
  by (simp add: resolveCategory_def category_findFirst_def category_create_def Let_def
      split: option.splits)

lemma bindE_sim:
  assumes "map_sum id F m = map_sum id F m'"
    and "\<And>x x'. m = Inr x \<Longrightarrow> m' = Inr x' \<Longrightarrow> F x = F x' \<Longrightarrow>
           map_sum id G (k x) = map_sum id G (k' x')"
  shows "map_sum id G (bindE m k) = map_sum id G (bindE m' k')"
  using assms by (cases m; cases m') (simp_all add: bindE_def)

lemma forE_sim:
  assumes "\<And>x s s'. F s = F s' \<Longrightarrow> map_sum id F (body x s) = map_sum id F (body' x s')"
  shows "F s = F s' \<Longrightarrow> map_sum id F (forE body xs s) = map_sum id F (forE body' xs s')"
proof (induction xs arbitrary: s s')
  case Nil
  then show ?case by simp
next
  case (Cons x xs)
  show ?case
    unfolding forE.simps
  proof (rule bindE_sim)
    show "map_sum id F (body x s) = map_sum id F (body' x s')" using assms Cons.prems by simp
  next
    fix y y' assume "F y = F y'"
    then show "map_sum id F (forE body xs y) = map_sum id F (forE body' xs y')" by (rule Cons.IH)
  qed
qed

lemma forE_map: "forE body (map h xs) s = forE (\<lambda>x. body (h x)) xs s"
  by (induction xs arbitrary: s) (simp_all add: bindE_def split: sum.splits)

lemma sim_from_forget:
  assumes "\<And>s. map_sum id forget (op s) = op' (forget s)"
    and "\<And>s. map_sum id forget (op2 s) = op' (forget s)"
    and "forget s = forget s'"
  shows "map_sum id forget (op s) = map_sum id forget (op2 s')"
  using assms by simp

lemma forgetW_simps [simp]:
  "db (forgetW w) = forget (db w)" "uuidCalls (forgetW w) = uuidCalls w"
  by (simp_all add: forgetW_def)

lemma forgetW_eq: "forgetW w = forgetW w' \<longleftrightarrow> forget (db w) = forget (db w') \<and> uuidCalls w = uuidCalls w'"
  by (cases w; cases w') (simp add: forgetW_def)

lemma forgetRow_jsonExpenseRow:
  "forgetRow (jsonExpenseRow env gid i c d (e\<lparr>je_splitMode := v, je_recurrenceRule := r\<rparr>))
     = forgetRow (jsonExpenseRow env gid i c d e)"
  by (simp add: forgetRow_def jsonExpenseRow_def)

lemma jsonExpenseActivity_modes [simp]:
  "jsonExpenseActivity env gid a i (e\<lparr>je_splitMode := v, je_recurrenceRule := r\<rparr>)
     = jsonExpenseActivity env gid a i e"
  by (simp add: jsonExpenseActivity_def)

lemma validateExpense_modes [simp]:
  "validateExpense ids (e\<lparr>je_splitMode := v, je_recurrenceRule := r\<rparr>) = validateExpense ids e"
  by (simp add: validateExpense_def split: option.splits)

lemma importExpense_sim:
  assumes w: "forgetW w = forgetW w'"
  shows "map_sum id forgetW (importExpense env gid ids (e\<lparr>je_splitMode := v, je_recurrenceRule := r\<rparr>) w)
         = map_sum id forgetW (importExpense env gid ids e w')"
proof (cases "validateExpense ids e")
  case (Inl err)
  then show ?thesis by (simp add: importExpense_def bindE_def)
next
  case (Inr u)
  let ?e' = "e\<lparr>je_splitMode := v, je_recurrenceRule := r\<rparr>"
  from w have f: "forget (db w) = forget (db w')" and k: "uuidCalls w = uuidCalls w'"
    by (simp_all add: forgetW_eq)
  obtain c s1 where rc: "resolveCategory (je_category e) (db w) = (c, s1)"
    by (cases "resolveCategory (je_category e) (db w)")
  obtain c' s1' where rc': "resolveCategory (je_category e) (db w') = (c', s1')"
    by (cases "resolveCategory (je_category e) (db w')")
  have "map_prod id forget (resolveCategory (je_category e) (db w))
          = map_prod id forget (resolveCategory (je_category e) (db w'))"
    by (simp add: resolveCategory_forget f)
  with rc rc' have c: "c' = c" and s1: "forget s1 = forget s1'" by simp_all
  show ?thesis
  proof (cases "newDate env (je_expenseDate e)")
    case None
    with Inr rc rc' show ?thesis by (simp add: importExpense_def bindE_def dateArg_def)
  next
    case (Some d)
    let ?i = "randomUUID env (uuidCalls w)"
    have x: "map_sum id forget (expense_create env (jsonExpenseRow env gid ?i c d ?e') (je_paidFor e) s1)
          = map_sum id forget (expense_create env (jsonExpenseRow env gid ?i c d e) (je_paidFor e) s1')"
      by (simp add: expense_create_forget forgetRow_jsonExpenseRow s1)
    have "map_sum id forgetW
            (bindE (expense_create env (jsonExpenseRow env gid ?i c d ?e') (je_paidFor e) s1)
               (\<lambda>s2. bindE (activity_create env
                        (jsonExpenseActivity env gid (randomUUID env (uuidCalls w + 1)) ?i e) s2)
                 (\<lambda>s3. Inr \<lparr>db = s3, uuidCalls = uuidCalls w + 2\<rparr>)))
        = map_sum id forgetW
            (bindE (expense_create env (jsonExpenseRow env gid ?i c d e) (je_paidFor e) s1')
               (\<lambda>s2. bindE (activity_create env
                        (jsonExpenseActivity env gid (randomUUID env (uuidCalls w + 1)) ?i e) s2)
                 (\<lambda>s3. Inr \<lparr>db = s3, uuidCalls = uuidCalls w + 2\<rparr>)))"
    proof (rule bindE_sim[OF x])
      fix s2 s2' assume s2: "forget s2 = forget s2'"
      have y: "map_sum id forget (activity_create env
                  (jsonExpenseActivity env gid (randomUUID env (uuidCalls w + 1)) ?i e) s2)
             = map_sum id forget (activity_create env
                  (jsonExpenseActivity env gid (randomUUID env (uuidCalls w + 1)) ?i e) s2')"
        by (simp add: activity_create_forget s2)
      show "map_sum id forgetW (bindE (activity_create env
                        (jsonExpenseActivity env gid (randomUUID env (uuidCalls w + 1)) ?i e) s2)
                 (\<lambda>s3. Inr \<lparr>db = s3, uuidCalls = uuidCalls w + 2\<rparr>))
          = map_sum id forgetW (bindE (activity_create env
                        (jsonExpenseActivity env gid (randomUUID env (uuidCalls w + 1)) ?i e) s2')
                 (\<lambda>s3. Inr \<lparr>db = s3, uuidCalls = uuidCalls w + 2\<rparr>))"
        by (rule bindE_sim[OF y]) (simp add: forgetW_def)
    qed
    with Inr rc rc' Some c k show ?thesis
      by (simp add: importExpense_def bindE_def dateArg_def Let_def)
  qed
qed

lemma importExpense_loop_sim:
  "forgetW w = forgetW w' \<Longrightarrow>
   map_sum id forgetW
     (forE (importExpense env gid ids)
        (map (\<lambda>e. e\<lparr>je_splitMode := f e, je_recurrenceRule := g e\<rparr>) es) w)
   = map_sum id forgetW (forE (importExpense env gid ids) es w')"
  unfolding forE_map by (rule forE_sim) (rule importExpense_sim)

lemma addNewExpense_sim:
  assumes "forgetW w = forgetW w'"
  shows "map_sum id forgetW
           (addNewExpense env gid ids keys (e\<lparr>je_splitMode := v, je_recurrenceRule := r\<rparr>) w)
         = map_sum id forgetW (addNewExpense env gid ids keys e w')"
  using assms importExpense_sim[OF assms, where env = env and gid = gid and ids = ids and e = e
      and v = v and r = r]
  by (simp add: addNewExpense_def expenseKey_def bindE_def split: option.splits)

lemma addNewExpense_loop_sim:
  "forgetW w = forgetW w' \<Longrightarrow>
   map_sum id forgetW
     (forE (addNewExpense env gid ids keys)
        (map (\<lambda>e. e\<lparr>je_splitMode := f e, je_recurrenceRule := g e\<rparr>) es) w)
   = map_sum id forgetW (forE (addNewExpense env gid ids keys) es w')"
  unfolding forE_map by (rule forE_sim) (rule addNewExpense_sim)

lemma withModes_simps [simp]:
  "j_id (withModes f g jd) = j_id jd" "j_name (withModes f g jd) = j_name jd"
  "j_currency (withModes f g jd) = j_currency jd"
  "j_currencyCode (withModes f g jd) = j_currencyCode jd"
  "j_participants (withModes f g jd) = j_participants jd"
  "j_expenses (withModes f g jd)
     = map (\<lambda>e. e\<lparr>je_splitMode := f e, je_recurrenceRule := g e\<rparr>) (j_expenses jd)"
  by (simp_all add: withModes_def)

lemma importMarker_withModes [simp]:
  "importMarker env (withModes f g jd) m k = importMarker env jd m k"
  by (simp add: importMarker_def)

lemma setGroupMetadata_withModes [simp]:
  "setGroupMetadata (withModes f g jd) = setGroupMetadata jd"
  by (simp add: setGroupMetadata_def fun_eq_iff)

lemma restore_withModes:
  "map_sum id forgetW (restoreGroupFromJSON env (withModes f g jd) m w)
   = map_sum id forgetW (restoreGroupFromJSON env jd m w)"
proof (cases m)
  case Create
  then show ?thesis
    by (simp add: restoreGroupFromJSON_def bindE_def Let_def importExpense_loop_sim
        split: sum.splits)
next
  case Update
  then show ?thesis
    by (simp add: restoreGroupFromJSON_def bindE_def Let_def addNewExpense_loop_sim
        split: sum.splits prod.splits)
next
  case Rollback
  then show ?thesis
    by (simp add: restoreGroupFromJSON_def bindE_def Let_def importExpense_loop_sim
        split: sum.splits prod.splits)
qed

lemma failure_map_sum: "failure (map_sum id F r) = failure r"
  by (cases r) (simp_all add: failure_def)

text \<open>
  C10. \<open>mapSplitMode\<close> sends every string other than \<open>BY_SHARES\<close>, \<open>BY_PERCENTAGE\<close> and
  \<open>BY_AMOUNT\<close> to \<open>EVENLY\<close>, and \<open>mapRecurrenceRule\<close> sends every value other than \<open>DAILY\<close>,
  \<open>WEEKLY\<close> and \<open>MONTHLY\<close>, \<open>null\<close> included, to \<open>NONE\<close>; both are total. A lightweight
  restore, in any mode, raises the same error or none whatever split modes and recurrence
  rules the expenses of the snapshot carry: none of them makes it reject an expense.
\<close>

theorem modes_never_reject:
  "(v \<notin> {''BY_SHARES'', ''BY_PERCENTAGE'', ''BY_AMOUNT''} \<longrightarrow> mapSplitMode v = EVENLY)
   \<and> (r \<notin> {Some ''DAILY'', Some ''WEEKLY'', Some ''MONTHLY''} \<longrightarrow> mapRecurrenceRule r = NONE)
   \<and> failure (restoreGroupFromJSON env (withModes f g jd) m w)
        = failure (restoreGroupFromJSON env jd m w)"
proof -
  have "failure (restoreGroupFromJSON env (withModes f g jd) m w)
        = failure (restoreGroupFromJSON env jd m w)"
    using restore_withModes[of env f g jd m w] by (metis failure_map_sum)
  then show ?thesis by (simp add: mapSplitMode_def mapRecurrenceRule_def)
qed

text \<open>
  The strings \<open>QUARTERLY\<close> and \<open>YEARLY\<close> are mapped to the defaults, and the one-expense
  snapshot carrying them is restored without an error.
\<close>

theorem modes_never_reject_witness:
  "''QUARTERLY'' \<notin> {''BY_SHARES'', ''BY_PERCENTAGE'', ''BY_AMOUNT''}
   \<and> mapSplitMode ''QUARTERLY'' = EVENLY
   \<and> Some ''YEARLY'' \<notin> {Some ''DAILY'', Some ''WEEKLY'', Some ''MONTHLY''}
   \<and> mapRecurrenceRule (Some ''YEARLY'') = NONE
   \<and> failure (restoreGroupFromJSON (exEnv True)
         (withModes (\<lambda>e. ''QUARTERLY'') (\<lambda>e. Some ''YEARLY'') exLunchJSON) Create
         \<lparr>db = emptyStore, uuidCalls = 0\<rparr>) = None"
proof -
  have "\<exists>w'. restoreGroupFromJSON (exEnv True) exLunchJSON Create \<lparr>db = emptyStore, uuidCalls = 0\<rparr> = Inr w'"
    by (simp add: hasGroup_def hasParticipant_def hasExpense_def hasCategory_def refused_def
        dateArg_def participant_create_def group_create_def paidFor_create_def
        expense_create_def activity_create_def bindE_def
        restoreGroupFromJSON_def importExpense_def validateExpense_def resolveCategory_def
        jsonExpenseRow_def jsonExpenseActivity_def importMarker_def
        exEnv_def emptyStore_def exJSON_def exJSONExpense_def exLunchJSON_def day0_def day1_def
        Let_def)
  then have e: "failure (restoreGroupFromJSON (exEnv True) exLunchJSON Create
                  \<lparr>db = emptyStore, uuidCalls = 0\<rparr>) = None"
    by (auto simp: failure_def)
  from modes_never_reject[of "''QUARTERLY''" "Some ''YEARLY''" "exEnv True" "\<lambda>e. ''QUARTERLY''"
         "\<lambda>e. Some ''YEARLY''" exLunchJSON Create "\<lparr>db = emptyStore, uuidCalls = 0\<rparr>"] e
  show ?thesis by simp
qed

end
